(* ===== verification/Prelude.thy ===== *)
theory Prelude
  imports Main "HOL-Library.List_Lexorder" "HOL-Library.Char_ord"
begin

text \<open>
  Shared vocabulary of the development: the parts of Rust's standard library the modelled crates
  use (string slicing, ASCII case folding, ordered maps) and the generic lemmas about them.

  A Rust \<^verbatim>\<open>String\<close> is its UTF-8 byte sequence, a HOL \<^typ>\<open>string\<close>; \<^verbatim>\<open>len()\<close> is
  therefore \<^const>\<open>length\<close>, and every search, split and comparison below works on bytes, which for
  well-formed UTF-8 is what the library does. Code that iterates over \<^verbatim>\<open>chars()\<close> goes through
  the decoder of theory \<open>Utf8\<close>.

  A \<^verbatim>\<open>BTreeMap<String, V>\<close> is an association list in strictly increasing key order: iteration
  order is list order, lookup is \<^const>\<open>map_of\<close>. The locale \<open>ordered_map\<close> states the laws the
  clients rely on and is interpreted on the list operations.
\<close>

named_theorems rust_str \<open>defining equations of the string operations\<close>
named_theorems bt_simps \<open>laws of the ordered-map operations\<close>

section \<open>Option and list helpers\<close>

definition opt_or :: "'a option \<Rightarrow> 'a option \<Rightarrow> 'a option" where
  "opt_or a b = (case a of Some x \<Rightarrow> Some x | None \<Rightarrow> b)"

definition unwrap_or :: "'a option \<Rightarrow> 'a \<Rightarrow> 'a" where
  "unwrap_or a d = (case a of Some x \<Rightarrow> x | None \<Rightarrow> d)"

definition is_some_and :: "'a option \<Rightarrow> ('a \<Rightarrow> bool) \<Rightarrow> bool" where
  "is_some_and a p = (case a of Some x \<Rightarrow> p x | None \<Rightarrow> False)"

definition is_none_or :: "'a option \<Rightarrow> ('a \<Rightarrow> bool) \<Rightarrow> bool" where
  "is_none_or a p = (case a of Some x \<Rightarrow> p x | None \<Rightarrow> True)"

definition opt_filter :: "('a \<Rightarrow> bool) \<Rightarrow> 'a option \<Rightarrow> 'a option" where
  "opt_filter p a = (case a of Some x \<Rightarrow> (if p x then Some x else None) | None \<Rightarrow> None)"

lemma opt_or_simps [simp]: "opt_or None b = b" "opt_or (Some x) b = Some x"
  by (simp_all add: opt_or_def)

lemma unwrap_or_simps [simp]: "unwrap_or None d = d" "unwrap_or (Some x) d = x"
  by (simp_all add: unwrap_or_def)

lemma is_some_and_simps [simp]: "is_some_and None p = False" "is_some_and (Some x) p = p x"
  by (simp_all add: is_some_and_def)

lemma is_none_or_simps [simp]: "is_none_or None p = True" "is_none_or (Some x) p = p x"
  by (simp_all add: is_none_or_def)

lemma opt_filter_simps [simp]:
  "opt_filter p None = None" "opt_filter p (Some x) = (if p x then Some x else None)"
  by (simp_all add: opt_filter_def)

text \<open>The integer clamp of \<^verbatim>\<open>Ord::clamp\<close>.\<close>

definition clamp :: "int \<Rightarrow> int \<Rightarrow> int \<Rightarrow> int" where
  "clamp lo hi x = (if x < lo then lo else if hi < x then hi else x)"

lemma clamp_bounds: "lo \<le> hi \<Longrightarrow> lo \<le> clamp lo hi x \<and> clamp lo hi x \<le> hi"
  by (simp add: clamp_def)

lemma clamp_id: "lo \<le> x \<Longrightarrow> x \<le> hi \<Longrightarrow> clamp lo hi x = x"
  by (simp add: clamp_def)

section \<open>String slices\<close>

definition starts_with :: "string \<Rightarrow> string \<Rightarrow> bool" where
  "starts_with s p \<longleftrightarrow> take (length p) s = p"

definition ends_with :: "string \<Rightarrow> string \<Rightarrow> bool" where
  "ends_with s p \<longleftrightarrow> length p \<le> length s \<and> drop (length s - length p) s = p"

definition strip_prefix :: "string \<Rightarrow> string \<Rightarrow> string option" where
  "strip_prefix s p = (if starts_with s p then Some (drop (length p) s) else None)"

definition strip_suffix :: "string \<Rightarrow> string \<Rightarrow> string option" where
  "strip_suffix s p = (if ends_with s p then Some (take (length s - length p) s) else None)"

text \<open>\<^verbatim>\<open>s.find(p)\<close>: the byte offset of the first occurrence.\<close>

fun find_str :: "string \<Rightarrow> string \<Rightarrow> nat option" where
  "find_str [] p = (if p = [] then Some 0 else None)"
| "find_str (c # s) p =
     (if starts_with (c # s) p then Some 0 else map_option Suc (find_str s p))"

definition contains_str :: "string \<Rightarrow> string \<Rightarrow> bool" where
  "contains_str s p \<longleftrightarrow> find_str s p \<noteq> None"

text \<open>\<^verbatim>\<open>split_once(c)\<close> and \<^verbatim>\<open>split(c)\<close> for a one-byte separator.\<close>

fun split_once :: "string \<Rightarrow> char \<Rightarrow> (string \<times> string) option" where
  "split_once [] c = None"
| "split_once (d # s) c =
     (if d = c then Some ([], s)
      else map_option (\<lambda>(a, b). (d # a, b)) (split_once s c))"

fun split_char :: "string \<Rightarrow> char \<Rightarrow> string list" where
  "split_char [] c = [[]]"
| "split_char (d # s) c =
     (if d = c then [] # split_char s c
      else (case split_char s c of [] \<Rightarrow> [[d]] | x # xs \<Rightarrow> (d # x) # xs))"

text \<open>\<^verbatim>\<open>rsplit_once(p)\<close> for a string pattern: split at the last occurrence.\<close>

fun rsplit_once_str :: "string \<Rightarrow> string \<Rightarrow> (string \<times> string) option" where
  "rsplit_once_str [] p = (if p = [] then Some ([], []) else None)"
| "rsplit_once_str (c # s) p =
     (case rsplit_once_str s p of
        Some (a, b) \<Rightarrow> Some (c # a, b)
      | None \<Rightarrow> (if starts_with (c # s) p then Some ([], drop (length p) (c # s)) else None))"

definition join_with :: "string \<Rightarrow> string list \<Rightarrow> string" where
  "join_with sep xs = (case xs of [] \<Rightarrow> [] | y # ys \<Rightarrow> y @ concat (map (\<lambda>z. sep @ z) ys))"

text \<open>\<^verbatim>\<open>trim_start_matches(p)\<close> and \<^verbatim>\<open>trim_end_matches(p)\<close> strip \<open>p\<close> as often as it occurs.\<close>

function trim_start_matches :: "string \<Rightarrow> string \<Rightarrow> string" where
  "trim_start_matches s p =
     (if p \<noteq> [] \<and> starts_with s p then trim_start_matches (drop (length p) s) p else s)"
  by pat_completeness auto
termination
proof (relation "measure (\<lambda>(s, p). length s)", simp_all)
  fix s p :: string
  assume "p \<noteq> [] \<and> starts_with s p"
  then have "0 < length p" "length p \<le> length s"
    by (auto simp: starts_with_def) (metis length_take min.cobounded1)
  then show "length s - length p < length s" by linarith
qed

function trim_end_matches :: "string \<Rightarrow> string \<Rightarrow> string" where
  "trim_end_matches s p =
     (if p \<noteq> [] \<and> ends_with s p
      then trim_end_matches (take (length s - length p) s) p else s)"
  by pat_completeness auto
termination
proof (relation "measure (\<lambda>(s, p). length s)", simp_all)
  fix s p :: string
  assume "p \<noteq> [] \<and> ends_with s p"
  then have "0 < length p" "length p \<le> length s" by (auto simp: ends_with_def)
  then show "length s - length p < length s" by linarith
qed

declare trim_start_matches.simps [simp del] trim_end_matches.simps [simp del]

section \<open>ASCII case folding\<close>

definition ascii_lower :: "char \<Rightarrow> char" where
  "ascii_lower c = (let n = of_char c :: nat in if 65 \<le> n \<and> n \<le> 90 then char_of (n + 32) else c)"

definition to_ascii_lowercase :: "string \<Rightarrow> string" where
  "to_ascii_lowercase s = map ascii_lower s"

definition eq_ignore_ascii_case :: "string \<Rightarrow> string \<Rightarrow> bool" where
  "eq_ignore_ascii_case a b \<longleftrightarrow> to_ascii_lowercase a = to_ascii_lowercase b"

definition is_ascii_digit :: "char \<Rightarrow> bool" where
  "is_ascii_digit c \<longleftrightarrow> 48 \<le> (of_char c :: nat) \<and> (of_char c :: nat) \<le> 57"

definition is_ascii_alphabetic :: "char \<Rightarrow> bool" where
  "is_ascii_alphabetic c \<longleftrightarrow>
     65 \<le> (of_char c :: nat) \<and> (of_char c :: nat) \<le> 90 \<or>
     97 \<le> (of_char c :: nat) \<and> (of_char c :: nat) \<le> 122"

definition is_ascii_alphanumeric :: "char \<Rightarrow> bool" where
  "is_ascii_alphanumeric c \<longleftrightarrow> is_ascii_alphabetic c \<or> is_ascii_digit c"

definition is_ascii_hexdigit :: "char \<Rightarrow> bool" where
  "is_ascii_hexdigit c \<longleftrightarrow>
     is_ascii_digit c \<or>
     65 \<le> (of_char c :: nat) \<and> (of_char c :: nat) \<le> 70 \<or>
     97 \<le> (of_char c :: nat) \<and> (of_char c :: nat) \<le> 102"

lemmas str_defs [rust_str] =
  starts_with_def ends_with_def strip_prefix_def strip_suffix_def contains_str_def

lemma starts_with_Nil [simp]: "starts_with s []"
  by (simp add: starts_with_def)

lemma starts_with_iff: "starts_with s p \<longleftrightarrow> (\<exists>t. s = p @ t)"
proof
  assume "starts_with s p"
  then have "s = p @ drop (length p) s"
    by (metis append_take_drop_id starts_with_def)
  then show "\<exists>t. s = p @ t" by blast
qed (auto simp: starts_with_def)

lemma strip_prefix_Some: "strip_prefix s p = Some t \<longleftrightarrow> s = p @ t"
  by (auto simp: strip_prefix_def starts_with_iff)

lemma ends_with_iff: "ends_with s p \<longleftrightarrow> (\<exists>t. s = t @ p)"
proof
  assume "ends_with s p"
  then have "s = take (length s - length p) s @ p"
    by (metis append_take_drop_id ends_with_def)
  then show "\<exists>t. s = t @ p" by blast
qed (auto simp: ends_with_def)

lemma strip_suffix_Some: "strip_suffix s p = Some t \<longleftrightarrow> s = t @ p"
  by (auto simp: strip_suffix_def ends_with_iff)

lemma split_once_Some: "split_once s c = Some (a, b) \<longleftrightarrow> s = a @ c # b \<and> c \<notin> set a"
proof (induction s arbitrary: a)
  case (Cons d s)
  then show ?case by (cases a) auto
qed simp

lemma split_once_None: "split_once s c = None \<longleftrightarrow> c \<notin> set s"
  by (induction s) auto

lemma split_char_nonempty [simp]: "split_char s c \<noteq> []"
  by (cases s) (auto split: list.splits)

lemma join_split_char: "join_with [c] (split_char s c) = s"
proof (induction s)
  case (Cons d s)
  show ?case
  proof (cases "split_char s c")
    case Nil
    then show ?thesis by simp
  next
    case (Cons x xs)
    with Cons.IH show ?thesis by (auto simp: join_with_def)
  qed
qed (simp add: join_with_def)

lemma split_char_no_sep: "x \<in> set (split_char s c) \<Longrightarrow> c \<notin> set x"
proof (induction s arbitrary: x)
  case (Cons d s)
  then show ?case
    by (cases "split_char s c") (auto split: if_splits)
qed simp

lemma length_to_ascii_lowercase [simp]: "length (to_ascii_lowercase s) = length s"
  by (simp add: to_ascii_lowercase_def)

lemma ascii_lower_idem [simp]: "ascii_lower (ascii_lower c) = ascii_lower c"
proof (cases "65 \<le> (of_char c :: nat) \<and> (of_char c :: nat) \<le> 90")
  case True
  then have "(of_char (char_of ((of_char c :: nat) + 32)) :: nat) = of_char c + 32"
    by simp
  with True show ?thesis by (simp add: ascii_lower_def Let_def)
next
  case False
  then show ?thesis by (auto simp: ascii_lower_def Let_def)
qed

lemma to_ascii_lowercase_idem [simp]:
  "to_ascii_lowercase (to_ascii_lowercase s) = to_ascii_lowercase s"
  by (simp add: to_ascii_lowercase_def)

lemma to_ascii_lowercase_append [simp]:
  "to_ascii_lowercase (a @ b) = to_ascii_lowercase a @ to_ascii_lowercase b"
  by (simp add: to_ascii_lowercase_def)

lemma eq_ignore_ascii_case_refl [simp]: "eq_ignore_ascii_case s s"
  by (simp add: eq_ignore_ascii_case_def)

lemma eq_ignore_ascii_case_sym: "eq_ignore_ascii_case a b = eq_ignore_ascii_case b a"
  by (auto simp: eq_ignore_ascii_case_def)

section \<open>Ordered maps\<close>

text \<open>\<^verbatim>\<open>BTreeMap::insert\<close>, \<^verbatim>\<open>remove\<close> and \<^verbatim>\<open>retain\<close> on key-ordered association lists.\<close>

type_synonym ('k, 'v) btree = "('k \<times> 'v) list"
type_synonym 'v smap = "(string, 'v) btree"

fun bt_insert :: "'k::linorder \<Rightarrow> 'v \<Rightarrow> ('k, 'v) btree \<Rightarrow> ('k, 'v) btree" where
  "bt_insert k v [] = [(k, v)]"
| "bt_insert k v (e # m) =
     (if k = fst e then (k, v) # m
      else if k < fst e then (k, v) # e # m
      else e # bt_insert k v m)"

definition bt_remove :: "'k \<Rightarrow> ('k, 'v) btree \<Rightarrow> ('k, 'v) btree" where
  "bt_remove k m = filter (\<lambda>e. fst e \<noteq> k) m"

definition bt_retain :: "('k \<Rightarrow> 'v \<Rightarrow> bool) \<Rightarrow> ('k, 'v) btree \<Rightarrow> ('k, 'v) btree" where
  "bt_retain p m = filter (\<lambda>(k, v). p k v) m"

definition bt_wf :: "('k::linorder, 'v) btree \<Rightarrow> bool" where
  "bt_wf m \<longleftrightarrow> sorted_wrt (<) (map fst m)"

text \<open>\<^verbatim>\<open>get_mut(k)\<close> followed by a write: the value at \<open>k\<close> is replaced where \<open>k\<close> is bound.\<close>

definition bt_modify :: "'k \<Rightarrow> ('v \<Rightarrow> 'v) \<Rightarrow> ('k, 'v) btree \<Rightarrow> ('k, 'v) btree" where
  "bt_modify k f m = map (\<lambda>(k', v). (k', if k' = k then f v else v)) m"

lemma map_of_bt_insert [bt_simps]: "map_of (bt_insert k v m) = (map_of m)(k \<mapsto> v)"
  by (induction m) (auto simp: fun_eq_iff)

lemma fst_set_bt_insert [bt_simps]: "fst ` set (bt_insert k v m) = insert k (fst ` set m)"
  by (induction m) (auto simp: rev_image_eqI)

lemma bt_wf_Nil [bt_simps, simp]: "bt_wf []"
  by (simp add: bt_wf_def)

lemma bt_wf_Cons: "bt_wf (e # m) \<longleftrightarrow> (\<forall>k \<in> fst ` set m. fst e < k) \<and> bt_wf m"
  by (simp add: bt_wf_def)

lemma bt_wf_insert [bt_simps]: "bt_wf m \<Longrightarrow> bt_wf (bt_insert k v m)"
proof (induction m)
  case (Cons e m)
  then show ?case
    by (auto simp: bt_wf_Cons fst_set_bt_insert)
qed (simp add: bt_wf_def)

lemma bt_wf_filter: "bt_wf m \<Longrightarrow> bt_wf (filter p m)"
  by (induction m) (auto simp: bt_wf_Cons)

lemma bt_wf_remove [bt_simps]: "bt_wf m \<Longrightarrow> bt_wf (bt_remove k m)"
  by (simp add: bt_remove_def bt_wf_filter)

lemma bt_wf_retain [bt_simps]: "bt_wf m \<Longrightarrow> bt_wf (bt_retain p m)"
  by (simp add: bt_retain_def bt_wf_filter)

lemma bt_wf_distinct: "bt_wf m \<Longrightarrow> distinct (map fst m)"
  by (auto simp: bt_wf_def strict_sorted_iff)

lemma map_of_bt_remove [bt_simps]: "map_of (bt_remove k m) = (map_of m)(k := None)"
  by (induction m) (auto simp: bt_remove_def fun_eq_iff)

lemma map_of_bt_retain [bt_simps]:
  "distinct (map fst m) \<Longrightarrow> map_of (bt_retain p m) k = opt_filter (p k) (map_of m k)"
proof (induction m)
  case (Cons e m)
  then show ?case
    by (cases e; cases "map_of m k") (auto simp: bt_retain_def rev_image_eqI dest: map_of_SomeD)
qed (simp add: bt_retain_def)

lemma map_fst_bt_modify [bt_simps, simp]: "map fst (bt_modify k f m) = map fst m"
  by (induction m) (auto simp: bt_modify_def)

lemma bt_wf_modify [bt_simps]: "bt_wf (bt_modify k f m) = bt_wf m"
  by (simp add: bt_wf_def)

lemma map_of_bt_modify [bt_simps]:
  "map_of (bt_modify k f m) k' = (if k' = k then map_option f (map_of m k) else map_of m k')"
  by (induction m) (auto simp: bt_modify_def)

text \<open>The interface the stateful components program against.\<close>

locale ordered_map =
  fixes empty :: "'m"
    and get :: "'m \<Rightarrow> 'k \<Rightarrow> 'v option"
    and insert :: "'k \<Rightarrow> 'v \<Rightarrow> 'm \<Rightarrow> 'm"
    and remove :: "'k \<Rightarrow> 'm \<Rightarrow> 'm"
    and invar :: "'m \<Rightarrow> bool"
  assumes get_empty: "get empty k = None"
    and get_insert: "invar m \<Longrightarrow> get (insert k v m) k' = (if k' = k then Some v else get m k')"
    and get_remove: "invar m \<Longrightarrow> get (remove k m) k' = (if k' = k then None else get m k')"
    and invar_empty: "invar empty"
    and invar_insert: "invar m \<Longrightarrow> invar (insert k v m)"
    and invar_remove: "invar m \<Longrightarrow> invar (remove k m)"
begin

lemma insert_then_get: "invar m \<Longrightarrow> get (insert k v m) k = Some v"
  by (simp add: get_insert)

lemma remove_undoes_insert:
  "invar m \<Longrightarrow> get m k = None \<Longrightarrow> get (remove k (insert k v m)) k' = get m k'"
  by (simp add: get_remove get_insert invar_insert)

lemma fold_insert_invar: "invar m \<Longrightarrow> invar (fold (\<lambda>(k, v). insert k v) es m)"
  by (induction es arbitrary: m) (auto simp: invar_insert)

end

interpretation bt: ordered_map
  "[] :: ('k::linorder, 'v) btree" map_of bt_insert bt_remove bt_wf
  by unfold_locales (auto simp: bt_simps)

end
