(* ===== verification/Rust_Num.thy ===== *)
theory Rust_Num
  imports Complex_Main Prelude
begin

text \<open>
  Text forms of numbers in Rust's standard library: \<^verbatim>\<open>to_string\<close> on integers, \<^verbatim>\<open>parse\<close> for the
  integer types (an optional sign, at least one digit, no overflow) and for \<^verbatim>\<open>f64\<close>. A
  \<^verbatim>\<open>f64\<close> is NaN, an infinity or a rational; zero has one representation because the modelled code
  only compares floats, and \<^verbatim>\<open>==\<close>, \<^verbatim>\<open><\<close> do not see the sign of zero. \<^verbatim>\<open>parse::<f64>\<close> is the
  grammar of \<^verbatim>\<open>f64::from_str\<close> followed by rounding to nearest, ties to even, with 53 significant
  bits and the subnormal range.
\<close>

section \<open>Integers\<close>

fun show_nat :: "nat \<Rightarrow> string" where
  "show_nat n =
     (if n < 10 then [char_of (48 + n)] else show_nat (n div 10) @ [char_of (48 + n mod 10)])"

declare show_nat.simps [simp del]

definition show_int :: "int \<Rightarrow> string" where
  "show_int i = (if i < 0 then CHR ''-'' # show_nat (nat (- i)) else show_nat (nat i))"

definition digit_val :: "char \<Rightarrow> nat" where
  "digit_val c = of_char c - 48"

definition digits_val :: "string \<Rightarrow> nat" where
  "digits_val s = foldl (\<lambda>a c. a * 10 + digit_val c) 0 s"

definition all_digits :: "string \<Rightarrow> bool" where
  "all_digits s \<longleftrightarrow> s \<noteq> [] \<and> list_all is_ascii_digit s"

text \<open>\<^verbatim>\<open>uN::from_str\<close>; \<open>bound\<close> is \<open>2 ^ N\<close>.\<close>

definition parse_unsigned :: "nat \<Rightarrow> string \<Rightarrow> nat option" where
  "parse_unsigned bound s =
     (let d = (case s of c # r \<Rightarrow> if c = CHR ''+'' then r else s | [] \<Rightarrow> s)
      in if all_digits d \<and> digits_val d < bound then Some (digits_val d) else None)"

abbreviation "parse_u8 \<equiv> parse_unsigned (2 ^ 8)"
abbreviation "parse_u32 \<equiv> parse_unsigned (2 ^ 32)"
abbreviation "parse_u64 \<equiv> parse_unsigned (2 ^ 64)"

definition parse_i64 :: "string \<Rightarrow> int option" where
  "parse_i64 s =
     (case s of
        c # r \<Rightarrow>
          (if c = CHR ''-'' then
             (if all_digits r \<and> digits_val r \<le> 2 ^ 63 then Some (- int (digits_val r)) else None)
           else
             (let d = (if c = CHR ''+'' then r else s)
              in if all_digits d \<and> digits_val d < 2 ^ 63 then Some (int (digits_val d)) else None))
      | [] \<Rightarrow> None)"

definition i64_min :: int where "i64_min = - (2 ^ 63)"
definition i64_max :: int where "i64_max = 2 ^ 63 - 1"

lemma digits_val_snoc: "digits_val (s @ [c]) = digits_val s * 10 + digit_val c"
  by (simp add: digits_val_def)

lemma show_nat_digits: "all_digits (show_nat n) \<and> digits_val (show_nat n) = n"
proof (induction n rule: show_nat.induct)
  case (1 n)
  show ?case
  proof (cases "n < 10")
    case True
    then show ?thesis
      by (subst (1 2) show_nat.simps)
        (simp add: all_digits_def is_ascii_digit_def digits_val_def digit_val_def)
  next
    case False
    with 1 have IH: "all_digits (show_nat (n div 10))" "digits_val (show_nat (n div 10)) = n div 10"
      by auto
    have "n mod 10 < 10" by simp
    then have "(of_char (char_of (48 + n mod 10)) :: nat) = 48 + n mod 10" by simp
    with False IH \<open>n mod 10 < 10\<close> show ?thesis
      by (subst (1 2) show_nat.simps)
        (simp add: all_digits_def is_ascii_digit_def digits_val_snoc digit_val_def
          del: of_char_of)
  qed
qed

lemmas all_digits_show_nat [simp] = show_nat_digits [THEN conjunct1]
lemmas digits_val_show_nat [simp] = show_nat_digits [THEN conjunct2]

lemma show_nat_Cons:
  obtains c r where "show_nat n = c # r" "is_ascii_digit c"
proof (cases "show_nat n")
  case Nil
  then show ?thesis using all_digits_show_nat [of n] by (simp add: all_digits_def)
next
  case (Cons c r)
  then show ?thesis using all_digits_show_nat [of n] that by (simp add: all_digits_def)
qed

lemma show_nat_inject: "show_nat m = show_nat n \<longleftrightarrow> m = n"
  by (metis digits_val_show_nat)

text \<open>Printing then parsing an integer that fits the type gives it back.\<close>

lemma parse_unsigned_show: "n < bound \<Longrightarrow> parse_unsigned bound (show_nat n) = Some n"
proof (rule show_nat_Cons [of n])
  fix c r
  assume c: "show_nat n = c # r" "is_ascii_digit c" and n: "n < bound"
  then have "c \<noteq> CHR ''+''" by (auto simp: is_ascii_digit_def)
  with c n show ?thesis
    using show_nat_digits [of n] by (simp add: parse_unsigned_def)
qed

lemma parse_i64_show:
  assumes "i64_min \<le> i" "i \<le> i64_max"
  shows "parse_i64 (show_int i) = Some i"
proof (cases "i < 0")
  case True
  with assms show ?thesis
    by (simp add: parse_i64_def show_int_def i64_min_def nat_le_eq_zle flip: nat_le_iff)
next
  case False
  show ?thesis
  proof (rule show_nat_Cons [of "nat i"])
    fix c r
    assume c: "show_nat (nat i) = c # r" "is_ascii_digit c"
    then have "c \<noteq> CHR ''+''" "c \<noteq> CHR ''-''" by (auto simp: is_ascii_digit_def)
    with c False assms show ?thesis
      using show_nat_digits [of "nat i"]
      by (simp add: parse_i64_def show_int_def i64_max_def)
  qed
qed

lemma parse_unsigned_bound: "parse_unsigned bound s = Some n \<Longrightarrow> n < bound"
  by (auto simp: parse_unsigned_def Let_def split: if_splits)

lemma parse_i64_range: "parse_i64 s = Some i \<Longrightarrow> i64_min \<le> i \<and> i \<le> i64_max"
  by (auto simp: parse_i64_def Let_def i64_min_def i64_max_def split: list.splits if_splits)

section \<open>Double-precision floats\<close>

datatype f64 = F64_NaN | F64_Inf bool | F64_Val rat

text \<open>\<^verbatim>\<open>==\<close>, \<^verbatim>\<open><\<close> and \<^verbatim>\<open><=\<close>; an infinity carries its sign (\<open>True\<close>: negative).\<close>

fun f64_eq :: "f64 \<Rightarrow> f64 \<Rightarrow> bool" where
  "f64_eq (F64_Val a) (F64_Val b) = (a = b)"
| "f64_eq (F64_Inf a) (F64_Inf b) = (a = b)"
| "f64_eq _ _ = False"

fun f64_lt :: "f64 \<Rightarrow> f64 \<Rightarrow> bool" where
  "f64_lt (F64_Val a) (F64_Val b) = (a < b)"
| "f64_lt (F64_Val a) (F64_Inf n) = (\<not> n)"
| "f64_lt (F64_Inf n) (F64_Val b) = n"
| "f64_lt (F64_Inf m) (F64_Inf n) = (m \<and> \<not> n)"
| "f64_lt _ _ = False"

definition f64_le :: "f64 \<Rightarrow> f64 \<Rightarrow> bool" where
  "f64_le a b \<longleftrightarrow> f64_lt a b \<or> f64_eq a b"

fun bitlen :: "nat \<Rightarrow> nat" where
  "bitlen n = (if n = 0 then 0 else Suc (bitlen (n div 2)))"

declare bitlen.simps [simp del]

definition ilog2_rat :: "rat \<Rightarrow> int" where
  "ilog2_rat m =
     (let (n, d) = quotient_of m; k = int (bitlen (nat n)) - int (bitlen (nat d))
      in if 2 powi k \<le> m then k else k - 1)"

definition round_half_even :: "rat \<Rightarrow> int" where
  "round_half_even r =
     (let f = \<lfloor>r\<rfloor>; d = r - of_int f
      in if d < 1 / 2 then f else if 1 / 2 < d then f + 1 else if even f then f else f + 1)"

definition round_f64 :: "bool \<Rightarrow> rat \<Rightarrow> f64" where
  "round_f64 neg m =
     (if m = 0 then F64_Val 0
      else
        let e = max (- 1074) (ilog2_rat m - 52);
            v = of_int (round_half_even (m * 2 powi (- e))) * 2 powi e
        in if 2 ^ 1024 \<le> v then F64_Inf neg else F64_Val (if neg then - v else v))"

text \<open>The unsigned decimal \<open>int\<close>[\<open>.frac\<close>][\<open>e\<close> exponent], as its exact value.\<close>

fun split_digits :: "string \<Rightarrow> string \<times> string" where
  "split_digits [] = ([], [])"
| "split_digits (c # s) =
     (if is_ascii_digit c then (let (a, b) = split_digits s in (c # a, b)) else ([], c # s))"

definition parse_exponent :: "string \<Rightarrow> int option" where
  "parse_exponent s =
     (case s of
        [] \<Rightarrow> Some 0
      | c # r \<Rightarrow>
          if c = CHR ''e'' \<or> c = CHR ''E'' then
            (case r of
               sg # t \<Rightarrow>
                 if sg = CHR ''-'' then
                   (if all_digits t then Some (- int (digits_val t)) else None)
                 else if sg = CHR ''+'' then
                   (if all_digits t then Some (int (digits_val t)) else None)
                 else (if all_digits r then Some (int (digits_val r)) else None)
             | [] \<Rightarrow> None)
          else None)"

definition parse_decimal :: "string \<Rightarrow> rat option" where
  "parse_decimal s =
     (let (ip, r) = split_digits s;
          (fp, r') = (case r of c # t \<Rightarrow> if c = CHR ''.'' then split_digits t else ([], r)
                      | [] \<Rightarrow> ([], r))
      in if ip = [] \<and> fp = [] then None
         else map_option
           (\<lambda>x. of_nat (digits_val (ip @ fp)) * 10 powi (x - int (length fp)))
           (parse_exponent r'))"

definition parse_f64 :: "string \<Rightarrow> f64 option" where
  "parse_f64 s =
     (let (neg, r) = (case s of
              c # t \<Rightarrow> if c = CHR ''-'' then (True, t)
                       else if c = CHR ''+'' then (False, t) else (False, s)
            | [] \<Rightarrow> (False, s));
          l = to_ascii_lowercase r
      in if l = ''inf'' \<or> l = ''infinity'' then Some (F64_Inf neg)
         else if l = ''nan'' then Some F64_NaN
         else map_option (round_f64 neg) (parse_decimal r))"

lemma bitlen_le: "n < 2 ^ k \<Longrightarrow> bitlen n \<le> k"
proof (induction n arbitrary: k rule: bitlen.induct)
  case (1 n)
  show ?case
  proof (cases "n = 0")
    case True
    then show ?thesis by (simp add: bitlen.simps)
  next
    case False
    with 1(2) obtain j where j: "k = Suc j" by (cases k) auto
    with 1(2) have "n div 2 < 2 ^ j" by (simp add: div_less_iff_less_mult mult.commute)
    with 1(1) False j show ?thesis by (simp add: bitlen.simps [of n])
  qed
qed

lemma round_half_even_int [simp]: "round_half_even (of_int i) = i"
  by (simp add: round_half_even_def)

lemma ilog2_rat_int_le:
  assumes "n < 2 ^ 53"
  shows "ilog2_rat (of_nat n) \<le> 52"
proof -
  have "quotient_of (of_nat n :: rat) = (int n, 1)"
    using quotient_of_int [of "int n"] by simp
  moreover have "bitlen n \<le> 53" using assms by (rule bitlen_le)
  moreover have "bitlen 1 = 1" by (simp add: bitlen.simps)
  ultimately show ?thesis
    by (simp add: ilog2_rat_def Let_def)
qed

text \<open>Integers below \<open>2 ^ 53\<close> are represented exactly.\<close>

lemma round_f64_int:
  assumes "n < 2 ^ 53"
  shows "round_f64 neg (of_nat n) = F64_Val (if neg then - of_nat n else of_nat n)"
proof (cases "n = 0")
  case False
  define e where "e = max (- 1074) (ilog2_rat (of_nat n) - 52)"
  have "e \<le> 0" using ilog2_rat_int_le [OF assms] by (simp add: e_def)
  then obtain k where k: "e = - int k" by (metis int_nat_eq neg_0_le_iff_le nat_0_le minus_minus)
  have scaled: "of_nat n * 2 powi (- e) = (of_int (int n * 2 ^ k) :: rat)"
    by (simp add: k)
  have unscaled: "(of_int (int n * 2 ^ k) :: rat) * 2 powi e = of_nat n"
    by (simp add: k power_int_minus field_simps)
  have "(of_nat n :: rat) < 2 ^ 1024"
  proof -
    have "(of_nat n :: rat) < of_nat (2 ^ 53)" using assms by (simp only: of_nat_less_iff)
    also have "\<dots> \<le> 2 ^ 1024" by simp
    finally show ?thesis .
  qed
  then show ?thesis
    unfolding round_f64_def e_def [symmetric] Let_def scaled round_half_even_int unscaled
    using False by simp
qed (simp add: round_f64_def)

lemma split_digits_all: "list_all is_ascii_digit s \<Longrightarrow> split_digits s = (s, [])"
  by (induction s) auto

lemma parse_decimal_show: "parse_decimal (show_nat n) = Some (of_nat n)"
proof -
  have d: "all_digits (show_nat n)" by simp
  then have "split_digits (show_nat n) = (show_nat n, [])" "show_nat n \<noteq> []"
    by (auto simp: all_digits_def split_digits_all)
  then show ?thesis
    by (simp add: parse_decimal_def parse_exponent_def)
qed

lemma show_nat_not_word:
  "to_ascii_lowercase (show_nat n) \<noteq> x # y" if "\<not> is_ascii_digit x"
proof (rule show_nat_Cons [of n])
  fix c r
  assume c: "show_nat n = c # r" "is_ascii_digit c"
  then have "ascii_lower c = c" by (auto simp: is_ascii_digit_def ascii_lower_def Let_def)
  with c that show ?thesis by (auto simp: to_ascii_lowercase_def)
qed

lemma parse_f64_show_int:
  assumes "\<bar>i\<bar> < 2 ^ 53"
  shows "parse_f64 (show_int i) = Some (F64_Val (of_int i))"
proof -
  have words: "to_ascii_lowercase (show_nat m) \<notin> {''inf'', ''infinity'', ''nan''}" for m
    using show_nat_not_word [of "CHR ''i''"] show_nat_not_word [of "CHR ''n''"]
    by (auto simp: is_ascii_digit_def)
  have pos: "parse_f64 (show_nat m) = Some (F64_Val (of_nat m))" if "m < 2 ^ 53" for m
  proof (rule show_nat_Cons [of m])
    fix c r
    assume c: "show_nat m = c # r" "is_ascii_digit c"
    then have "c \<noteq> CHR ''+''" "c \<noteq> CHR ''-''" by (auto simp: is_ascii_digit_def)
    then show ?thesis
      using c words [of m] parse_decimal_show [of m] round_f64_int [OF that, of False]
      by (simp add: parse_f64_def)
  qed
  have neg: "parse_f64 (CHR ''-'' # show_nat m) = Some (F64_Val (- of_nat m))" if "m < 2 ^ 53" for m
    using words [of m] parse_decimal_show [of m] round_f64_int [OF that, of True]
    by (simp add: parse_f64_def)
  show ?thesis
  proof (cases "i < 0")
    case True
    with assms have "nat (- i) < 2 ^ 53" by (simp add: nat_less_iff)
    from neg [OF this] True show ?thesis by (simp add: show_int_def)
  next
    case False
    with assms have "nat i < 2 ^ 53" by (simp add: nat_less_iff)
    from pos [OF this] False show ?thesis by (simp add: show_int_def)
  qed
qed

end
