(* ===== verification/Json.thy ===== *)
theory Json
  imports Rust_Num
begin

text \<open>
  \<^verbatim>\<open>serde_json::Value\<close> as the modelled crates use it. The workspace builds \<^verbatim>\<open>serde_json\<close> with
  \<^verbatim>\<open>preserve_order\<close> (its lock entry depends on \<^verbatim>\<open>indexmap\<close>), so an object is an association list
  in insertion order. A number is a \<^verbatim>\<open>u64\<close>, a negative \<^verbatim>\<open>i64\<close> or a float; a float is kept as
  the text its \<^verbatim>\<open>Display\<close> prints, which determines it: it reads back as the same float. Parsing
  and printing whole documents belongs to \<^verbatim>\<open>serde_json\<close> and stays a parameter of the definitions
  that call it.
\<close>

datatype json_number = PosInt nat | NegInt int | FloatNum string

datatype json =
    JNull
  | JBool bool
  | JNum json_number
  | JStr string
  | JArr "json list"
  | JObj "(string \<times> json) list"

fun as_str :: "json \<Rightarrow> string option" where
  "as_str (JStr s) = Some s"
| "as_str _ = None"

fun as_bool :: "json \<Rightarrow> bool option" where
  "as_bool (JBool b) = Some b"
| "as_bool _ = None"

fun as_array :: "json \<Rightarrow> json list option" where
  "as_array (JArr xs) = Some xs"
| "as_array _ = None"

fun as_object :: "json \<Rightarrow> (string \<times> json) list option" where
  "as_object (JObj m) = Some m"
| "as_object _ = None"

fun as_i64 :: "json \<Rightarrow> int option" where
  "as_i64 (JNum (PosInt n)) = (if int n \<le> i64_max then Some (int n) else None)"
| "as_i64 (JNum (NegInt i)) = Some i"
| "as_i64 _ = None"

fun as_u64 :: "json \<Rightarrow> nat option" where
  "as_u64 (JNum (PosInt n)) = Some n"
| "as_u64 _ = None"

text \<open>\<^verbatim>\<open>v.get(k)\<close> and \<^verbatim>\<open>v[k]\<close>: the index form yields null where the key is absent.\<close>

definition json_get :: "json \<Rightarrow> string \<Rightarrow> json option" where
  "json_get v k = (case as_object v of Some m \<Rightarrow> map_of m k | None \<Rightarrow> None)"

definition json_index :: "json \<Rightarrow> string \<Rightarrow> json" where
  "json_index v k = (case json_get v k of Some x \<Rightarrow> x | None \<Rightarrow> JNull)"

text \<open>\<^verbatim>\<open>Map::insert\<close>: an existing key keeps its position.\<close>

fun jmap_insert :: "string \<Rightarrow> 'a \<Rightarrow> (string \<times> 'a) list \<Rightarrow> (string \<times> 'a) list" where
  "jmap_insert k v [] = [(k, v)]"
| "jmap_insert k v (e # m) = (if fst e = k then (k, v) # m else e # jmap_insert k v m)"

definition json_set :: "string \<Rightarrow> json \<Rightarrow> json \<Rightarrow> json" where
  "json_set k v j = (case j of JObj m \<Rightarrow> JObj (jmap_insert k v m) | _ \<Rightarrow> j)"

definition show_bool :: "bool \<Rightarrow> string" where
  "show_bool b = (if b then ''true'' else ''false'')"

fun show_number :: "json_number \<Rightarrow> string" where
  "show_number (PosInt n) = show_nat n"
| "show_number (NegInt i) = show_int i"
| "show_number (FloatNum s) = s"

lemma map_of_jmap_insert [simp]: "map_of (jmap_insert k v m) = (map_of m)(k \<mapsto> v)"
  by (induction m) (auto simp: fun_eq_iff)

lemma distinct_jmap_insert: "distinct (map fst m) \<Longrightarrow> distinct (map fst (jmap_insert k v m))"
proof (induction m)
  case (Cons e m)
  have "fst ` set (jmap_insert k v m) \<subseteq> insert k (fst ` set m)" by (induction m) auto
  then show ?case using Cons by (cases e) auto
qed simp

lemma json_index_set [simp]:
  "json_index (json_set k v (JObj m)) k' = (if k' = k then v else json_index (JObj m) k')"
  by (simp add: json_index_def json_get_def json_set_def)

lemma as_i64_range: "as_i64 j = Some i \<Longrightarrow> (\<forall>n. j = JNum (NegInt n) \<longrightarrow> i64_min \<le> n \<and> n \<le> i64_max)
    \<Longrightarrow> i64_min \<le> i \<and> i \<le> i64_max"
  by (cases j rule: as_i64.cases) (auto split: if_splits simp: i64_min_def)

end
