(* ===== verification/Net.thy ===== *)
theory Net
  imports Rust_Num "HOL-Library.Word"
begin

text \<open>
  Internet addresses as \<^verbatim>\<open>std::net\<close> reads and prints them. The policy engine prints the
  client address into the condition context and parses it back when it evaluates an \<^verbatim>\<open>IpAddress\<close>
  operator, so both directions matter; \<open>parse_show_v4\<close> is the round trip. An address is
  its big-endian integer, the value \<^verbatim>\<open>u32::from\<close> and \<^verbatim>\<open>u128::from\<close> give.
\<close>

unbundle bit_operations_syntax

datatype ip_addr = V4 "32 word" | V6 "128 word"

section \<open>Parsing\<close>

definition to_digit :: "nat \<Rightarrow> char \<Rightarrow> nat option" where
  "to_digit radix c =
     (let n = of_char c :: nat;
          d = (if 48 \<le> n \<and> n \<le> 57 then Some (n - 48)
               else if 97 \<le> n \<and> n \<le> 122 then Some (n - 87)
               else if 65 \<le> n \<and> n \<le> 90 then Some (n - 55)
               else None)
      in opt_filter (\<lambda>v. v < radix) d)"

text \<open>
  The digit loop of \<^verbatim>\<open>read_number\<close>: it stops at the first non-digit and fails when the value
  leaves the type (\<open>bound\<close>) or the digits exceed \<open>max_digits\<close>.
\<close>

fun read_digits :: "nat \<Rightarrow> nat \<Rightarrow> nat \<Rightarrow> nat \<Rightarrow> nat \<Rightarrow> string \<Rightarrow> (nat \<times> nat \<times> string) option" where
  "read_digits radix bound max_digits acc count [] = Some (acc, count, [])"
| "read_digits radix bound max_digits acc count (c # s) =
     (case to_digit radix c of
        None \<Rightarrow> Some (acc, count, c # s)
      | Some d \<Rightarrow>
          if bound \<le> acc * radix + d \<or> max_digits < count + 1 then None
          else read_digits radix bound max_digits (acc * radix + d) (count + 1) s)"

definition read_number :: "nat \<Rightarrow> nat \<Rightarrow> nat \<Rightarrow> bool \<Rightarrow> string \<Rightarrow> (nat \<times> string) option" where
  "read_number radix bound max_digits allow_zero_prefix s =
     (case read_digits radix bound max_digits 0 0 s of
        None \<Rightarrow> None
      | Some (v, n, r) \<Rightarrow>
          if n = 0 then None
          else if \<not> allow_zero_prefix \<and> starts_with s ''0'' \<and> 1 < n then None
          else Some (v, r))"

definition read_given_char :: "char \<Rightarrow> string \<Rightarrow> string option" where
  "read_given_char c s = strip_prefix s [c]"

definition read_separator :: "char \<Rightarrow> nat \<Rightarrow> (string \<Rightarrow> 'a option) \<Rightarrow> string \<Rightarrow> 'a option" where
  "read_separator sep index inner s =
     (if 0 < index then Option.bind (read_given_char sep s) inner else inner s)"

definition octets_to_word :: "nat \<Rightarrow> nat \<Rightarrow> nat \<Rightarrow> nat \<Rightarrow> 32 word" where
  "octets_to_word a b c d = of_nat (a * 2 ^ 24 + b * 2 ^ 16 + c * 2 ^ 8 + d)"

definition read_ipv4_addr :: "string \<Rightarrow> (32 word \<times> string) option" where
  "read_ipv4_addr s =
     (let octet = (\<lambda>i. read_separator (CHR ''.'') i (read_number 10 (2 ^ 8) 3 False))
      in case octet 0 s of
           None \<Rightarrow> None
         | Some (a, s1) \<Rightarrow>
       (case octet 1 s1 of
           None \<Rightarrow> None
         | Some (b, s2) \<Rightarrow>
       (case octet 2 s2 of
           None \<Rightarrow> None
         | Some (c, s3) \<Rightarrow>
       (case octet 3 s3 of
           None \<Rightarrow> None
         | Some (d, s4) \<Rightarrow> Some (octets_to_word a b c d, s4)))))"

text \<open>
  \<^verbatim>\<open>read_groups\<close>: up to \<open>left\<close> colon-separated 16-bit groups; where two groups are left an
  embedded dotted address is tried first and ends the run.
\<close>

fun read_groups :: "nat \<Rightarrow> nat \<Rightarrow> string \<Rightarrow> nat list \<times> bool \<times> string" where
  "read_groups 0 i s = ([], False, s)"
| "read_groups (Suc left) i s =
     (case (if 0 < left then read_separator (CHR '':'') i read_ipv4_addr s else None) of
        Some (w, r) \<Rightarrow> ([unat w div 2 ^ 16, unat w mod 2 ^ 16], True, r)
      | None \<Rightarrow>
          (case read_separator (CHR '':'') i (read_number 16 (2 ^ 16) 4 True) s of
             Some (g, r) \<Rightarrow> (let (gs, f, r') = read_groups left (Suc i) r in (g # gs, f, r'))
           | None \<Rightarrow> ([], False, s)))"

definition groups_to_word :: "nat list \<Rightarrow> 128 word" where
  "groups_to_word gs = of_nat (foldl (\<lambda>a g. a * 2 ^ 16 + g) 0 gs)"

definition read_ipv6_addr :: "string \<Rightarrow> (128 word \<times> string) option" where
  "read_ipv6_addr s =
     (let (head, head_ipv4, r) = read_groups 8 0 s
      in if length head = 8 then Some (groups_to_word head, r)
         else if head_ipv4 then None
         else
           (case Option.bind (read_given_char (CHR '':'') r) (read_given_char (CHR '':'')) of
              None \<Rightarrow> None
            | Some r2 \<Rightarrow>
                (let (tail, f, r3) = read_groups (8 - (length head + 1)) 0 r2
                 in Some (groups_to_word
                      (head @ replicate (8 - length head - length tail) 0 @ tail), r3))))"

text \<open>\<^verbatim>\<open>IpAddr::from_str\<close>: the whole input must be used.\<close>

definition parse_ip :: "string \<Rightarrow> ip_addr option" where
  "parse_ip s =
     (case (case read_ipv4_addr s of
              Some (w, r) \<Rightarrow> Some (V4 w, r)
            | None \<Rightarrow> map_option (\<lambda>(w, r). (V6 w, r)) (read_ipv6_addr s)) of
        Some (ip, r) \<Rightarrow> if r = [] then Some ip else None
      | None \<Rightarrow> None)"

section \<open>Printing\<close>

definition octet :: "32 word \<Rightarrow> nat \<Rightarrow> nat" where
  "octet w i = unat w div 2 ^ (24 - 8 * i) mod 2 ^ 8"

definition show_ipv4 :: "32 word \<Rightarrow> string" where
  "show_ipv4 w =
     show_nat (octet w 0) @ ''.'' @ show_nat (octet w 1) @ ''.'' @
     show_nat (octet w 2) @ ''.'' @ show_nat (octet w 3)"

definition hex_digit :: "nat \<Rightarrow> char" where
  "hex_digit n = (if n < 10 then char_of (48 + n) else char_of (87 + n))"

fun show_hex :: "nat \<Rightarrow> string" where
  "show_hex n = (if n < 16 then [hex_digit n] else show_hex (n div 16) @ [hex_digit (n mod 16)])"

declare show_hex.simps [simp del]

definition segments :: "128 word \<Rightarrow> nat list" where
  "segments w = map (\<lambda>i. unat w div 2 ^ (112 - 16 * i) mod 2 ^ 16) [0..<8]"

text \<open>The longest run of zero groups, the first one among equals: (start, length).\<close>

fun zero_span :: "nat \<Rightarrow> nat \<times> nat \<Rightarrow> nat \<times> nat \<Rightarrow> nat list \<Rightarrow> nat \<times> nat" where
  "zero_span i cur longest [] = longest"
| "zero_span i cur longest (g # gs) =
     (if g = 0 then
        (let cur' = (if snd cur = 0 then (i, 1) else (fst cur, snd cur + 1))
         in zero_span (Suc i) cur' (if snd longest < snd cur' then cur' else longest) gs)
      else zero_span (Suc i) (0, 0) longest gs)"

definition show_ipv6 :: "128 word \<Rightarrow> string" where
  "show_ipv6 w =
     (let seg = segments w
      in if take 5 seg = replicate 5 0 \<and> seg ! 5 = 65535
         then ''::ffff:'' @ show_ipv4 (of_nat (unat w mod 2 ^ 32))
         else
           (let (start, len) = zero_span 0 (0, 0) (0, 0) seg; groups = join_with '':''
            in if 1 < len
               then groups (map show_hex (take start seg)) @ ''::'' @
                    groups (map show_hex (drop (start + len) seg))
               else groups (map show_hex seg)))"

fun show_ip :: "ip_addr \<Rightarrow> string" where
  "show_ip (V4 w) = show_ipv4 w"
| "show_ip (V6 w) = show_ipv6 w"

section \<open>Round trip of dotted addresses\<close>

lemma to_digit_decimal: "d < 10 \<Longrightarrow> to_digit 10 (char_of (48 + d)) = Some d"
  by (simp add: to_digit_def)

definition no_digit_next :: "string \<Rightarrow> bool" where
  "no_digit_next r \<longleftrightarrow> (case r of [] \<Rightarrow> True | c # _ \<Rightarrow> to_digit 10 c = None)"

lemma read_digits_stop:
  "no_digit_next r \<Longrightarrow> read_digits 10 b m acc n r = Some (acc, n, r)"
  by (cases r) (auto simp: no_digit_next_def)

lemma char_of_zero_digit: "char_of (48 + d) = CHR ''0'' \<longleftrightarrow> d = 0" if "d < 10" for d :: nat
proof
  assume "char_of (48 + d) = CHR ''0''"
  then have "(of_char (char_of (48 + d) :: char) :: nat) = of_char (CHR ''0'')" by simp
  with that show "d = 0" by simp
next
  have "char_of (48 :: nat) = CHR ''0''" by code_simp
  then show "d = 0 \<Longrightarrow> char_of (48 + d) = CHR ''0''" by simp
qed

lemma read_number_digits3:
  assumes "a < 10" "b < 10" "c < 10" "a \<noteq> 0" "(a * 10 + b) * 10 + c < 256" "no_digit_next r"
  shows "read_number 10 (2 ^ 8) 3 False (char_of (48 + a) # char_of (48 + b) # char_of (48 + c) # r) =
    Some ((a * 10 + b) * 10 + c, r)"
  using assms
  by (simp add: read_number_def to_digit_decimal read_digits_stop starts_with_def char_of_zero_digit)

lemma show_nat_3:
  assumes "100 \<le> n" "n < 1000"
  shows "show_nat n = [char_of (48 + n div 100), char_of (48 + n div 10 mod 10), char_of (48 + n mod 10)]"
proof -
  have "n div 10 div 10 < 10" "\<not> n div 10 < 10" "\<not> n < 10" "n div 10 div 10 = n div 100"
    using assms by (auto simp: div_mult2_eq [symmetric])
  then show ?thesis
    by (simp add: show_nat.simps [of n] show_nat.simps [of "n div 10"] show_nat.simps [of "n div 100"])
qed

lemma read_number_octet:
  assumes "n < 256" "no_digit_next r"
  shows "read_number 10 (2 ^ 8) 3 False (show_nat n @ r) = Some (n, r)"
proof -
  consider "n < 10" | "10 \<le> n" "n < 100" | "100 \<le> n" by linarith
  then show ?thesis
  proof cases
    case 1
    then show ?thesis
      using assms(2)
      by (simp add: show_nat.simps read_number_def to_digit_decimal read_digits_stop)
  next
    case 2
    then have "n div 10 < 10" "n div 10 \<noteq> 0" "n mod 10 < 10" by auto
    with 2 assms show ?thesis
      by (simp add: show_nat.simps [of n] show_nat.simps [of "n div 10"] read_number_def
          to_digit_decimal read_digits_stop starts_with_def char_of_zero_digit)
  next
    case 3
    have q: "n div 100 < 10" "n div 10 mod 10 < 10" "n mod 10 < 10" "n div 100 \<noteq> 0"
      using 3 assms(1) by (simp_all add: div_eq_0_iff)
    have n: "(n div 100 * 10 + n div 10 mod 10) * 10 + n mod 10 = n"
      using div_mult2_eq [of n 10 10] div_mult_mod_eq [of n 10] div_mult_mod_eq [of "n div 10" 10]
      by simp
    from read_number_digits3 [OF q, of r] n assms 3 show ?thesis by (simp add: show_nat_3)
  qed
qed

lemma base_256_digits:
  fixes u :: nat
  assumes "u < 4294967296"
  shows "u div 16777216 mod 256 * 16777216 + u div 65536 mod 256 * 65536 + u div 256 mod 256 * 256 +
    u mod 256 = u"
proof -
  have top: "u div 16777216 mod 256 = u div 16777216" using assms by simp
  have "u div 65536 = u div 256 div 256" "u div 16777216 = u div 65536 div 256"
    using div_mult2_eq [of u 256 256] div_mult2_eq [of u 65536 256] by simp_all
  then have "u div 256 = u div 65536 * 256 + u div 256 mod 256"
    "u div 65536 = u div 16777216 * 256 + u div 65536 mod 256"
    "u = u div 256 * 256 + u mod 256"
    using div_mult_mod_eq [of "u div 256" 256] div_mult_mod_eq [of "u div 65536" 256]
      div_mult_mod_eq [of u 256] by presburger+
  then show ?thesis unfolding top by linarith
qed

lemma octets_of_word: "octets_to_word (octet w 0) (octet w 1) (octet w 2) (octet w 3) = w"
proof -
  have "unat w < 4294967296" using unsigned_less [of w] by simp
  then have eq: "octet w 0 * 2 ^ 24 + octet w 1 * 2 ^ 16 + octet w 2 * 2 ^ 8 + octet w 3 = unat w"
    using base_256_digits [of "unat w"] by (simp add: octet_def)
  show ?thesis unfolding octets_to_word_def eq by simp
qed

lemma no_digit_next_dot: "no_digit_next (CHR ''.'' # r)" "no_digit_next []"
  by (simp_all add: no_digit_next_def to_digit_def)

lemma parse_show_v4: "parse_ip (show_ip (V4 w)) = Some (V4 w)"
proof -
  have lt: "octet w i < 256" for i by (simp add: octet_def)
  show ?thesis
    using octets_of_word [of w]
      read_number_octet [OF lt [of 3] no_digit_next_dot(2)]
    by (simp add: parse_ip_def show_ipv4_def read_ipv4_addr_def read_separator_def
        read_given_char_def strip_prefix_def starts_with_def read_number_octet lt no_digit_next_dot
        del: power_numeral numeral_power_eq_of_nat_cancel_iff)
qed

end
