(* ===== verification/Utf8.thy ===== *)
theory Utf8
  imports Prelude
begin

text \<open>
  Code points of a Rust string. \<^verbatim>\<open>s.chars()\<close> decodes the UTF-8 bytes into Unicode scalar
  values; \<open>chars\<close> is that decoder and \<open>encode_str\<close> the inverse that \<^verbatim>\<open>collect::<String>()\<close>
  performs. A Rust string is always well-formed, which is \<open>utf8_wf\<close>; on other byte lists the
  decoder's value is irrelevant. \<open>trim\<close> is \<^verbatim>\<open>str::trim\<close>, which strips the code points with the
  Unicode property White\_Space at both ends.
\<close>

fun utf8_decode :: "nat list \<Rightarrow> nat list" where
  "utf8_decode [] = []"
| "utf8_decode (b0 # bs) =
     (if b0 < 128 then b0 # utf8_decode bs
      else if b0 < 224 then
        (case bs of b1 # r \<Rightarrow> (b0 mod 32 * 64 + b1 mod 64) # utf8_decode r | _ \<Rightarrow> [])
      else if b0 < 240 then
        (case bs of b1 # b2 # r \<Rightarrow>
           (b0 mod 16 * 4096 + b1 mod 64 * 64 + b2 mod 64) # utf8_decode r | _ \<Rightarrow> [])
      else
        (case bs of b1 # b2 # b3 # r \<Rightarrow>
           (b0 mod 8 * 262144 + b1 mod 64 * 4096 + b2 mod 64 * 64 + b3 mod 64) # utf8_decode r
         | _ \<Rightarrow> []))"

definition chars :: "string \<Rightarrow> nat list" where
  "chars s = utf8_decode (map of_char s)"

definition encode_cp :: "nat \<Rightarrow> nat list" where
  "encode_cp c =
     (if c < 128 then [c]
      else if c < 2048 then [192 + c div 64, 128 + c mod 64]
      else if c < 65536 then [224 + c div 4096, 128 + c div 64 mod 64, 128 + c mod 64]
      else [240 + c div 262144, 128 + c div 4096 mod 64, 128 + c div 64 mod 64, 128 + c mod 64])"

definition encode_str :: "nat list \<Rightarrow> string" where
  "encode_str cs = map char_of (concat (map encode_cp cs))"

definition is_scalar :: "nat \<Rightarrow> bool" where
  "is_scalar c \<longleftrightarrow> c < 1114112"

definition utf8_wf :: "string \<Rightarrow> bool" where
  "utf8_wf s \<longleftrightarrow> (\<exists>cs. list_all is_scalar cs \<and> s = encode_str cs)"

definition is_whitespace :: "nat \<Rightarrow> bool" where
  "is_whitespace c \<longleftrightarrow>
     9 \<le> c \<and> c \<le> 13 \<or> c = 32 \<or> c = 133 \<or> c = 160 \<or> c = 5760 \<or> 8192 \<le> c \<and> c \<le> 8202 \<or>
     c = 8232 \<or> c = 8233 \<or> c = 8239 \<or> c = 8287 \<or> c = 12288"

definition trim :: "string \<Rightarrow> string" where
  "trim s = encode_str (rev (dropWhile is_whitespace (rev (dropWhile is_whitespace (chars s)))))"

lemma base64_digits3: "c div 4096 * 4096 + c div 64 mod 64 * 64 + c mod 64 = (c::nat)"
proof -
  have "c div 4096 = c div 64 div 64" by (simp add: div_mult2_eq [symmetric])
  with div_mult_mod_eq [of c 64] div_mult_mod_eq [of "c div 64" 64] show ?thesis by linarith
qed

lemma base64_digits4:
  "c div 262144 * 262144 + c div 4096 mod 64 * 4096 + c div 64 mod 64 * 64 + c mod 64 = (c::nat)"
proof -
  have "c div 262144 = c div 4096 div 64" by (simp add: div_mult2_eq [symmetric])
  with div_mult_mod_eq [of "c div 4096" 64] base64_digits3 [of c] show ?thesis by linarith
qed

lemma continuation_byte: "(128 + x mod 64) mod 64 = x mod (64::nat)"
  using mod_add_left_eq [of 128 64 "x mod 64"] by simp

lemma utf8_decode_encode_cp:
  assumes "is_scalar c"
  shows "utf8_decode (encode_cp c @ bs) = c # utf8_decode bs"
proof -
  consider "c < 128" | "128 \<le> c" "c < 2048" | "2048 \<le> c" "c < 65536" | "65536 \<le> c"
    by linarith
  then show ?thesis
  proof cases
    case 1
    then show ?thesis by (simp add: encode_cp_def)
  next
    case 2
    then have "c div 64 < 32" by simp
    then have "(192 + c div 64) mod 32 = c div 64" using mod_add_left_eq [of 192 32 "c div 64"] by simp
    with 2 \<open>c div 64 < 32\<close> show ?thesis by (simp add: encode_cp_def continuation_byte div_mult_mod_eq)
  next
    case 3
    then have lt: "c div 4096 < 16" by simp
    then have "(224 + c div 4096) mod 16 = c div 4096"
      using mod_add_left_eq [of 224 16 "c div 4096"] by simp
    then show ?thesis using 3 lt base64_digits3 [of c] by (simp add: encode_cp_def continuation_byte)
  next
    case 4
    with assms have lt: "c div 262144 < 8" by (simp add: is_scalar_def)
    then have "(240 + c div 262144) mod 8 = c div 262144"
      using mod_add_left_eq [of 240 8 "c div 262144"] by simp
    then show ?thesis using 4 base64_digits4 [of c] by (simp add: encode_cp_def continuation_byte)
  qed
qed

lemma encode_cp_bytes:
  assumes "is_scalar c" "b \<in> set (encode_cp c)"
  shows "b < 256"
proof -
  have m: "128 + x mod 64 < 256" for x :: nat
    using mod_less_divisor [of 64 x] by linarith
  have "c div 64 < 64" if "c < 2048" using that by (simp add: div_less_iff_less_mult)
  moreover have "c div 4096 < 16" if "c < 65536" using that by (simp add: div_less_iff_less_mult)
  moreover have "c div 262144 < 8" using assms(1) by (simp add: is_scalar_def div_less_iff_less_mult)
  ultimately show ?thesis
    using assms(2) m by (auto simp: encode_cp_def split: if_splits)
qed

lemma utf8_decode_concat:
  "list_all is_scalar cs \<Longrightarrow> utf8_decode (concat (map encode_cp cs)) = cs"
  by (induction cs) (auto simp: utf8_decode_encode_cp)

lemma map_of_char_encode_str:
  assumes "list_all is_scalar cs"
  shows "map of_char (encode_str cs) = concat (map encode_cp cs)"
proof -
  have "of_char (char_of b) = b" if "b \<in> set (concat (map encode_cp cs))" for b :: nat
    using that assms encode_cp_bytes by (auto simp: list_all_iff)
  then show ?thesis
    by (auto simp: encode_str_def comp_def intro!: map_idI)
qed

text \<open>Decoding inverts encoding, so on well-formed strings the two are mutually inverse.\<close>

lemma chars_encode_str [simp]: "list_all is_scalar cs \<Longrightarrow> chars (encode_str cs) = cs"
  by (simp add: chars_def map_of_char_encode_str utf8_decode_concat)

lemma encode_chars: "utf8_wf s \<Longrightarrow> encode_str (chars s) = s"
  by (auto simp: utf8_wf_def)

lemma chars_inject: "utf8_wf s \<Longrightarrow> utf8_wf t \<Longrightarrow> chars s = chars t \<longleftrightarrow> s = t"
  by (metis encode_chars)

lemma chars_scalar: "utf8_wf s \<Longrightarrow> list_all is_scalar (chars s)"
  by (auto simp: utf8_wf_def)

text \<open>On ASCII strings the code points are the bytes.\<close>

definition is_ascii_str :: "string \<Rightarrow> bool" where
  "is_ascii_str s \<longleftrightarrow> list_all (\<lambda>c. (of_char c :: nat) < 128) s"

lemma chars_ascii: "is_ascii_str s \<Longrightarrow> chars s = map of_char s"
  by (induction s) (auto simp: is_ascii_str_def chars_def)

lemma chars_ascii_Cons: "(of_char c :: nat) < 128 \<Longrightarrow> chars (c # s) = of_char c # chars s"
  by (simp add: chars_def)

lemma chars_Nil [simp]: "chars [] = []"
  by (simp add: chars_def)

lemma encode_str_ascii: "is_ascii_str s \<Longrightarrow> encode_str (map of_char s) = s"
  by (induction s) (auto simp: is_ascii_str_def encode_str_def encode_cp_def)

lemma is_ascii_utf8_wf: "is_ascii_str s \<Longrightarrow> utf8_wf s"
  unfolding utf8_wf_def
  by (intro exI [of _ "map of_char s"])
    (auto simp: encode_str_ascii is_ascii_str_def list_all_iff is_scalar_def)

lemma utf8_decode_lower:
  "utf8_decode (map (\<lambda>b. if 65 \<le> b \<and> b \<le> 90 then b + 32 else b) (encode_cp c @ bs)) =
   (if 65 \<le> c \<and> c \<le> 90 then c + 32 else c) #
     utf8_decode (map (\<lambda>b. if 65 \<le> b \<and> b \<le> 90 then b + 32 else b) bs)"
  if "is_scalar c"
proof (cases "c < 128")
  case True
  then show ?thesis by (auto simp: encode_cp_def)
next
  case False
  have "map (\<lambda>b. if 65 \<le> b \<and> b \<le> 90 then b + 32 else b) (encode_cp c) = encode_cp c"
    using False by (auto simp: encode_cp_def)
  then show ?thesis
    using False utf8_decode_encode_cp [OF that] by (simp add: comp_def)
qed

lemma of_char_ascii_lower:
  "(of_char (ascii_lower c) :: nat) =
     (let n = of_char c in if 65 \<le> n \<and> n \<le> 90 then n + 32 else n)"
  by (auto simp: ascii_lower_def Let_def)

text \<open>ASCII folding acts on code points as it acts on bytes.\<close>

lemma chars_to_ascii_lowercase:
  assumes "utf8_wf s"
  shows "chars (to_ascii_lowercase s) =
    map (\<lambda>c. if 65 \<le> c \<and> c \<le> 90 then c + 32 else c) (chars s)"
proof -
  let ?f = "\<lambda>b::nat. if 65 \<le> b \<and> b \<le> 90 then b + 32 else b"
  obtain cs where cs: "list_all is_scalar cs" "s = encode_str cs"
    using assms by (auto simp: utf8_wf_def)
  have low: "chars (to_ascii_lowercase s) = utf8_decode (map ?f (map of_char s))"
    by (simp add: chars_def to_ascii_lowercase_def comp_def of_char_ascii_lower Let_def)
  have "utf8_decode (map ?f (concat (map encode_cp cs))) = map ?f cs"
    using cs(1)
  proof (induction cs)
    case (Cons c cs)
    then show ?case
      using utf8_decode_lower [of c "concat (map encode_cp cs)"] by simp
  qed simp
  then show ?thesis
    using cs low by (simp add: map_of_char_encode_str)
qed

end
