(* ===== verification/Auth_Context.thy ===== *)
theory Auth_Context
  imports Json Net Utf8
begin

text \<open>
  Callers and request contexts (\<^verbatim>\<open>fakecloud-core/src/auth.rs\<close>): who makes a request, which action
  is asked for, and the condition keys a policy can test.

  \<^verbatim>\<open>chrono\<close> is an external crate: the three operations the policy engine uses are the fields of
  \<open>chrono\<close>, passed to whatever needs them. An instant is its integer number of nanoseconds.
  A \<^verbatim>\<open>HashMap\<close> of tags is an association list in the map's iteration order.

  \<open>lookup_same_key\<close> shows that the spelling of a condition key's name does not matter, while the
  tag key after the slash is compared exactly.
\<close>

section \<open>Principals\<close>

datatype principal_type = User | AssumedRole | FederatedUser | Root | Unknown | Service

fun principal_type_as_str :: "principal_type \<Rightarrow> string" where
  "principal_type_as_str User = ''user''"
| "principal_type_as_str AssumedRole = ''assumed-role''"
| "principal_type_as_str FederatedUser = ''federated-user''"
| "principal_type_as_str Root = ''root''"
| "principal_type_as_str Unknown = ''unknown''"
| "principal_type_as_str Service = ''service''"

definition from_arn :: "string \<Rightarrow> principal_type" where
  "from_arn arn =
     (if ends_with arn '':root'' then Root
      else if contains_str arn '':user/'' then User
      else if contains_str arn '':assumed-role/'' then AssumedRole
      else if contains_str arn '':federated-user/'' then FederatedUser
      else Unknown)"

record principal =
  p_arn :: string
  p_user_id :: string
  p_account_id :: string
  p_type :: principal_type
  p_source_identity :: "string option"
  p_tags :: "string smap option"

definition is_root :: "principal \<Rightarrow> bool" where
  "is_root p \<longleftrightarrow> p_type p = Root \<or> ends_with (p_arn p) '':root''"

section \<open>Actions and decisions\<close>

record iam_action =
  ia_service :: string
  ia_action :: string
  ia_resource :: string

definition action_string :: "iam_action \<Rightarrow> string" where
  "action_string a = ia_service a @ '':'' @ ia_action a"

definition pass_role :: "string \<Rightarrow> iam_action" where
  "pass_role role_arn = \<lparr>ia_service = ''iam'', ia_action = ''PassRole'', ia_resource = role_arn\<rparr>"

definition is_pass_role :: "iam_action \<Rightarrow> bool" where
  "is_pass_role a \<longleftrightarrow> ia_service a = ''iam'' \<and> ia_action a = ''PassRole''"

definition pass_role_condition_keys :: "string \<Rightarrow> string option \<Rightarrow> string list smap" where
  "pass_role_condition_keys passed_to_service associated =
     (let out = bt_insert ''iam:passedtoservice'' [passed_to_service] []
      in case opt_filter (\<lambda>a. a \<noteq> [] \<and> a \<noteq> ''*'') associated of
           Some a \<Rightarrow> bt_insert ''iam:associatedresourcearn'' [a] out
         | None \<Rightarrow> out)"

datatype iam_decision = IamAllow | IamImplicitDeny | IamExplicitDeny

definition is_allow :: "iam_decision \<Rightarrow> bool" where
  "is_allow d \<longleftrightarrow> d = IamAllow"

section \<open>Requests fakecloud issues itself\<close>

text \<open>
  \<^verbatim>\<open>Service { service, source_arn, source_account }\<close> and
  \<^verbatim>\<open>ServiceOwned { arn, canonical_user_id, acting_account }\<close>, fields in that order.
\<close>

datatype internal_caller =
    CallerService string string string
  | ServiceOwned string "string option" string

fun caller_principal :: "internal_caller \<Rightarrow> principal" where
  "caller_principal (CallerService svc src acct) =
     \<lparr>p_arn = svc, p_user_id = svc, p_account_id = [], p_type = Service, p_source_identity = None,
      p_tags = None\<rparr>"
| "caller_principal (ServiceOwned a canonical acting) =
     \<lparr>p_arn = a, p_user_id = unwrap_or canonical [], p_account_id = [], p_type = from_arn a,
      p_source_identity = None, p_tags = None\<rparr>"

fun acting_account :: "internal_caller \<Rightarrow> string" where
  "acting_account (CallerService svc src acct) = acct"
| "acting_account (ServiceOwned a canonical acting) = acting"

fun caller_condition_keys :: "internal_caller \<Rightarrow> string list smap" where
  "caller_condition_keys (CallerService svc src acct) =
     bt_insert ''aws:PrincipalIsAWSService'' [''true'']
       (bt_insert ''aws:PrincipalServiceName'' [svc]
         (bt_insert ''aws:SourceAccount'' [acct]
           (bt_insert ''aws:SourceArn'' [src] [])))"
| "caller_condition_keys (ServiceOwned a canonical acting) =
     bt_insert ''aws:PrincipalIsAWSService'' [''false''] []"

section \<open>Enforcement modes\<close>

datatype iam_mode = ModeOff | ModeSoft | ModeStrict

definition mode_is_enabled :: "iam_mode \<Rightarrow> bool" where
  "mode_is_enabled m \<longleftrightarrow> m \<noteq> ModeOff"

definition mode_is_strict :: "iam_mode \<Rightarrow> bool" where
  "mode_is_strict m \<longleftrightarrow> m = ModeStrict"

fun mode_as_str :: "iam_mode \<Rightarrow> string" where
  "mode_as_str ModeOff = ''off''"
| "mode_as_str ModeSoft = ''soft''"
| "mode_as_str ModeStrict = ''strict''"

definition mode_from_str :: "string \<Rightarrow> string + iam_mode" where
  "mode_from_str s =
     (let t = to_ascii_lowercase (trim s)
      in if t \<in> {''off'', ''none'', ''disabled''} then Inr ModeOff
         else if t \<in> {''soft'', ''audit'', ''warn''} then Inr ModeSoft
         else if t \<in> {''strict'', ''enforce'', ''deny''} then Inr ModeStrict
         else Inl t)"

text \<open>
  \<^verbatim>\<open>get(..4)\<close> is \<^verbatim>\<open>None\<close> when the string is shorter or byte 4 is inside a character, that is, a
  continuation byte.
\<close>

definition is_char_boundary :: "string \<Rightarrow> nat \<Rightarrow> bool" where
  "is_char_boundary s i \<longleftrightarrow>
     i = length s \<or> i < length s \<and> \<not> (128 \<le> (of_char (s ! i) :: nat) \<and> (of_char (s ! i) :: nat) < 192)"

definition is_root_bypass :: "string \<Rightarrow> bool" where
  "is_root_bypass access_key_id =
     (let t = trim access_key_id
      in is_char_boundary t 4 \<and> eq_ignore_ascii_case (take 4 t) ''test'')"

section \<open>The condition context\<close>

record chrono =
  fmt_secs :: "int \<Rightarrow> string"
  parse_rfc3339 :: "string \<Rightarrow> int option"
  from_timestamp :: "int \<Rightarrow> int option"

record condition_context =
  aws_username :: "string option"
  aws_userid :: "string option"
  aws_principal_arn :: "string option"
  aws_principal_account :: "string option"
  aws_principal_type :: "string option"
  aws_source_ip :: "ip_addr option"
  aws_current_time :: "int option"
  aws_epoch_time :: "int option"
  aws_secure_transport :: "bool option"
  aws_requested_region :: "string option"
  aws_mfa_present :: "bool option"
  aws_mfa_age_seconds :: "int option"
  aws_called_via :: "string list"
  aws_source_vpce :: "string option"
  aws_source_vpc :: "string option"
  aws_vpc_source_ip :: "ip_addr option"
  aws_federated_provider :: "string option"
  aws_token_issue_time :: "int option"
  service_keys :: "string list smap"
  resource_tags :: "string smap option"
  request_tags :: "string smap option"
  principal_tags :: "string smap option"

definition default_context :: condition_context where
  "default_context =
     \<lparr>aws_username = None, aws_userid = None, aws_principal_arn = None, aws_principal_account = None,
      aws_principal_type = None, aws_source_ip = None, aws_current_time = None,
      aws_epoch_time = None, aws_secure_transport = None, aws_requested_region = None,
      aws_mfa_present = None, aws_mfa_age_seconds = None, aws_called_via = [],
      aws_source_vpce = None, aws_source_vpc = None, aws_vpc_source_ip = None,
      aws_federated_provider = None, aws_token_issue_time = None, service_keys = [],
      resource_tags = None, request_tags = None, principal_tags = None\<rparr>"

definition split_key :: "string \<Rightarrow> string \<times> string" where
  "split_key k = (case find_str k ''/'' of Some i \<Rightarrow> (take i k, drop i k) | None \<Rightarrow> (k, []))"

definition same_condition_key :: "string \<Rightarrow> string \<Rightarrow> bool" where
  "same_condition_key a b =
     (let (a_name, a_tail) = split_key a; (b_name, b_tail) = split_key b
      in eq_ignore_ascii_case a_name b_name \<and> a_tail = b_tail)"

definition one_value :: "string option \<Rightarrow> string list option" where
  "one_value v = map_option (\<lambda>s. [s]) v"

text \<open>The tag-based keys: \<open>None\<close> when the key is not one of them.\<close>

definition tagged_value :: "condition_context \<Rightarrow> string \<Rightarrow> string list option option" where
  "tagged_value c key =
     (let lower = to_ascii_lowercase key;
          tag = (\<lambda>ts n. map_option (\<lambda>v. [v]) (Option.bind ts (\<lambda>m. map_of m (drop n key))))
      in if starts_with lower ''aws:resourcetag/'' then Some (tag (resource_tags c) 16)
         else if starts_with lower ''aws:requesttag/'' then Some (tag (request_tags c) 15)
         else if starts_with lower ''aws:principaltag/'' then Some (tag (principal_tags c) 17)
         else if lower = ''aws:tagkeys'' then Some (map_option (map fst) (request_tags c))
         else None)"

definition typed_value :: "chrono \<Rightarrow> condition_context \<Rightarrow> string \<Rightarrow> string list option" where
  "typed_value ch c lower =
     (if lower = ''aws:username'' then one_value (aws_username c)
      else if lower = ''aws:userid'' then one_value (aws_userid c)
      else if lower = ''aws:principalarn'' then one_value (aws_principal_arn c)
      else if lower = ''aws:principalaccount'' then one_value (aws_principal_account c)
      else if lower = ''aws:principaltype'' then one_value (aws_principal_type c)
      else if lower = ''aws:sourceip'' then one_value (map_option show_ip (aws_source_ip c))
      else if lower = ''aws:currenttime'' then one_value (map_option (fmt_secs ch) (aws_current_time c))
      else if lower = ''aws:epochtime'' then one_value (map_option show_int (aws_epoch_time c))
      else if lower = ''aws:securetransport'' then one_value (map_option show_bool (aws_secure_transport c))
      else if lower = ''aws:requestedregion'' then one_value (aws_requested_region c)
      else if lower = ''aws:multifactorauthpresent'' then one_value (map_option show_bool (aws_mfa_present c))
      else if lower = ''aws:multifactorauthage'' then one_value (map_option show_int (aws_mfa_age_seconds c))
      else if lower = ''aws:calledvia'' then (if aws_called_via c = [] then None else Some (aws_called_via c))
      else if lower = ''aws:sourcevpce'' then one_value (aws_source_vpce c)
      else if lower = ''aws:sourcevpc'' then one_value (aws_source_vpc c)
      else if lower = ''aws:vpcsourceip'' then one_value (map_option show_ip (aws_vpc_source_ip c))
      else if lower = ''aws:federatedprovider'' then one_value (aws_federated_provider c)
      else if lower = ''aws:tokenissuetime'' then one_value (map_option (fmt_secs ch) (aws_token_issue_time c))
      else None)"

definition lookup :: "chrono \<Rightarrow> condition_context \<Rightarrow> string \<Rightarrow> string list option" where
  "lookup ch c key =
     (let lower = to_ascii_lowercase key
      in case tagged_value c key of
           Some tagged \<Rightarrow>
             opt_or tagged (map_option snd (find (\<lambda>(entry, vs). same_condition_key entry key) (service_keys c)))
         | None \<Rightarrow>
             opt_or (typed_value ch c lower)
               (opt_or (map_of (service_keys c) lower)
                 (map_option snd (find (\<lambda>(k, vs). eq_ignore_ascii_case k key) (service_keys c)))))"

section \<open>Composite resource policy providers\<close>

text \<open>A \<^verbatim>\<open>ResourcePolicyProvider\<close> is its three methods.\<close>

record resource_policy_provider =
  rpp_policy :: "string \<Rightarrow> string \<Rightarrow> string option"
  rpp_owner_account :: "string \<Rightarrow> string \<Rightarrow> string option"
  rpp_public_acl :: "string \<Rightarrow> string \<Rightarrow> string \<Rightarrow> bool"

fun find_map :: "('a \<Rightarrow> 'b option) \<Rightarrow> 'a list \<Rightarrow> 'b option" where
  "find_map f [] = None"
| "find_map f (x # xs) = (case f x of Some y \<Rightarrow> Some y | None \<Rightarrow> find_map f xs)"

definition multi_provider :: "resource_policy_provider list \<Rightarrow> resource_policy_provider" where
  "multi_provider providers =
     \<lparr>rpp_policy = (\<lambda>svc a. find_map (\<lambda>p. rpp_policy p svc a) providers),
      rpp_owner_account = (\<lambda>svc a. find_map (\<lambda>p. rpp_owner_account p svc a) providers),
      rpp_public_acl = (\<lambda>svc a act. list_ex (\<lambda>p. rpp_public_acl p svc a act) providers)\<rparr>"

section \<open>Key names\<close>

lemma split_key_eq: "split_key k = (takeWhile (\<lambda>c. c \<noteq> CHR ''/'') k, dropWhile (\<lambda>c. c \<noteq> CHR ''/'') k)"
proof -
  have "case find_str k ''/'' of
      Some i \<Rightarrow> take i k = takeWhile (\<lambda>c. c \<noteq> CHR ''/'') k \<and> drop i k = dropWhile (\<lambda>c. c \<noteq> CHR ''/'') k
    | None \<Rightarrow> takeWhile (\<lambda>c. c \<noteq> CHR ''/'') k = k \<and> dropWhile (\<lambda>c. c \<noteq> CHR ''/'') k = []"
    by (induction k) (auto simp: starts_with_def split: option.splits)
  then show ?thesis by (cases "find_str k ''/''") (simp_all add: split_key_def eq_commute [of k] eq_commute [of "[]"])
qed

lemma same_condition_key_refl: "same_condition_key k k"
  by (simp add: same_condition_key_def split: prod.splits)

lemma same_condition_key_lower:
  assumes "same_condition_key a b"
  shows "to_ascii_lowercase a = to_ascii_lowercase b"
proof -
  let ?p = "\<lambda>c. c \<noteq> CHR ''/''"
  have "to_ascii_lowercase (takeWhile ?p a @ dropWhile ?p a) =
      to_ascii_lowercase (takeWhile ?p b @ dropWhile ?p b)"
    using assms unfolding to_ascii_lowercase_append
    by (simp add: same_condition_key_def eq_ignore_ascii_case_def split_key_eq)
  then show ?thesis by simp
qed

lemma same_condition_key_entry:
  "same_condition_key a b \<Longrightarrow> same_condition_key e a = same_condition_key e b"
  by (auto simp: same_condition_key_def eq_ignore_ascii_case_def split_key_eq)

lemma ascii_lower_slash: "ascii_lower c = CHR ''/'' \<longleftrightarrow> c = CHR ''/''"
proof
  assume "ascii_lower c = CHR ''/''"
  then have "(of_char (ascii_lower c) :: nat) = 47" by simp
  then have "(of_char c :: nat) = of_char (CHR ''/'')"
    by (auto simp: ascii_lower_def Let_def split: if_splits)
  then show "c = CHR ''/''" by (simp only: of_char_eq_iff)
qed (simp add: ascii_lower_def)

lemma drop_tag_prefix:
  "starts_with (to_ascii_lowercase k) (p @ ''/'') \<Longrightarrow> CHR ''/'' \<notin> set p \<Longrightarrow>
   drop (Suc (length p)) k = tl (dropWhile (\<lambda>c. c \<noteq> CHR ''/'') k)"
proof (induction p arbitrary: k)
  case Nil
  then show ?case
    by (cases k) (auto simp: starts_with_iff to_ascii_lowercase_def ascii_lower_slash)
next
  case (Cons c p)
  then obtain d k' where k: "k = d # k'" "ascii_lower d = c" "starts_with (to_ascii_lowercase k') (p @ ''/'')"
    by (cases k) (auto simp: starts_with_iff to_ascii_lowercase_def)
  with Cons.prems have "d \<noteq> CHR ''/''" using ascii_lower_slash [of d] by auto
  with Cons k show ?case by simp
qed

lemma drop_tag_same:
  assumes "same_condition_key a b" "starts_with (to_ascii_lowercase a) (p @ ''/'')" "CHR ''/'' \<notin> set p"
    and "n = Suc (length p)"
  shows "drop n a = drop n b"
proof -
  let ?p = "\<lambda>c. c \<noteq> CHR ''/''"
  have "starts_with (to_ascii_lowercase b) (p @ ''/'')"
    using assms(2) same_condition_key_lower [OF assms(1)] by simp
  from drop_tag_prefix [OF this assms(3)] drop_tag_prefix [OF assms(2,3)]
  have "drop n a = tl (dropWhile ?p a)" "drop n b = tl (dropWhile ?p b)"
    unfolding assms(4) by blast+
  moreover have "dropWhile ?p a = dropWhile ?p b"
    using assms(1) by (simp add: same_condition_key_def split_key_eq)
  ultimately show ?thesis by simp
qed

lemma tagged_value_same:
  assumes "same_condition_key a b"
  shows "tagged_value c a = tagged_value c b"
proof -
  have "starts_with (to_ascii_lowercase b) ''aws:resourcetag/'' \<Longrightarrow> drop 16 a = drop 16 b"
    and "starts_with (to_ascii_lowercase b) ''aws:requesttag/'' \<Longrightarrow> drop 15 a = drop 15 b"
    and "starts_with (to_ascii_lowercase b) ''aws:principaltag/'' \<Longrightarrow> drop 17 a = drop 17 b"
    using drop_tag_same [OF assms, of "''aws:resourcetag''" 16]
      drop_tag_same [OF assms, of "''aws:requesttag''" 15]
      drop_tag_same [OF assms, of "''aws:principaltag''" 17] same_condition_key_lower [OF assms]
    by simp_all
  then show ?thesis
    using same_condition_key_lower [OF assms] by (simp add: tagged_value_def Let_def)
qed

text \<open>Two spellings of one key have the same value in every context.\<close>

lemma lookup_same_key:
  assumes "same_condition_key a b"
  shows "lookup ch c a = lookup ch c b"
proof -
  have "(\<lambda>(e, vs :: string list). same_condition_key e a) = (\<lambda>(e, vs). same_condition_key e b)"
    and "(\<lambda>(k, vs :: string list). eq_ignore_ascii_case k a) = (\<lambda>(k, vs). eq_ignore_ascii_case k b)"
    using same_condition_key_entry [OF assms] same_condition_key_lower [OF assms]
    by (auto simp: fun_eq_iff eq_ignore_ascii_case_def)
  then show ?thesis
    using tagged_value_same [OF assms] same_condition_key_lower [OF assms]
    by (simp add: lookup_def Let_def cong: option.case_cong)
qed

section \<open>Principals of internal callers\<close>

lemma find_map_Some:
  "find_map f xs = Some y \<Longrightarrow> \<exists>x \<in> set xs. f x = Some y"
  by (induction xs) (auto split: option.splits)

lemma find_map_None: "find_map f xs = None \<longleftrightarrow> (\<forall>x \<in> set xs. f x = None)"
  by (induction xs) (auto split: option.splits)

lemma from_arn_Root: "from_arn a = Root \<longleftrightarrow> ends_with a '':root''"
  by (simp add: from_arn_def)

end
