(* ===== verification/Glob.thy ===== *)
theory Glob
  imports Utf8
begin

text \<open>
  The wildcard matcher of the policy engine. The source carries it three times: \<^verbatim>\<open>glob_match\<close> in
  \<^verbatim>\<open>evaluator.rs\<close> and \<^verbatim>\<open>glob\<close> in \<^verbatim>\<open>condition.rs\<close> run it over pattern characters, \<^verbatim>\<open>glob\<close> in
  \<^verbatim>\<open>policy_variables.rs\<close> over expanded pieces. All three are one loop with two cursors, the
  position of the last run wildcard and the value position tried for it; \<open>glob_loop\<close> is that loop
  with the two tests that differ as arguments. \<open>matches\<close> is the reference semantics of a pattern.

  The loop never accepts more than the reference (\<open>glob_loop_sound\<close>), and it accepts exactly the
  reference when the first test does not fire on a run wildcard (\<open>glob_loop_complete\<close>). The
  character version misses that condition for a value containing an asterisk.
\<close>

text \<open>One element of a policy string after expansion (\<^verbatim>\<open>policy_variables.rs\<close>).\<close>

datatype piece = Literal nat | AnyRun | AnyOne

fun matches :: "piece list \<Rightarrow> nat list \<Rightarrow> bool" where
  "matches [] v = (v = [])"
| "matches (AnyRun # p) [] = matches p []"
| "matches (AnyRun # p) (c # v) = (matches p (c # v) \<or> matches (AnyRun # p) v)"
| "matches (AnyOne # p) [] = False"
| "matches (AnyOne # p) (c # v) = matches p v"
| "matches (Literal a # p) [] = False"
| "matches (Literal a # p) (c # v) = (a = c \<and> matches p v)"

text \<open>
  The loop. \<open>hit pi vi\<close>: the pattern element at \<open>pi\<close> consumes the value element at \<open>vi\<close>;
  \<open>run pi\<close>: the element at \<open>pi\<close> is a run wildcard; \<open>n\<close> is the value's length. The result is the
  final pattern cursor, or \<open>None\<close> for the early \<^verbatim>\<open>return false\<close>.
\<close>

definition loop_ok :: "nat \<Rightarrow> nat \<Rightarrow> nat option \<Rightarrow> nat \<Rightarrow> bool" where
  "loop_ok pi vi star star_v \<longleftrightarrow> (\<forall>s. star = Some s \<longrightarrow> s < pi \<and> star_v \<le> vi)"

function glob_loop ::
  "(nat \<Rightarrow> nat \<Rightarrow> bool) \<Rightarrow> (nat \<Rightarrow> bool) \<Rightarrow> nat \<Rightarrow> nat \<Rightarrow> nat \<Rightarrow> nat \<Rightarrow> nat option \<Rightarrow> nat \<Rightarrow> nat option"
where
  "glob_loop hit run m n pi vi star star_v =
     (if vi < n then
        (if pi < m \<and> hit pi vi then glob_loop hit run m n (pi + 1) (vi + 1) star star_v
         else if pi < m \<and> run pi then glob_loop hit run m n (pi + 1) vi (Some pi) vi
         else (case star of
                 Some s \<Rightarrow> glob_loop hit run m n (s + 1) (star_v + 1) (Some s) (star_v + 1)
               | None \<Rightarrow> None))
      else Some pi)"
  by pat_completeness auto
termination
proof (relation "measures [
    \<lambda>(hit, run, m, n, pi, vi, star, star_v). if loop_ok pi vi star star_v then 0 else (1::nat),
    \<lambda>(hit, run, m, n, pi, vi, star, star_v). case star of None \<Rightarrow> m + 1 | Some s \<Rightarrow> m - s,
    \<lambda>(hit, run, m, n, pi, vi, star, star_v). n - star_v,
    \<lambda>(hit, run, m, n, pi, vi, star, star_v). (n - vi) + (m - pi)]", goal_cases)
  case 1
  show ?case by simp
next
  case (2 hit run m n pi vi star star_v)
  then show ?case by (auto simp: loop_ok_def split: option.splits)
next
  case (3 hit run m n pi vi star star_v)
  then show ?case by (auto simp: loop_ok_def split: option.splits)
next
  case (4 hit run m n pi vi star star_v s)
  then show ?case by (auto simp: loop_ok_def)
qed

declare glob_loop.simps [simp del]

text \<open>The trailing \<^verbatim>\<open>while\<close> skips run wildcards; the match succeeds when the pattern is used up.\<close>

function skip_runs :: "(nat \<Rightarrow> bool) \<Rightarrow> nat \<Rightarrow> nat \<Rightarrow> nat" where
  "skip_runs run m pi = (if pi < m \<and> run pi then skip_runs run m (pi + 1) else pi)"
  by pat_completeness auto
termination
  by (relation "measure (\<lambda>(run, m, pi). m - pi)") auto

declare skip_runs.simps [simp del]

definition glob_run :: "(nat \<Rightarrow> nat \<Rightarrow> bool) \<Rightarrow> (nat \<Rightarrow> bool) \<Rightarrow> nat \<Rightarrow> nat \<Rightarrow> bool" where
  "glob_run hit run m n =
     (case glob_loop hit run m n 0 0 None 0 of None \<Rightarrow> False | Some pi \<Rightarrow> skip_runs run m pi = m)"

section \<open>The three matchers of the source\<close>

text \<open>\<^verbatim>\<open>evaluator.rs::glob_match\<close>: 63 is the question mark, 42 the asterisk.\<close>

definition glob_match :: "string \<Rightarrow> string \<Rightarrow> bool" where
  "glob_match pattern value =
     (let p = chars pattern; v = chars value
      in glob_run (\<lambda>pi vi. p ! pi = 63 \<or> p ! pi = v ! vi) (\<lambda>pi. p ! pi = 42) (length p) (length v))"

text \<open>\<^verbatim>\<open>condition.rs::glob\<close>, the same loop duplicated there.\<close>

definition condition_glob :: "string \<Rightarrow> string \<Rightarrow> bool" where
  "condition_glob pattern value =
     (let p = chars pattern; v = chars value
      in glob_run (\<lambda>pi vi. p ! pi = 63 \<or> p ! pi = v ! vi) (\<lambda>pi. p ! pi = 42) (length p) (length v))"

text \<open>\<^verbatim>\<open>policy_variables.rs::glob\<close>, over pieces, optionally folding ASCII case.\<close>

definition cp_lower :: "nat \<Rightarrow> nat" where
  "cp_lower c = (if 65 \<le> c \<and> c \<le> 90 then c + 32 else c)"

definition char_eq :: "bool \<Rightarrow> nat \<Rightarrow> nat \<Rightarrow> bool" where
  "char_eq ignore_case a b = (if ignore_case then cp_lower a = cp_lower b else a = b)"

definition piece_glob :: "piece list \<Rightarrow> string \<Rightarrow> bool \<Rightarrow> bool" where
  "piece_glob pieces value ignore_case =
     (let v = chars value
      in glob_run
           (\<lambda>pi vi. case pieces ! pi of
                AnyOne \<Rightarrow> True
              | Literal c \<Rightarrow> char_eq ignore_case c (v ! vi)
              | AnyRun \<Rightarrow> False)
           (\<lambda>pi. pieces ! pi = AnyRun) (length pieces) (length v))"

section \<open>Reference semantics\<close>

lemma matches_AnyRun_skip: "matches p v \<Longrightarrow> matches (AnyRun # p) v"
  by (cases v) auto

lemma matches_AnyRun: "matches (AnyRun # p) v \<longleftrightarrow> (\<exists>k \<le> length v. matches p (drop k v))"
proof (induction v)
  case (Cons c v)
  have "(\<exists>k \<le> length (c # v). matches p (drop k (c # v))) \<longleftrightarrow>
      matches p (c # v) \<or> (\<exists>k \<le> length v. matches p (drop k v))"
  proof safe
    fix k
    assume "k \<le> length (c # v)" "matches p (drop k (c # v))" "\<not> (\<exists>k \<le> length v. matches p (drop k v))"
    then show "matches p (c # v)" by (cases k) auto
  next
    fix k
    assume "k \<le> length v" "matches p (drop k v)"
    then show "\<exists>k \<le> length (c # v). matches p (drop k (c # v))"
      by (intro exI [of _ "Suc k"]) simp
  qed (rule exI [of _ 0], simp)
  with Cons show ?case by simp
qed simp

lemma matches_AnyRun_all: "matches [AnyRun] v"
  by (induction v) auto

lemma matches_Nil: "matches p [] \<longleftrightarrow> list_all (\<lambda>e. e = AnyRun) p"
proof (induction p)
  case (Cons e p)
  then show ?case by (cases e) auto
qed simp

lemma matches_Literals: "matches (map Literal cs) v \<longleftrightarrow> v = cs"
proof (induction cs arbitrary: v)
  case (Cons c cs)
  then show ?case by (cases v) auto
qed simp

lemma matches_fixed_prefix:
  "AnyRun \<notin> set a \<Longrightarrow> matches (a @ b) v \<Longrightarrow> length a \<le> length v \<and> matches b (drop (length a) v)"
proof (induction a arbitrary: v)
  case (Cons e a)
  then show ?case by (cases e; cases v) auto
qed simp

fun elem_hit :: "piece \<Rightarrow> nat \<Rightarrow> bool" where
  "elem_hit (Literal a) c = (a = c)"
| "elem_hit AnyOne c = True"
| "elem_hit AnyRun c = False"

lemma matches_Cons_fixed: "e \<noteq> AnyRun \<Longrightarrow> matches (e # p) (c # v) \<longleftrightarrow> elem_hit e c \<and> matches p v"
  by (cases e) auto

lemma skip_runs_all: "pi \<le> m \<Longrightarrow> skip_runs run m pi = m \<longleftrightarrow> (\<forall>j. pi \<le> j \<and> j < m \<longrightarrow> run j)"
proof (induction run m pi rule: skip_runs.induct)
  case (1 run m pi)
  show ?case
  proof (cases "pi < m \<and> run pi")
    case True
    with 1 have "skip_runs run m pi = m \<longleftrightarrow> (\<forall>j. Suc pi \<le> j \<and> j < m \<longrightarrow> run j)"
      by (simp add: skip_runs.simps [of run m pi])
    also have "\<dots> \<longleftrightarrow> (\<forall>j. pi \<le> j \<and> j < m \<longrightarrow> run j)"
      using True by (auto simp: Suc_le_eq) (metis le_neq_implies_less)
    finally show ?thesis .
  next
    case False
    with 1(2) show ?thesis by (auto simp: skip_runs.simps [of run m pi])
  qed
qed

lemma skip_runs_matches:
  assumes "pi \<le> length ps" and "\<And>j. j < length ps \<Longrightarrow> run j \<longleftrightarrow> ps ! j = AnyRun"
  shows "skip_runs run (length ps) pi = length ps \<longleftrightarrow> matches (drop pi ps) []"
proof -
  have "list_all (\<lambda>e. e = AnyRun) (drop pi ps) \<longleftrightarrow>
      (\<forall>j. pi \<le> j \<and> j < length ps \<longrightarrow> ps ! j = AnyRun)"
  proof safe
    fix j
    assume "list_all (\<lambda>e. e = AnyRun) (drop pi ps)" "pi \<le> j" "j < length ps"
    moreover from this have "ps ! j \<in> set (drop pi ps)"
      by (auto simp: in_set_conv_nth intro!: exI [of _ "j - pi"])
    ultimately show "ps ! j = AnyRun" by (simp add: list_all_iff)
  next
    assume "\<forall>j. pi \<le> j \<and> j < length ps \<longrightarrow> ps ! j = AnyRun"
    then show "list_all (\<lambda>e. e = AnyRun) (drop pi ps)"
      by (auto simp: list_all_length)
  qed
  with assms show ?thesis by (auto simp: skip_runs_all matches_Nil)
qed

section \<open>Soundness of the loop\<close>

lemma drop_split: "i < length xs \<Longrightarrow> drop i xs = xs ! i # drop (i + 1) xs"
  by (simp add: Cons_nth_drop_Suc)

lemma matches_hit:
  assumes "pi < length ps" "vi < length vs" "ps ! pi = AnyRun \<or> elem_hit (ps ! pi) (vs ! vi)"
    and "matches (drop (pi + 1) ps) (drop (vi + 1) vs)"
  shows "matches (drop pi ps) (drop vi vs)"
proof (cases "ps ! pi = AnyRun")
  case True
  with assms show ?thesis by (simp add: drop_split [of pi] drop_split [of vi] matches_AnyRun_skip)
next
  case False
  with assms show ?thesis by (simp add: drop_split [of pi] drop_split [of vi] matches_Cons_fixed)
qed

lemma matches_run:
  assumes "pi < length ps" "ps ! pi = AnyRun"
  shows "matches (drop pi ps) (drop vi vs) \<longleftrightarrow> (\<exists>k \<ge> vi. matches (drop (pi + 1) ps) (drop k vs))"
proof -
  have "(\<exists>k \<le> length vs - vi. matches p (drop (k + vi) vs)) \<longleftrightarrow> (\<exists>k \<ge> vi. matches p (drop k vs))"
    (is "?L \<longleftrightarrow> ?R") for p
  proof
    assume ?L
    then show ?R by (metis le_add2)
  next
    assume ?R
    then obtain k where k: "vi \<le> k" "matches p (drop k vs)" by blast
    show ?L
    proof (cases "k \<le> length vs")
      case True
      with k show ?L by (intro exI [of _ "k - vi"]) simp
    next
      case False
      with k show ?L by (intro exI [of _ "length vs - vi"]) simp
    qed
  qed
  with assms show ?thesis by (simp add: drop_split [of pi] matches_AnyRun)
qed

text \<open>
  Soundness: \<open>P\<close> stands for ``the whole pattern matches the whole value''. Both the state the
  loop is in and every restart its wildcard still has imply it.
\<close>

lemma glob_loop_sound:
  assumes "\<And>j. j < length ps \<Longrightarrow> run j \<longleftrightarrow> ps ! j = AnyRun"
    and "\<And>i j. i < length ps \<Longrightarrow> j < length vs \<Longrightarrow> hit i j \<Longrightarrow>
      ps ! i = AnyRun \<or> elem_hit (ps ! i) (vs ! j)"
    and "glob_loop hit run (length ps) (length vs) pi vi star star_v = Some k"
    and "skip_runs run (length ps) k = length ps"
    and "pi \<le> length ps" "\<And>s. star = Some s \<Longrightarrow> s < length ps"
    and "matches (drop pi ps) (drop vi vs) \<Longrightarrow> P"
    and "\<And>s j. star = Some s \<Longrightarrow> star_v \<le> j \<Longrightarrow> matches (drop (s + 1) ps) (drop j vs) \<Longrightarrow> P"
  shows P
  using assms
proof (induction hit run "length ps" "length vs" pi vi star star_v rule: glob_loop.induct)
  case (1 hit run pi vi star star_v)
  note runs = 1(4) and hits = 1(5) and final = 1(6) and skip = 1(7) and pi = 1(8) and st = 1(9)
    and now = 1(10) and later = 1(11)
  note step = glob_loop.simps [of hit run "length ps" "length vs" pi vi star star_v]
  consider (stop) "\<not> vi < length vs"
    | (hit) "vi < length vs" "pi < length ps \<and> hit pi vi"
    | (run) "vi < length vs" "\<not> (pi < length ps \<and> hit pi vi)" "pi < length ps \<and> run pi"
    | (retry) "vi < length vs" "\<not> (pi < length ps \<and> hit pi vi)" "\<not> (pi < length ps \<and> run pi)"
    by blast
  then show ?case
  proof cases
    case stop
    with final step have "k = pi" by simp
    with skip_runs_matches [of pi ps run, OF pi runs] skip stop show ?thesis by (auto intro: now)
  next
    case hit
    show ?thesis
    proof (rule 1(1) [OF hit runs hits _ skip])
      show "glob_loop hit run (length ps) (length vs) (pi + 1) (vi + 1) star star_v = Some k"
        using final step hit by simp
      show "matches (drop (pi + 1) ps) (drop (vi + 1) vs) \<Longrightarrow> P"
        using now matches_hit [of pi ps vi vs] hits hit by blast
    qed (use hit st later in auto)
  next
    case run
    then have m: "matches (drop pi ps) (drop vi vs) \<longleftrightarrow> (\<exists>k \<ge> vi. matches (drop (pi + 1) ps) (drop k vs))"
      using runs by (intro matches_run) auto
    show ?thesis
    proof (rule 1(2) [OF run runs hits _ skip])
      show "glob_loop hit run (length ps) (length vs) (pi + 1) vi (Some pi) vi = Some k"
        using final step run by simp
      show "matches (drop (pi + 1) ps) (drop vi vs) \<Longrightarrow> P" using m now by blast
      show "\<And>s j. Some pi = Some s \<Longrightarrow> vi \<le> j \<Longrightarrow> matches (drop (s + 1) ps) (drop j vs) \<Longrightarrow> P"
        using m now by blast
    qed (use run in auto)
  next
    case retry
    with final step obtain s where s: "star = Some s" by (auto split: option.splits)
    show ?thesis
    proof (rule 1(3) [OF retry s runs hits _ skip])
      show "glob_loop hit run (length ps) (length vs) (s + 1) (star_v + 1) (Some s) (star_v + 1) = Some k"
        using final step retry s by simp
      show "matches (drop (s + 1) ps) (drop (star_v + 1) vs) \<Longrightarrow> P"
        using later [OF s, of "star_v + 1"] by simp
      show "\<And>s' j. Some s = Some s' \<Longrightarrow> star_v + 1 \<le> j \<Longrightarrow> matches (drop (s' + 1) ps) (drop j vs) \<Longrightarrow> P"
        using later [OF s] by (metis add_leD1 option.inject)
    qed (use st [OF s] in simp_all)
  qed
qed

section \<open>Completeness of the loop\<close>

text \<open>
  The state invariant: before the first run wildcard the rest must match the rest; afterwards
  the elements between the wildcard and the cursor are fixed ones, in step with the value, and
  some restart of the wildcard succeeds.
\<close>

definition promising :: "piece list \<Rightarrow> nat list \<Rightarrow> nat \<Rightarrow> nat \<Rightarrow> nat option \<Rightarrow> nat \<Rightarrow> bool" where
  "promising ps vs pi vi star star_v \<longleftrightarrow> pi \<le> length ps \<and> vi \<le> length vs \<and>
     (case star of
        None \<Rightarrow> matches (drop pi ps) (drop vi vs)
      | Some s \<Rightarrow> s < pi \<and> star_v \<le> vi \<and> pi - (s + 1) = vi - star_v \<and>
          (\<forall>j. s < j \<and> j < pi \<longrightarrow> ps ! j \<noteq> AnyRun) \<and>
          (\<exists>k \<ge> star_v. k \<le> length vs \<and> matches (drop (s + 1) ps) (drop k vs)))"

lemma fixed_stretch:
  assumes "s < pi" "pi \<le> length ps" "\<forall>j. s < j \<and> j < pi \<longrightarrow> ps ! j \<noteq> AnyRun"
    and "k \<le> length vs" "matches (drop (s + 1) ps) (drop k vs)"
  shows "k + (pi - (s + 1)) \<le> length vs \<and> matches (drop pi ps) (drop (k + (pi - (s + 1))) vs)"
proof -
  let ?a = "take (pi - (s + 1)) (drop (s + 1) ps)"
  have split: "drop (s + 1) ps = ?a @ drop pi ps"
    using assms(1) append_take_drop_id [of "pi - (s + 1)" "drop (s + 1) ps"] by simp
  have "AnyRun \<notin> set ?a"
    using assms(1-3) by (auto simp: in_set_conv_nth)
  with assms(5) split have "length ?a \<le> length (drop k vs) \<and> matches (drop pi ps) (drop (length ?a) (drop k vs))"
    by (metis matches_fixed_prefix)
  then show ?thesis using assms(1,2,4) by (auto simp: add.commute)
qed

lemma promising_here:
  assumes "promising ps vs pi vi star star_v"
  shows "(\<exists>k \<ge> vi. k \<le> length vs \<and> matches (drop pi ps) (drop k vs)) \<and>
    (matches (drop pi ps) (drop vi vs) \<or>
     (\<exists>s k. star = Some s \<and> star_v < k \<and> k \<le> length vs \<and> matches (drop (s + 1) ps) (drop k vs)))"
proof (cases star)
  case None
  with assms show ?thesis by (auto simp: promising_def)
next
  case (Some s)
  with assms obtain k where k: "star_v \<le> k" "k \<le> length vs" "matches (drop (s + 1) ps) (drop k vs)"
    and inv: "s < pi" "pi \<le> length ps" "\<forall>j. s < j \<and> j < pi \<longrightarrow> ps ! j \<noteq> AnyRun"
      "star_v \<le> vi" "pi - (s + 1) = vi - star_v"
    by (auto simp: promising_def)
  have r: "k + (pi - (s + 1)) \<le> length vs \<and> matches (drop pi ps) (drop (k + (pi - (s + 1))) vs)"
    using inv k by (intro fixed_stretch) auto
  have le: "vi \<le> k + (pi - (s + 1))" using inv(4,5) k(1) by linarith
  show ?thesis
  proof
    show "\<exists>k \<ge> vi. k \<le> length vs \<and> matches (drop pi ps) (drop k vs)" using r le by blast
    show "matches (drop pi ps) (drop vi vs) \<or>
      (\<exists>s k. star = Some s \<and> star_v < k \<and> k \<le> length vs \<and> matches (drop (s + 1) ps) (drop k vs))"
    proof (cases "k = star_v")
      case True
      with inv(4,5) have "k + (pi - (s + 1)) = vi" by linarith
      with r show ?thesis by simp
    next
      case False
      with k Some show ?thesis by auto
    qed
  qed
qed

lemma glob_loop_complete:
  assumes "\<And>j. j < length ps \<Longrightarrow> run j \<longleftrightarrow> ps ! j = AnyRun"
    and "\<And>i j. i < length ps \<Longrightarrow> j < length vs \<Longrightarrow> hit i j \<longleftrightarrow> elem_hit (ps ! i) (vs ! j)"
    and "promising ps vs pi vi star star_v"
  shows "\<exists>k. glob_loop hit run (length ps) (length vs) pi vi star star_v = Some k \<and>
    skip_runs run (length ps) k = length ps"
  using assms
proof (induction hit run "length ps" "length vs" pi vi star star_v rule: glob_loop.induct)
  case (1 hit run pi vi star star_v)
  note runs = 1(4) and hits = 1(5) and inv = 1(6)
  note step = glob_loop.simps [of hit run "length ps" "length vs" pi vi star star_v]
  note here = promising_here [OF inv]
  have le: "pi \<le> length ps" "vi \<le> length vs" using inv by (auto simp: promising_def)
  consider (stop) "\<not> vi < length vs"
    | (hit) "vi < length vs" "pi < length ps \<and> hit pi vi"
    | (run) "vi < length vs" "\<not> (pi < length ps \<and> hit pi vi)" "pi < length ps \<and> run pi"
    | (retry) "vi < length vs" "\<not> (pi < length ps \<and> hit pi vi)" "\<not> (pi < length ps \<and> run pi)"
    by blast
  then show ?case
  proof cases
    case stop
    with here le have "matches (drop pi ps) []" by (auto dest: le_antisym)
    with skip_runs_matches [of pi ps run, OF le(1) runs] stop step show ?thesis by simp
  next
    case hit
    then have h: "elem_hit (ps ! pi) (vs ! vi)" using hits by blast
    then have fixed: "ps ! pi \<noteq> AnyRun" by auto
    have "promising ps vs (pi + 1) (vi + 1) star star_v"
    proof (cases star)
      case None
      with inv hit fixed show ?thesis
        by (simp add: promising_def drop_split [of pi] drop_split [of vi] matches_Cons_fixed)
    next
      case (Some s)
      with inv hit fixed show ?thesis
        by (auto simp: promising_def less_Suc_eq)
    qed
    with 1(1) [OF hit runs hits] step hit show ?thesis by simp
  next
    case run
    from here obtain k where "vi \<le> k" "matches (drop pi ps) (drop k vs)" by blast
    moreover have "ps ! pi = AnyRun" using runs run by blast
    ultimately obtain j where j: "vi \<le> j" "matches (drop (pi + 1) ps) (drop j vs)"
      using matches_run [of pi ps k vs] run by (meson le_trans)
    then have "\<exists>j \<ge> vi. j \<le> length vs \<and> matches (drop (pi + 1) ps) (drop j vs)"
      using le by (intro exI [of _ "min j (length vs)"]) (auto simp: min_def)
    with run le have "promising ps vs (pi + 1) vi (Some pi) vi" by (auto simp: promising_def)
    with 1(2) [OF run runs hits] step run show ?thesis by simp
  next
    case retry
    have "\<not> matches (drop pi ps) (drop vi vs)"
    proof (cases "pi < length ps")
      case True
      with retry hits runs show ?thesis
        by (simp add: drop_split [of pi] drop_split [of vi] matches_Cons_fixed)
    qed (use retry in simp)
    with here obtain s k where s: "star = Some s"
      and k: "star_v < k" "k \<le> length vs" "matches (drop (s + 1) ps) (drop k vs)" by blast
    have "promising ps vs (s + 1) (star_v + 1) (Some s) (star_v + 1)"
      using k s inv by (auto simp: promising_def intro!: exI [of _ k])
    with 1(3) [OF retry s runs hits] step retry s show ?thesis by simp
  qed
qed

text \<open>The two lemmas for a run from the start.\<close>

lemma glob_run_sound:
  assumes "\<And>j. j < length ps \<Longrightarrow> run j \<longleftrightarrow> ps ! j = AnyRun"
    and "\<And>i j. i < length ps \<Longrightarrow> j < length vs \<Longrightarrow> hit i j \<Longrightarrow>
      ps ! i = AnyRun \<or> elem_hit (ps ! i) (vs ! j)"
    and "glob_run hit run (length ps) (length vs)"
  shows "matches ps vs"
  proof -
  from assms(3) obtain k where "glob_loop hit run (length ps) (length vs) 0 0 None 0 = Some k"
    "skip_runs run (length ps) k = length ps"
    by (auto simp: glob_run_def split: option.splits)
  from glob_loop_sound [OF assms(1,2) this] show ?thesis by simp
qed

lemma glob_run_exact:
  assumes "\<And>j. j < length ps \<Longrightarrow> run j \<longleftrightarrow> ps ! j = AnyRun"
    and "\<And>i j. i < length ps \<Longrightarrow> j < length vs \<Longrightarrow> hit i j \<longleftrightarrow> elem_hit (ps ! i) (vs ! j)"
  shows "glob_run hit run (length ps) (length vs) \<longleftrightarrow> matches ps vs"
proof
  assume "glob_run hit run (length ps) (length vs)"
  then show "matches ps vs" using assms by (intro glob_run_sound [of ps run vs hit]) auto
next
  assume "matches ps vs"
  then have "promising ps vs 0 0 None 0" by (simp add: promising_def)
  from glob_loop_complete [OF assms this] show "glob_run hit run (length ps) (length vs)"
    by (auto simp: glob_run_def)
qed

section \<open>The matchers against the reference\<close>

definition piece_of :: "nat \<Rightarrow> piece" where
  "piece_of c = (if c = 42 then AnyRun else if c = 63 then AnyOne else Literal c)"

text \<open>What a policy author means by a pattern: an asterisk is any run, a question mark any one.\<close>

definition wildcard :: "string \<Rightarrow> string \<Rightarrow> bool" where
  "wildcard pattern value \<longleftrightarrow> matches (map piece_of (chars pattern)) (chars value)"

lemma condition_glob_eq: "condition_glob = glob_match"
  by (intro ext) (simp add: condition_glob_def glob_match_def)

lemma glob_match_wildcard: "glob_match p v \<Longrightarrow> wildcard p v"
  unfolding wildcard_def
  by (rule glob_run_sound [of _ "\<lambda>i. chars p ! i = 42" _
        "\<lambda>i j. chars p ! i = 63 \<or> chars p ! i = chars v ! j"])
    (auto simp: glob_match_def piece_of_def Let_def)

lemma glob_match_iff_wildcard:
  assumes "42 \<notin> set (chars v)"
  shows "glob_match p v \<longleftrightarrow> wildcard p v"
proof -
  have "chars v ! j \<noteq> 42" if "j < length (chars v)" for j
    using that assms by (auto simp: in_set_conv_nth)
  then show ?thesis
    using glob_run_exact [of "map piece_of (chars p)" "\<lambda>i. chars p ! i = 42" "chars v"
        "\<lambda>i j. chars p ! i = 63 \<or> chars p ! i = chars v ! j"]
    by (auto simp: glob_match_def wildcard_def piece_of_def Let_def)
qed

lemma chars_star: "chars ''*'' = [42]"
  by code_simp

lemma wildcard_star: "wildcard ''*'' v"
  by (simp add: wildcard_def chars_star piece_of_def matches_AnyRun_all)

fun fold_piece :: "bool \<Rightarrow> piece \<Rightarrow> piece" where
  "fold_piece ignore_case (Literal c) = Literal (if ignore_case then cp_lower c else c)"
| "fold_piece ignore_case e = e"

lemma piece_glob_matches:
  "piece_glob ps v ic \<longleftrightarrow>
   matches (map (fold_piece ic) ps) (if ic then map cp_lower (chars v) else chars v)"
proof -
  let ?ps = "map (fold_piece ic) ps" and ?v = "if ic then map cp_lower (chars v) else chars v"
  let ?hit = "\<lambda>pi vi. case ps ! pi of AnyOne \<Rightarrow> True | Literal c \<Rightarrow> char_eq ic c (chars v ! vi) | AnyRun \<Rightarrow> False"
  have run: "(ps ! j = AnyRun) = (?ps ! j = AnyRun)" if "j < length ?ps" for j
    using that by (cases "ps ! j") auto
  have hit: "?hit i j = elem_hit (?ps ! i) (?v ! j)" if "i < length ?ps" "j < length ?v" for i j
    using that by (cases "ps ! i") (auto simp: char_eq_def split: if_splits)
  show ?thesis
    using glob_run_exact [of ?ps "\<lambda>j. ps ! j = AnyRun" ?v ?hit, OF run hit]
    by (simp add: piece_glob_def Let_def if_distrib [of length] cong: if_cong)
qed

lemma fold_piece_False [simp]: "fold_piece False = id"
proof
  show "fold_piece False p = id p" for p by (cases p) auto
qed

lemma piece_glob_exact: "piece_glob ps v False \<longleftrightarrow> matches ps (chars v)"
  by (simp add: piece_glob_matches)

lemma matches_appendI: "matches p a \<Longrightarrow> matches q b \<Longrightarrow> matches (p @ q) (a @ b)"
proof (induction p a rule: matches.induct)
  case (2 p)
  then show ?case by (simp add: matches_AnyRun_skip)
qed auto

lemma matches_appendD: "matches (p @ q) v \<Longrightarrow> \<exists>a b. v = a @ b \<and> matches p a \<and> matches q b"
proof (induction p arbitrary: v)
  case (Cons e p)
  show ?case
  proof (cases "e = AnyRun")
    case True
    with Cons.prems obtain k where "matches (p @ q) (drop k v)" by (auto simp: matches_AnyRun)
    from Cons.IH [OF this] obtain a b where "drop k v = a @ b" "matches p a" "matches q b" by blast
    moreover from this(1,2) True have "v = (take k v @ a) @ b" by (metis append.assoc append_take_drop_id)
    moreover from \<open>matches p a\<close> True have "matches (e # p) (take k v @ a)"
      using matches_appendI [OF matches_AnyRun_all, of p a "take k v"] by simp
    ultimately show ?thesis by blast
  next
    case False
    with Cons.prems obtain c w where v: "v = c # w" by (cases v; cases e) auto
    with Cons.prems False have "elem_hit e c" "matches (p @ q) w" by (simp_all add: matches_Cons_fixed)
    from Cons.IH [OF this(2)] obtain a b where "w = a @ b" "matches p a" "matches q b" by blast
    with v False \<open>elem_hit e c\<close> have "v = (c # a) @ b \<and> matches (e # p) (c # a) \<and> matches q b"
      by (simp add: matches_Cons_fixed)
    then show ?thesis by blast
  qed
qed simp

lemma matches_append: "matches (p @ q) v \<longleftrightarrow> (\<exists>a b. v = a @ b \<and> matches p a \<and> matches q b)"
  using matches_appendI matches_appendD by blast

end
