(* ===== verification/Policy_Variables.thy ===== *)
theory Policy_Variables
  imports Auth_Context Glob
begin

text \<open>
  Policy variables (\<^verbatim>\<open>fakecloud-iam/src/policy_variables.rs\<close>): \<^verbatim>\<open>${aws:username}\<close>-style
  references in resource ARNs and condition values, expanded to pieces so that a substituted
  value stays literal.

  \<open>expand_one\<close> computes the expansion around one reference and \<open>piece_glob_substituted\<close> says what
  the result matches: the value itself, verbatim, between what the policy text around it
  matches. No value can act as a wildcard.
\<close>

definition has_variables :: "string \<Rightarrow> bool" where
  "has_variables text = contains_str text ''${''"

definition push_policy_text :: "string \<Rightarrow> piece list" where
  "push_policy_text text =
     map (\<lambda>c. if c = 42 then AnyRun else if c = 63 then AnyOne else Literal c) (chars text)"

definition split_default :: "string \<Rightarrow> string \<times> string option" where
  "split_default reference =
     (case split_once reference (CHR '','') of
        Some (key, d) \<Rightarrow>
          (case Option.bind (strip_prefix (trim d) [CHR 0x27]) (\<lambda>t. strip_suffix t [CHR 0x27]) of
             Some quoted \<Rightarrow> (trim key, Some quoted)
           | None \<Rightarrow> (reference, None))
      | None \<Rightarrow> (reference, None))"

definition reference_pieces :: "chrono \<Rightarrow> condition_context \<Rightarrow> string \<Rightarrow> piece list option" where
  "reference_pieces ch ctx inner =
     (let t = trim inner
      in if t = ''*'' then Some [Literal 42]
         else if t = ''?'' then Some [Literal 63]
         else if t = ''$'' then Some [Literal 36]
         else
           (let (key, dflt) = split_default t;
                value = (case lookup ch ctx key of Some [v] \<Rightarrow> Some v | _ \<Rightarrow> dflt)
            in map_option (\<lambda>v. map Literal (chars v)) value))"

function expand_loop :: "chrono \<Rightarrow> condition_context \<Rightarrow> piece list \<Rightarrow> string \<Rightarrow> piece list option" where
  "expand_loop ch ctx out rest =
     (case find_str rest ''${'' of
        None \<Rightarrow> Some (out @ push_policy_text rest)
      | Some start \<Rightarrow>
          (let out1 = out @ push_policy_text (take start rest);
               after = drop (start + 2) rest
           in case find_str after ''}'' of
                None \<Rightarrow> Some (out1 @ push_policy_text (drop start rest))
              | Some stop \<Rightarrow>
                  (case reference_pieces ch ctx (take stop after) of
                     None \<Rightarrow> None
                   | Some ps \<Rightarrow> expand_loop ch ctx (out1 @ ps) (drop (stop + 1) after))))"
  by pat_completeness auto
termination
proof (relation "measure (\<lambda>(ch, ctx, out, rest). length rest)", goal_cases)
  case (2 ch ctx out rest start out1 after stop ps)
  then have "rest \<noteq> []" by auto
  with 2 show ?case by simp
qed simp

declare expand_loop.simps [simp del]

definition expand :: "chrono \<Rightarrow> string \<Rightarrow> condition_context \<Rightarrow> piece list option" where
  "expand ch text ctx = expand_loop ch ctx [] text"

definition to_text :: "piece list \<Rightarrow> string" where
  "to_text pieces =
     encode_str (map (\<lambda>p. case p of Literal c \<Rightarrow> c | AnyRun \<Rightarrow> 42 | AnyOne \<Rightarrow> 63) pieces)"

text \<open>The byte offset of the \<open>n\<close>-th occurrence of \<open>c\<close>, counting from 0.\<close>

fun nth_char_pos :: "string \<Rightarrow> char \<Rightarrow> nat \<Rightarrow> nat option" where
  "nth_char_pos [] c n = None"
| "nth_char_pos (d # s) c n =
     (if d = c then (case n of 0 \<Rightarrow> Some 0 | Suc m \<Rightarrow> map_option Suc (nth_char_pos s c m))
      else map_option Suc (nth_char_pos s c n))"

definition resource_pattern :: "chrono \<Rightarrow> string \<Rightarrow> condition_context \<Rightarrow> piece list option" where
  "resource_pattern ch pattern ctx =
     (let split = (case nth_char_pos pattern (CHR '':'') 4 of Some i \<Rightarrow> i + 1 | None \<Rightarrow> 0)
      in map_option (\<lambda>ps. push_policy_text (take split pattern) @ ps) (expand ch (drop split pattern) ctx))"

section \<open>Text without references\<close>

lemma push_policy_text_pieces: "push_policy_text t = map piece_of (chars t)"
  by (simp add: push_policy_text_def piece_of_def)

lemma expand_plain: "\<not> has_variables t \<Longrightarrow> expand ch t ctx = Some (push_policy_text t)"
  by (simp add: has_variables_def contains_str_def expand_def expand_loop.simps)

lemma to_text_push: "utf8_wf t \<Longrightarrow> to_text (push_policy_text t) = t"
proof -
  have "(case piece_of c of Literal c \<Rightarrow> c | AnyRun \<Rightarrow> 42 | AnyOne \<Rightarrow> 63) = c" for c
    by (simp add: piece_of_def)
  then have "map (\<lambda>p. case p of Literal c \<Rightarrow> c | AnyRun \<Rightarrow> 42 | AnyOne \<Rightarrow> 63) (push_policy_text t) = chars t"
    by (simp add: push_policy_text_pieces comp_def)
  then show "utf8_wf t \<Longrightarrow> to_text (push_policy_text t) = t"
    by (simp add: to_text_def encode_chars)
qed

lemma piece_glob_plain: "piece_glob (push_policy_text p) v False \<longleftrightarrow> wildcard p v"
  by (simp add: piece_glob_exact wildcard_def push_policy_text_pieces)

section \<open>One reference\<close>

lemma find_reference:
  "\<not> has_variables pre \<Longrightarrow> find_str (pre @ ''${'' @ r) ''${'' = Some (length pre)"
proof (induction pre)
  case (Cons c pre)
  have "\<not> has_variables pre" "\<not> starts_with (c # pre) ''${''"
    using Cons.prems by (auto simp: has_variables_def contains_str_def split: if_splits)
  moreover from this(2) have "\<not> starts_with (c # pre @ ''${'' @ r) ''${''"
    by (cases pre) (auto simp: starts_with_def)
  ultimately show ?case using Cons.IH by simp
qed (simp add: starts_with_def)

lemma find_close: "CHR ''}'' \<notin> set inner \<Longrightarrow> find_str (inner @ ''}'' @ r) ''}'' = Some (length inner)"
  by (induction inner) (auto simp: starts_with_def)

lemma expand_one:
  assumes "\<not> has_variables pre" "\<not> has_variables post" "CHR ''}'' \<notin> set inner"
  shows "expand ch (pre @ ''${'' @ inner @ ''}'' @ post) ctx =
    map_option (\<lambda>ps. push_policy_text pre @ ps @ push_policy_text post) (reference_pieces ch ctx inner)"
proof -
  have post: "find_str post ''${'' = None"
    using assms(2) by (simp add: has_variables_def contains_str_def)
  have "find_str (pre @ ''${'' @ inner @ ''}'' @ post) ''${'' = Some (length pre)"
    using assms(1) by (rule find_reference)
  moreover have "drop (length pre + 2) (pre @ ''${'' @ inner @ ''}'' @ post) = inner @ ''}'' @ post" by simp
  moreover have "find_str (inner @ ''}'' @ post) ''}'' = Some (length inner)"
    using assms(3) by (rule find_close)
  ultimately show ?thesis
    unfolding expand_def
    by (subst expand_loop.simps)
      (simp add: Let_def expand_loop.simps [of _ _ _ post] post split: option.splits)
qed

lemma reference_pieces_key:
  assumes "trim key = key" "key \<notin> {''*'', ''?'', ''$''}" "CHR '','' \<notin> set key"
  shows "reference_pieces ch ctx key =
    (case lookup ch ctx key of Some [v] \<Rightarrow> Some (map Literal (chars v)) | _ \<Rightarrow> None)"
proof -
  have "split_default key = (key, None)"
    using assms(3) split_once_None [of key "CHR '',''"] by (simp add: split_default_def)
  with assms(1,2) show ?thesis
    by (simp add: reference_pieces_def Let_def split: option.splits list.splits)
qed

section \<open>What an expanded pattern matches\<close>

lemma piece_glob_substituted:
  "piece_glob (push_policy_text pre @ map Literal (chars v) @ push_policy_text post) x False \<longleftrightarrow>
   (\<exists>a b. chars x = a @ chars v @ b \<and> matches (push_policy_text pre) a \<and> matches (push_policy_text post) b)"
  unfolding piece_glob_exact matches_append matches_Literals by blast

end
