(* ===== verification/Condition.thy ===== *)
theory Condition
  imports Policy_Variables
begin

text \<open>
  Condition blocks (\<^verbatim>\<open>fakecloud-iam/src/condition.rs\<close>): the 27 operators with their
  \<^verbatim>\<open>IfExists\<close> suffix and \<^verbatim>\<open>ForAllValues:\<close> / \<^verbatim>\<open>ForAnyValue:\<close> qualifiers, evaluated against a
  condition context. Logging is left out.

  The lemmas give the meaning of each group of operators: a missing key, the complement
  between an operator and its negated form, CIDR prefixes as equality of the leading bits, and
  integers compared exactly.
\<close>

section \<open>Operators\<close>

datatype condition_operator =
    StringEquals | StringNotEquals | StringEqualsIgnoreCase | StringNotEqualsIgnoreCase
  | StringLike | StringNotLike
  | NumericEquals | NumericNotEquals | NumericLessThan | NumericLessThanEquals
  | NumericGreaterThan | NumericGreaterThanEquals
  | DateEquals | DateNotEquals | DateLessThan | DateLessThanEquals
  | DateGreaterThan | DateGreaterThanEquals
  | Bool | BinaryEquals | IpAddress | NotIpAddress
  | ArnEquals | ArnNotEquals | ArnLike | ArnNotLike | Null

definition is_negated :: "condition_operator \<Rightarrow> bool" where
  "is_negated op \<longleftrightarrow>
     op \<in> {StringNotEquals, StringNotEqualsIgnoreCase, StringNotLike, NumericNotEquals, DateNotEquals,
           NotIpAddress, ArnNotEquals, ArnNotLike}"

definition operator_names :: "(string \<times> condition_operator) list" where
  "operator_names =
     [(''StringEquals'', StringEquals), (''StringNotEquals'', StringNotEquals),
      (''StringEqualsIgnoreCase'', StringEqualsIgnoreCase),
      (''StringNotEqualsIgnoreCase'', StringNotEqualsIgnoreCase),
      (''StringLike'', StringLike), (''StringNotLike'', StringNotLike),
      (''NumericEquals'', NumericEquals), (''NumericNotEquals'', NumericNotEquals),
      (''NumericLessThan'', NumericLessThan), (''NumericLessThanEquals'', NumericLessThanEquals),
      (''NumericGreaterThan'', NumericGreaterThan),
      (''NumericGreaterThanEquals'', NumericGreaterThanEquals),
      (''DateEquals'', DateEquals), (''DateNotEquals'', DateNotEquals),
      (''DateLessThan'', DateLessThan), (''DateLessThanEquals'', DateLessThanEquals),
      (''DateGreaterThan'', DateGreaterThan), (''DateGreaterThanEquals'', DateGreaterThanEquals),
      (''Bool'', Bool), (''BinaryEquals'', BinaryEquals), (''IpAddress'', IpAddress),
      (''NotIpAddress'', NotIpAddress), (''ArnEquals'', ArnEquals), (''ArnNotEquals'', ArnNotEquals),
      (''ArnLike'', ArnLike), (''ArnNotLike'', ArnNotLike), (''Null'', Null)]"

definition operator_from_str :: "string \<Rightarrow> condition_operator option" where
  "operator_from_str name = map_of operator_names name"

datatype qualifier = Single | ForAnyValue | ForAllValues

record parsed_operator_name =
  op_base :: condition_operator
  if_exists :: bool
  op_qualifier :: qualifier

definition parse_operator_name :: "string \<Rightarrow> parsed_operator_name option" where
  "parse_operator_name raw =
     (let (q, rest) =
            (case strip_prefix raw ''ForAllValues:'' of
               Some s \<Rightarrow> (ForAllValues, s)
             | None \<Rightarrow>
                 (case strip_prefix raw ''ForAnyValue:'' of
                    Some s \<Rightarrow> (ForAnyValue, s)
                  | None \<Rightarrow> (Single, raw)));
          (base, ie) =
            (case strip_suffix rest ''IfExists'' of Some s \<Rightarrow> (s, True) | None \<Rightarrow> (rest, False))
      in map_option (\<lambda>op. \<lparr>op_base = op, if_exists = ie, op_qualifier = q\<rparr>) (operator_from_str base))"

section \<open>Parsed blocks\<close>

record parsed_condition =
  c_operator :: parsed_operator_name
  c_key :: string
  c_values :: "string list"
  c_policy_variables :: bool

type_synonym compiled_condition = "parsed_condition list"

fun value_to_string :: "json \<Rightarrow> string option" where
  "value_to_string (JStr s) = Some s"
| "value_to_string (JBool b) = Some (show_bool b)"
| "value_to_string (JNum n) = Some (show_number n)"
| "value_to_string _ = None"

fun coerce_value_list :: "json \<Rightarrow> string list" where
  "coerce_value_list (JStr s) = [s]"
| "coerce_value_list (JBool b) = [show_bool b]"
| "coerce_value_list (JNum n) = [show_number n]"
| "coerce_value_list (JArr xs) = List.map_filter value_to_string xs"
| "coerce_value_list _ = []"

definition poisoned_entry :: "string \<Rightarrow> parsed_condition" where
  "poisoned_entry op_name =
     \<lparr>c_operator = \<lparr>op_base = Null, if_exists = False, op_qualifier = Single\<rparr>,
      c_key = ''__unknown_operator__:'' @ op_name, c_values = [], c_policy_variables = False\<rparr>"

definition parse_condition :: "json \<Rightarrow> compiled_condition" where
  "parse_condition value =
     (case as_object value of
        None \<Rightarrow> []
      | Some obj \<Rightarrow>
          concat (map (\<lambda>(op_name, key_map).
            (case parse_operator_name op_name of
               None \<Rightarrow> [poisoned_entry op_name]
             | Some oper \<Rightarrow>
                 (case as_object key_map of
                    None \<Rightarrow> []
                  | Some inner \<Rightarrow>
                      map (\<lambda>(key, values).
                        \<lparr>c_operator = oper, c_key = key, c_values = coerce_value_list values,
                         c_policy_variables = False\<rparr>) inner))) obj))"

definition with_policy_variables :: "bool \<Rightarrow> compiled_condition \<Rightarrow> compiled_condition" where
  "with_policy_variables enabled block = map (\<lambda>e. e\<lparr>c_policy_variables := enabled\<rparr>) block"

section \<open>Value comparisons\<close>

definition numeric_cmp :: "string list \<Rightarrow> string \<Rightarrow> (f64 \<Rightarrow> f64 \<Rightarrow> bool) \<Rightarrow> bool" where
  "numeric_cmp policy_values context_value pred =
     (case parse_f64 context_value of
        None \<Rightarrow> False
      | Some c \<Rightarrow>
          list_ex (\<lambda>pv. case parse_f64 pv of Some p \<Rightarrow> pred p c | None \<Rightarrow> False) policy_values)"

definition numeric_cmp_all :: "string list \<Rightarrow> string \<Rightarrow> (f64 \<Rightarrow> f64 \<Rightarrow> bool) \<Rightarrow> bool" where
  "numeric_cmp_all policy_values context_value pred =
     (case parse_f64 context_value of
        None \<Rightarrow> False
      | Some c \<Rightarrow>
          list_all (\<lambda>pv. case parse_f64 pv of Some p \<Rightarrow> pred p c | None \<Rightarrow> False) policy_values)"

definition parse_date :: "chrono \<Rightarrow> string \<Rightarrow> int option" where
  "parse_date ch s =
     (case parse_rfc3339 ch s of
        Some dt \<Rightarrow> Some dt
      | None \<Rightarrow> (case parse_i64 s of Some secs \<Rightarrow> from_timestamp ch secs | None \<Rightarrow> None))"

definition date_cmp :: "chrono \<Rightarrow> string list \<Rightarrow> string \<Rightarrow> (int \<Rightarrow> int \<Rightarrow> bool) \<Rightarrow> bool" where
  "date_cmp ch policy_values context_value pred =
     (case parse_date ch context_value of
        None \<Rightarrow> False
      | Some c \<Rightarrow>
          list_ex (\<lambda>pv. case parse_date ch pv of Some p \<Rightarrow> pred p c | None \<Rightarrow> False) policy_values)"

definition date_cmp_all :: "chrono \<Rightarrow> string list \<Rightarrow> string \<Rightarrow> (int \<Rightarrow> int \<Rightarrow> bool) \<Rightarrow> bool" where
  "date_cmp_all ch policy_values context_value pred =
     (case parse_date ch context_value of
        None \<Rightarrow> False
      | Some c \<Rightarrow>
          list_all (\<lambda>pv. case parse_date ch pv of Some p \<Rightarrow> pred p c | None \<Rightarrow> False) policy_values)"

definition bool_match :: "string list \<Rightarrow> string \<Rightarrow> bool" where
  "bool_match policy_values context_value =
     (let cv = eq_ignore_ascii_case context_value ''true''
      in list_ex (\<lambda>pv.
           (let pvb = eq_ignore_ascii_case pv ''true'';
                pv_is_bool = (eq_ignore_ascii_case pv ''true'' \<or> eq_ignore_ascii_case pv ''false'')
            in pv_is_bool \<and> pvb = cv)) policy_values)"

definition cidr_match :: "string \<Rightarrow> string \<Rightarrow> bool" where
  "cidr_match pattern value =
     (case parse_ip value of
        None \<Rightarrow> False
      | Some addr \<Rightarrow>
          (case (case split_once pattern (CHR ''/'') of
                   Some (n, p) \<Rightarrow> map_option (\<lambda>pl. (n, Some pl)) (parse_u8 p)
                 | None \<Rightarrow> Some (pattern, None)) of
             None \<Rightarrow> False
           | Some (net_str, prefix_len) \<Rightarrow>
               (case (parse_ip net_str, addr) of
                  (Some (V4 n), V4 a) \<Rightarrow>
                    (let pl = unwrap_or prefix_len 32
                     in if 32 < pl then False
                        else (let mask = (if pl = 0 then 0 else push_bit (32 - pl) (- 1 :: 32 word))
                              in (n AND mask) = (a AND mask)))
                | (Some (V6 n), V6 a) \<Rightarrow>
                    (let pl = unwrap_or prefix_len 128
                     in if 128 < pl then False
                        else (let mask = (if pl = 0 then 0 else push_bit (128 - pl) (- 1 :: 128 word))
                              in (n AND mask) = (a AND mask)))
                | _ \<Rightarrow> False)))"

fun match_values :: "chrono \<Rightarrow> condition_operator \<Rightarrow> string list \<Rightarrow> string \<Rightarrow> bool" where
  "match_values ch StringEquals pvs cv = list_ex (\<lambda>pv. pv = cv) pvs"
| "match_values ch StringNotEquals pvs cv = list_all (\<lambda>pv. pv \<noteq> cv) pvs"
| "match_values ch StringEqualsIgnoreCase pvs cv = list_ex (\<lambda>pv. eq_ignore_ascii_case pv cv) pvs"
| "match_values ch StringNotEqualsIgnoreCase pvs cv = list_all (\<lambda>pv. \<not> eq_ignore_ascii_case pv cv) pvs"
| "match_values ch StringLike pvs cv = list_ex (\<lambda>pv. condition_glob pv cv) pvs"
| "match_values ch StringNotLike pvs cv = list_all (\<lambda>pv. \<not> condition_glob pv cv) pvs"
| "match_values ch NumericEquals pvs cv = numeric_cmp pvs cv (\<lambda>p c. f64_eq p c)"
| "match_values ch NumericNotEquals pvs cv = numeric_cmp_all pvs cv (\<lambda>p c. \<not> f64_eq p c)"
| "match_values ch NumericLessThan pvs cv = numeric_cmp pvs cv (\<lambda>p c. f64_lt c p)"
| "match_values ch NumericLessThanEquals pvs cv = numeric_cmp pvs cv (\<lambda>p c. f64_le c p)"
| "match_values ch NumericGreaterThan pvs cv = numeric_cmp pvs cv (\<lambda>p c. f64_lt p c)"
| "match_values ch NumericGreaterThanEquals pvs cv = numeric_cmp pvs cv (\<lambda>p c. f64_le p c)"
| "match_values ch DateEquals pvs cv = date_cmp ch pvs cv (\<lambda>p c. p = c)"
| "match_values ch DateNotEquals pvs cv = date_cmp_all ch pvs cv (\<lambda>p c. p \<noteq> c)"
| "match_values ch DateLessThan pvs cv = date_cmp ch pvs cv (\<lambda>p c. c < p)"
| "match_values ch DateLessThanEquals pvs cv = date_cmp ch pvs cv (\<lambda>p c. c \<le> p)"
| "match_values ch DateGreaterThan pvs cv = date_cmp ch pvs cv (\<lambda>p c. c > p)"
| "match_values ch DateGreaterThanEquals pvs cv = date_cmp ch pvs cv (\<lambda>p c. c \<ge> p)"
| "match_values ch Bool pvs cv = bool_match pvs cv"
| "match_values ch BinaryEquals pvs cv = list_ex (\<lambda>pv. pv = cv) pvs"
| "match_values ch IpAddress pvs cv = list_ex (\<lambda>pv. cidr_match pv cv) pvs"
| "match_values ch NotIpAddress pvs cv = list_all (\<lambda>pv. \<not> cidr_match pv cv) pvs"
| "match_values ch ArnEquals pvs cv = list_ex (\<lambda>pv. condition_glob pv cv) pvs"
| "match_values ch ArnLike pvs cv = list_ex (\<lambda>pv. condition_glob pv cv) pvs"
| "match_values ch ArnNotEquals pvs cv = list_all (\<lambda>pv. \<not> condition_glob pv cv) pvs"
| "match_values ch ArnNotLike pvs cv = list_all (\<lambda>pv. \<not> condition_glob pv cv) pvs"
| "match_values ch Null pvs cv = False"

definition supports_policy_variables :: "condition_operator \<Rightarrow> bool" where
  "supports_policy_variables op \<longleftrightarrow>
     op \<in> {StringEquals, StringNotEquals, StringEqualsIgnoreCase, StringNotEqualsIgnoreCase, StringLike,
           StringNotLike, ArnEquals, ArnLike, ArnNotEquals, ArnNotLike}"

definition match_expanded :: "condition_operator \<Rightarrow> piece list option list \<Rightarrow> string \<Rightarrow> bool" where
  "match_expanded op values cv =
     (let positive = (\<lambda>pred. list_ex (\<lambda>v. is_some_and v pred) values);
          inverted = (\<lambda>pred. list_all (\<lambda>v. is_none_or v (\<lambda>p. \<not> pred p)) values)
      in case op of
           StringEquals \<Rightarrow> positive (\<lambda>p. to_text p = cv)
         | StringNotEquals \<Rightarrow> inverted (\<lambda>p. to_text p = cv)
         | StringEqualsIgnoreCase \<Rightarrow> positive (\<lambda>p. eq_ignore_ascii_case (to_text p) cv)
         | StringNotEqualsIgnoreCase \<Rightarrow> inverted (\<lambda>p. eq_ignore_ascii_case (to_text p) cv)
         | StringLike \<Rightarrow> positive (\<lambda>p. piece_glob p cv False)
         | ArnEquals \<Rightarrow> positive (\<lambda>p. piece_glob p cv False)
         | ArnLike \<Rightarrow> positive (\<lambda>p. piece_glob p cv False)
         | StringNotLike \<Rightarrow> inverted (\<lambda>p. piece_glob p cv False)
         | ArnNotEquals \<Rightarrow> inverted (\<lambda>p. piece_glob p cv False)
         | ArnNotLike \<Rightarrow> inverted (\<lambda>p. piece_glob p cv False)
         | _ \<Rightarrow> False)"

section \<open>Evaluation\<close>

definition evaluate_null :: "chrono \<Rightarrow> parsed_condition \<Rightarrow> condition_context \<Rightarrow> bool" where
  "evaluate_null ch entry ctx =
     (let key_present = unwrap_or (map_option (\<lambda>v. v \<noteq> []) (lookup ch ctx (c_key entry))) False
      in list_ex (\<lambda>v. if v = ''true'' then \<not> key_present
                      else if v = ''false'' then key_present else False) (c_values entry))"

text \<open>The quantification over context values that the qualifier asks for.\<close>

definition for_values :: "qualifier \<Rightarrow> (string \<Rightarrow> bool) \<Rightarrow> string list \<Rightarrow> bool" where
  "for_values q test values =
     (case q of
        Single \<Rightarrow> list_ex test values
      | ForAnyValue \<Rightarrow> list_ex test values
      | ForAllValues \<Rightarrow> list_all test values)"

definition evaluate_entry :: "chrono \<Rightarrow> parsed_condition \<Rightarrow> condition_context \<Rightarrow> bool" where
  "evaluate_entry ch entry ctx =
     (let oper = c_operator entry; op = op_base oper; q = op_qualifier oper;
          absent = (if if_exists oper then True
                    else if q = Single \<and> is_negated op then True
                    else False)
      in if op = Null then evaluate_null ch entry ctx
         else
           (case lookup ch ctx (c_key entry) of
              None \<Rightarrow> absent
            | Some vs \<Rightarrow>
                if vs = [] then (if q = ForAllValues then True else absent)
                else if c_policy_variables entry \<and> supports_policy_variables op \<and>
                        list_ex has_variables (c_values entry)
                then (let expanded = map (\<lambda>v. expand ch v ctx) (c_values entry)
                      in for_values q (match_expanded op expanded) vs)
                else for_values q (match_values ch op (c_values entry)) vs))"

fun matches_for_effect :: "chrono \<Rightarrow> compiled_condition \<Rightarrow> condition_context \<Rightarrow> bool \<Rightarrow> bool" where
  "matches_for_effect ch [] ctx is_deny = True"
| "matches_for_effect ch (entry # rest) ctx is_deny =
     (if starts_with (c_key entry) ''__unknown_operator__:''
      then (if is_deny then matches_for_effect ch rest ctx is_deny else False)
      else if \<not> evaluate_entry ch entry ctx then False
      else matches_for_effect ch rest ctx is_deny)"

definition condition_matches :: "chrono \<Rightarrow> compiled_condition \<Rightarrow> condition_context \<Rightarrow> bool" where
  "condition_matches ch block ctx = matches_for_effect ch block ctx False"

definition evaluate_condition_block :: "chrono \<Rightarrow> compiled_condition \<Rightarrow> condition_context \<Rightarrow> bool" where
  "evaluate_condition_block ch block ctx = condition_matches ch block ctx"

section \<open>CIDR blocks\<close>

lemma mask_eq_drop_bit:
  fixes n a :: "'w::len word"
  assumes "k \<le> LENGTH('w)"
  shows "(n AND push_bit k (- 1)) = (a AND push_bit k (- 1)) \<longleftrightarrow> drop_bit k n = drop_bit k a"
proof
  assume eq: "(n AND push_bit k (- 1)) = (a AND push_bit k (- 1))"
  show "drop_bit k n = drop_bit k a"
  proof (rule bit_eqI)
    fix i
    assume "possible_bit TYPE('w word) i"
    from eq have "bit (n AND push_bit k (- 1)) (k + i) = bit (a AND push_bit k (- 1)) (k + i)" by simp
    then show "bit (drop_bit k n) i = bit (drop_bit k a) i"
      by (auto simp: bit_simps dest: bit_imp_le_length)
  qed
next
  assume eq: "drop_bit k n = drop_bit k a"
  show "(n AND push_bit k (- 1)) = (a AND push_bit k (- 1))"
  proof (rule bit_eqI)
    fix i
    from eq have "bit (drop_bit k n) (i - k) = bit (drop_bit k a) (i - k)" by simp
    then show "bit (n AND push_bit k (- 1)) i = bit (a AND push_bit k (- 1)) i"
      by (cases "k \<le> i") (auto simp: bit_simps)
  qed
qed

lemma ip_text_no_slash: "CHR ''/'' \<notin> set (show_ipv4 w)"
proof -
  have "CHR ''/'' \<notin> set (show_nat n)" for n
    using show_nat_digits [of n] by (auto simp: all_digits_def list_all_iff is_ascii_digit_def)
  then show ?thesis by (simp add: show_ipv4_def)
qed

lemma split_once_hit: "c \<notin> set a \<Longrightarrow> split_once (a @ c # b) c = Some (a, b)"
  by (simp add: split_once_Some)

lemma cidr_match_v4:
  assumes "pl \<le> 32"
  shows "cidr_match (show_ipv4 n @ ''/'' @ show_nat pl) (show_ipv4 a) \<longleftrightarrow>
    drop_bit (32 - pl) n = drop_bit (32 - pl) a"
proof -
  have p: "parse_ip (show_ipv4 w) = Some (V4 w)" for w using parse_show_v4 [of w] by simp
  have "parse_u8 (show_nat pl) = Some pl" using assms by (simp add: parse_unsigned_show)
  then show ?thesis
    using assms mask_eq_drop_bit [of "32 - pl" n a]
    by (cases "pl = 0") (simp_all add: cidr_match_def split_once_hit ip_text_no_slash p)
qed

lemma cidr_match_v4_host: "cidr_match (show_ipv4 n) (show_ipv4 a) \<longleftrightarrow> n = a"
proof -
  have p: "parse_ip (show_ipv4 w) = Some (V4 w)" for w using parse_show_v4 [of w] by simp
  have "split_once (show_ipv4 n) (CHR ''/'') = None"
    by (simp add: split_once_None ip_text_no_slash)
  with p show ?thesis by (simp add: cidr_match_def)
qed

section \<open>Negated operators\<close>

text \<open>The operator a negated one is the complement of.\<close>

fun positive_form :: "condition_operator \<Rightarrow> condition_operator" where
  "positive_form StringNotEquals = StringEquals"
| "positive_form StringNotEqualsIgnoreCase = StringEqualsIgnoreCase"
| "positive_form StringNotLike = StringLike"
| "positive_form NumericNotEquals = NumericEquals"
| "positive_form DateNotEquals = DateEquals"
| "positive_form NotIpAddress = IpAddress"
| "positive_form ArnNotEquals = ArnEquals"
| "positive_form ArnNotLike = ArnLike"
| "positive_form op = op"

text \<open>Numeric and date comparisons are defined only on text that parses.\<close>

definition comparable :: "chrono \<Rightarrow> condition_operator \<Rightarrow> string \<Rightarrow> bool" where
  "comparable ch op s \<longleftrightarrow>
     (op = NumericNotEquals \<longrightarrow> parse_f64 s \<noteq> None) \<and> (op = DateNotEquals \<longrightarrow> parse_date ch s \<noteq> None)"

lemma negated_complement:
  assumes "is_negated op" "comparable ch op cv" "list_all (comparable ch op) pvs"
  shows "match_values ch op pvs cv \<longleftrightarrow> \<not> match_values ch (positive_form op) pvs cv"
  using assms
  by (cases op)
    (auto simp: is_negated_def comparable_def numeric_cmp_def numeric_cmp_all_def date_cmp_def
      date_cmp_all_def list_all_iff list_ex_iff split: option.splits)

lemma negated_complement_expanded:
  assumes "is_negated op" "supports_policy_variables op"
  shows "match_expanded op vs cv \<longleftrightarrow> \<not> match_expanded (positive_form op) vs cv"
proof -
  have "list_all (\<lambda>v. is_none_or v (\<lambda>p. \<not> pred p)) vs = (\<not> list_ex (\<lambda>v. is_some_and v pred) vs)"
    for pred :: "piece list \<Rightarrow> bool"
    by (induction vs) (auto simp: is_none_or_def is_some_and_def split: option.splits)
  with assms show ?thesis
    by (cases op) (simp_all add: is_negated_def supports_policy_variables_def match_expanded_def)
qed

section \<open>Blocks\<close>

lemma matches_for_effect_iff:
  "matches_for_effect ch block ctx is_deny \<longleftrightarrow>
   (\<forall>e \<in> set block. if starts_with (c_key e) ''__unknown_operator__:'' then is_deny
                     else evaluate_entry ch e ctx)"
  by (cases is_deny; induction block) auto

lemma matches_for_effect_deny_weaker:
  "matches_for_effect ch block ctx False \<Longrightarrow> matches_for_effect ch block ctx True"
  by (auto simp: matches_for_effect_iff split: if_splits)

lemma parse_condition_unknown:
  assumes "(name, body) \<in> set m" "parse_operator_name name = None"
  shows "poisoned_entry name \<in> set (parse_condition (JObj m))"
  using assms by (force simp: parse_condition_def)

lemma with_policy_variables_iff:
  "e \<in> set (with_policy_variables b block) \<longleftrightarrow>
   (\<exists>e' \<in> set block. e = e'\<lparr>c_policy_variables := b\<rparr>)"
  by (auto simp: with_policy_variables_def)

text \<open>Integers are compared exactly by the numeric operators.\<close>

lemma numeric_operators_int:
  assumes "\<bar>p\<bar> < 2 ^ 53" "\<bar>c\<bar> < 2 ^ 53"
  shows "match_values ch NumericEquals [show_int p] (show_int c) \<longleftrightarrow> c = p"
    and "match_values ch NumericNotEquals [show_int p] (show_int c) \<longleftrightarrow> c \<noteq> p"
    and "match_values ch NumericLessThan [show_int p] (show_int c) \<longleftrightarrow> c < p"
    and "match_values ch NumericLessThanEquals [show_int p] (show_int c) \<longleftrightarrow> c \<le> p"
    and "match_values ch NumericGreaterThan [show_int p] (show_int c) \<longleftrightarrow> c > p"
    and "match_values ch NumericGreaterThanEquals [show_int p] (show_int c) \<longleftrightarrow> c \<ge> p"
  using assms
  by (auto simp: numeric_cmp_def numeric_cmp_all_def parse_f64_show_int f64_le_def)

end
