(* ===== verification/Evaluator.thy ===== *)
theory Evaluator
  imports Condition
begin

text \<open>
  The policy evaluator (\<^verbatim>\<open>fakecloud-iam/src/evaluator.rs\<close>): policy documents, the statement scan,
  and the layers around it (permission boundaries, session policies, service control policies,
  resource policies, the key-policy rule of KMS). Parsing JSON text is the argument
  \<open>from_json\<close>; everything after it is modelled. Logging is left out.

  \<open>scan_policies_eq\<close> characterises the scan by the statements that apply, and the layer lemmas
  reduce every entry point to conjunctions and disjunctions of scans.
\<close>

section \<open>Documents\<close>

datatype decision = Allow | ImplicitDeny | ExplicitDeny

definition decision_is_allow :: "decision \<Rightarrow> bool" where
  "decision_is_allow d \<longleftrightarrow> d = Allow"

record eval_request =
  r_principal :: principal
  r_action :: string
  r_resource :: string
  r_context :: condition_context

datatype principal_ref =
    AnyAws | AwsAccountRoot string | AwsArn string | ServiceRef string | Federated string
  | CanonicalUser string

datatype principal_pattern =
    NoPrincipal | PrincipalIn "principal_ref list" | NotPrincipalIn "principal_ref list"

datatype effect = EffAllow | EffDeny

datatype action_match = Action "string list" | NotAction "string list"

datatype resource_match = Resource "string list" | NotResource "string list" | Implicit

record parsed_statement =
  s_effect :: effect
  s_action :: action_match
  s_resource :: resource_match
  s_condition :: "compiled_condition option"
  s_principal :: principal_pattern
  s_variables :: bool

type_synonym policy_document = "parsed_statement list"

section \<open>Parsing documents\<close>

fun coerce_string_list :: "json \<Rightarrow> string list" where
  "coerce_string_list (JStr s) = [s]"
| "coerce_string_list (JArr xs) = List.map_filter as_str xs"
| "coerce_string_list _ = []"

definition classify_aws_principal :: "string \<Rightarrow> principal_ref" where
  "classify_aws_principal s =
     (if s = ''*'' then AnyAws
      else
        (let rest = Option.bind (strip_prefix s ''arn:'') (\<lambda>r.
               Option.bind (split_once r (CHR '':'')) (\<lambda>(partition, r2). strip_prefix r2 ''iam::''));
             root = Option.bind rest (\<lambda>r.
               Option.bind (split_once r (CHR '':'')) (\<lambda>(account, tail).
                 if tail = ''root'' \<and> account \<noteq> [] then Some account else None))
         in case root of
              Some account \<Rightarrow> AwsAccountRoot account
            | None \<Rightarrow>
                if length s = 12 \<and> list_all is_ascii_digit s then AwsAccountRoot s else AwsArn s))"

fun parse_principal :: "json \<Rightarrow> principal_ref list" where
  "parse_principal (JStr s) = (if s = ''*'' then [AnyAws] else [])"
| "parse_principal (JObj m) =
     concat (map (\<lambda>(key, v).
       if key = ''AWS'' then map classify_aws_principal (coerce_string_list v)
       else if key = ''Service'' then map ServiceRef (coerce_string_list v)
       else if key = ''Federated'' then map Federated (coerce_string_list v)
       else if key = ''CanonicalUser'' then map CanonicalUser (coerce_string_list v)
       else []) m)"
| "parse_principal _ = []"

definition parse_effect :: "string \<Rightarrow> effect option" where
  "parse_effect e = (if e = ''Allow'' then Some EffAllow else if e = ''Deny'' then Some EffDeny else None)"

definition parse_statement :: "json \<Rightarrow> bool \<Rightarrow> parsed_statement option" where
  "parse_statement value variables =
     Option.bind (as_object value) (\<lambda>obj.
     Option.bind (Option.bind (map_of obj ''Effect'') as_str) (\<lambda>e.
     Option.bind (parse_effect e) (\<lambda>eff.
     Option.bind
       (case map_of obj ''Action'' of
          Some a \<Rightarrow> Some (Action (coerce_string_list a))
        | None \<Rightarrow> map_option (\<lambda>na. NotAction (coerce_string_list na)) (map_of obj ''NotAction'')) (\<lambda>act.
     Some
       \<lparr>s_effect = eff,
        s_action = act,
        s_resource =
          (case map_of obj ''Resource'' of
             Some r \<Rightarrow> Resource (coerce_string_list r)
           | None \<Rightarrow>
               (case map_of obj ''NotResource'' of
                  Some nr \<Rightarrow> NotResource (coerce_string_list nr)
                | None \<Rightarrow> Implicit)),
        s_condition =
          map_option (\<lambda>c. with_policy_variables variables (parse_condition c)) (map_of obj ''Condition''),
        s_principal =
          (case map_of obj ''NotPrincipal'' of
             Some np \<Rightarrow> NotPrincipalIn (parse_principal np)
           | None \<Rightarrow>
               (case map_of obj ''Principal'' of
                  Some p \<Rightarrow> PrincipalIn (parse_principal p)
                | None \<Rightarrow> NoPrincipal)),
        s_variables = variables\<rparr>))))"

definition from_value :: "json \<Rightarrow> policy_document" where
  "from_value value =
     (let variables = (Option.bind (json_get value ''Version'') as_str = Some ''2012-10-17'')
      in case json_get value ''Statement'' of
           Some (JArr arr) \<Rightarrow> List.map_filter (\<lambda>s. parse_statement s variables) arr
         | Some (JObj m) \<Rightarrow> (case parse_statement (JObj m) variables of Some s \<Rightarrow> [s] | None \<Rightarrow> [])
         | _ \<Rightarrow> [])"

definition parse_document :: "(string \<Rightarrow> json option) \<Rightarrow> string \<Rightarrow> policy_document" where
  "parse_document from_json text =
     (case from_json text of Some v \<Rightarrow> from_value v | None \<Rightarrow> [])"

definition statement_count :: "policy_document \<Rightarrow> nat" where
  "statement_count doc = length doc"

section \<open>Matching one statement\<close>

definition iam_glob_match :: "string \<Rightarrow> string \<Rightarrow> bool \<Rightarrow> bool" where
  "iam_glob_match pattern value is_action =
     (if is_action then
        (case (split_once pattern (CHR '':''), split_once value (CHR '':'')) of
           (Some (p_svc, p_act), Some (v_svc, v_act)) \<Rightarrow>
             (if \<not> glob_match (to_ascii_lowercase p_svc) (to_ascii_lowercase v_svc) then False
              else glob_match (to_ascii_lowercase p_act) (to_ascii_lowercase v_act))
         | _ \<Rightarrow> glob_match pattern value)
      else glob_match pattern value)"

fun action_matches :: "action_match \<Rightarrow> string \<Rightarrow> bool" where
  "action_matches (Action patterns) req = list_ex (\<lambda>p. iam_glob_match p req True) patterns"
| "action_matches (NotAction patterns) req =
     (patterns \<noteq> [] \<and> list_all (\<lambda>p. \<not> iam_glob_match p req True) patterns)"

definition resource_matches :: "chrono \<Rightarrow> parsed_statement \<Rightarrow> string \<Rightarrow> condition_context \<Rightarrow> bool" where
  "resource_matches ch st req ctx =
     (let pattern_matches = (\<lambda>p.
            if s_variables st \<and> has_variables p
            then is_some_and (resource_pattern ch p ctx) (\<lambda>pieces. piece_glob pieces req False)
            else iam_glob_match p req False)
      in case s_resource st of
           Resource patterns \<Rightarrow> list_ex pattern_matches patterns
         | NotResource patterns \<Rightarrow> patterns \<noteq> [] \<and> list_all (\<lambda>p. \<not> pattern_matches p) patterns
         | Implicit \<Rightarrow> True)"

definition principal_is_canonical_user :: "principal \<Rightarrow> string \<Rightarrow> bool" where
  "principal_is_canonical_user p cid \<longleftrightarrow>
     cid \<noteq> [] \<and> list_all is_ascii_hexdigit cid \<and> eq_ignore_ascii_case (p_user_id p) cid"

definition principal_is_federated :: "principal \<Rightarrow> string \<Rightarrow> bool" where
  "principal_is_federated p provider \<longleftrightarrow> p_type p = FederatedUser \<and> p_arn p = provider"

definition arn_denotes_service :: "string \<Rightarrow> string \<Rightarrow> bool" where
  "arn_denotes_service a svc = contains_str a (''aws-service-role/'' @ svc)"

definition principal_is_service :: "principal \<Rightarrow> string \<Rightarrow> bool" where
  "principal_is_service p svc =
     (case p_type p of
        Service \<Rightarrow> eq_ignore_ascii_case (p_arn p) svc
      | AssumedRole \<Rightarrow> arn_denotes_service (p_arn p) svc
      | _ \<Rightarrow> False)"

fun ref_matches :: "bool \<Rightarrow> principal \<Rightarrow> principal_ref \<Rightarrow> bool" where
  "ref_matches ignore_account_wide p AnyAws = (\<not> ignore_account_wide)"
| "ref_matches ignore_account_wide p (AwsAccountRoot account) =
     (\<not> ignore_account_wide \<and> p_account_id p = account)"
| "ref_matches ignore_account_wide p (AwsArn a) = (p_arn p = a)"
| "ref_matches ignore_account_wide p (ServiceRef svc) = principal_is_service p svc"
| "ref_matches ignore_account_wide p (Federated provider) = principal_is_federated p provider"
| "ref_matches ignore_account_wide p (CanonicalUser cid) = principal_is_canonical_user p cid"

definition principal_matches_scoped :: "principal_ref list \<Rightarrow> principal \<Rightarrow> bool \<Rightarrow> bool" where
  "principal_matches_scoped refs p ignore_account_wide = list_ex (ref_matches ignore_account_wide p) refs"

definition principal_matches :: "principal_ref list \<Rightarrow> principal \<Rightarrow> bool" where
  "principal_matches refs p = principal_matches_scoped refs p False"

text \<open>Every \<^verbatim>\<open>continue\<close> of the statement loop, negated.\<close>

definition principal_gate :: "parsed_statement \<Rightarrow> principal \<Rightarrow> bool \<Rightarrow> bool \<Rightarrow> bool" where
  "principal_gate st p is_resource_policy ignore_account_wide =
     (case s_principal st of
        NoPrincipal \<Rightarrow> \<not> is_resource_policy
      | PrincipalIn refs \<Rightarrow> principal_matches_scoped refs p ignore_account_wide
      | NotPrincipalIn refs \<Rightarrow> refs \<noteq> [] \<and> \<not> principal_matches refs p)"

definition applies :: "chrono \<Rightarrow> eval_request \<Rightarrow> bool \<Rightarrow> bool \<Rightarrow> parsed_statement \<Rightarrow> bool" where
  "applies ch req is_resource_policy ignore_account_wide st \<longleftrightarrow>
     principal_gate st (r_principal req) is_resource_policy ignore_account_wide \<and>
     action_matches (s_action st) (r_action req) \<and>
     resource_matches ch st (r_resource req) (r_context req) \<and>
     is_none_or (s_condition st) (\<lambda>c. matches_for_effect ch c (r_context req) (s_effect st = EffDeny))"

section \<open>Scanning policies\<close>

text \<open>The inner loop; \<open>None\<close> is the early return of an explicit deny.\<close>

fun scan_statements ::
  "chrono \<Rightarrow> eval_request \<Rightarrow> bool \<Rightarrow> bool \<Rightarrow> bool \<Rightarrow> parsed_statement list \<Rightarrow> bool option" where
  "scan_statements ch req isr iaw allowed [] = Some allowed"
| "scan_statements ch req isr iaw allowed (st # sts) =
     (if \<not> applies ch req isr iaw st then scan_statements ch req isr iaw allowed sts
      else (case s_effect st of
              EffDeny \<Rightarrow> None
            | EffAllow \<Rightarrow> scan_statements ch req isr iaw True sts))"

fun scan_policies :: "chrono \<Rightarrow> eval_request \<Rightarrow> bool \<Rightarrow> bool \<Rightarrow> bool \<Rightarrow> policy_document list \<Rightarrow> decision" where
  "scan_policies ch req isr iaw allowed [] = (if allowed then Allow else ImplicitDeny)"
| "scan_policies ch req isr iaw allowed (doc # docs) =
     (case scan_statements ch req isr iaw allowed doc of
        None \<Rightarrow> ExplicitDeny
      | Some a \<Rightarrow> scan_policies ch req isr iaw a docs)"

definition evaluate_inner_scoped ::
  "chrono \<Rightarrow> policy_document list \<Rightarrow> eval_request \<Rightarrow> bool \<Rightarrow> bool \<Rightarrow> decision" where
  "evaluate_inner_scoped ch policies req is_resource_policy ignore_account_wide =
     scan_policies ch req is_resource_policy ignore_account_wide False policies"

definition evaluate_inner :: "chrono \<Rightarrow> policy_document list \<Rightarrow> eval_request \<Rightarrow> bool \<Rightarrow> decision" where
  "evaluate_inner ch policies req is_resource_policy =
     evaluate_inner_scoped ch policies req is_resource_policy False"

definition matching_identity_statements :: "chrono \<Rightarrow> policy_document \<Rightarrow> eval_request \<Rightarrow> bool \<Rightarrow> nat" where
  "matching_identity_statements ch doc req allow =
     (let want = (if allow then EffAllow else EffDeny)
      in length (filter (\<lambda>st.
           s_principal st = NoPrincipal \<and> s_effect st = want \<and>
           action_matches (s_action st) (r_action req) \<and>
           resource_matches ch st (r_resource req) (r_context req) \<and>
           is_none_or (s_condition st) (\<lambda>c. matches_for_effect ch c (r_context req) (\<not> allow))) doc))"

section \<open>Layers\<close>

fun scp_loop :: "chrono \<Rightarrow> eval_request \<Rightarrow> bool \<Rightarrow> policy_document list \<Rightarrow> decision" where
  "scp_loop ch req all_allow [] = (if all_allow then Allow else ImplicitDeny)"
| "scp_loop ch req all_allow (doc # docs) =
     (case evaluate_inner ch [doc] req False of
        ExplicitDeny \<Rightarrow> ExplicitDeny
      | Allow \<Rightarrow> scp_loop ch req all_allow docs
      | ImplicitDeny \<Rightarrow> scp_loop ch req False docs)"

definition evaluate_scp_chain :: "chrono \<Rightarrow> policy_document list \<Rightarrow> eval_request \<Rightarrow> decision" where
  "evaluate_scp_chain ch scps req = (if scps = [] then ImplicitDeny else scp_loop ch req True scps)"

definition intersect_layers ::
  "chrono \<Rightarrow> decision \<Rightarrow> policy_document list option \<Rightarrow> policy_document list option \<Rightarrow>
   policy_document list option \<Rightarrow> eval_request \<Rightarrow> decision" where
  "intersect_layers ch identity_decision boundary session scps req =
     (if identity_decision = ExplicitDeny then ExplicitDeny
      else
        (let scp_decision = map_option (\<lambda>docs. evaluate_scp_chain ch docs req) scps
         in if scp_decision = Some ExplicitDeny then ExplicitDeny
            else
              (let boundary_decision = map_option (\<lambda>docs. evaluate_inner ch docs req False) boundary
               in if boundary_decision = Some ExplicitDeny then ExplicitDeny
                  else
                    (let session_decision = map_option (\<lambda>docs. evaluate_inner ch docs req False) session
                     in if session_decision = Some ExplicitDeny then ExplicitDeny
                        else
                          (let allows = (\<lambda>d. unwrap_or (map_option (\<lambda>x. x = Allow) d) True)
                           in if identity_decision = Allow \<and> allows boundary_decision \<and>
                                 allows session_decision \<and> allows scp_decision
                              then Allow else ImplicitDeny)))))"

definition evaluate_with_gates_and_scps ::
  "chrono \<Rightarrow> policy_document list \<Rightarrow> policy_document list option \<Rightarrow> policy_document list option \<Rightarrow>
   policy_document list option \<Rightarrow> eval_request \<Rightarrow> decision" where
  "evaluate_with_gates_and_scps ch identity boundary session scps req =
     intersect_layers ch (evaluate_inner ch identity req False) boundary session scps req"

definition evaluate_with_gates ::
  "chrono \<Rightarrow> policy_document list \<Rightarrow> policy_document list option \<Rightarrow> policy_document list option \<Rightarrow>
   eval_request \<Rightarrow> decision" where
  "evaluate_with_gates ch identity boundary session req =
     evaluate_with_gates_and_scps ch identity boundary session None req"

definition evaluate :: "chrono \<Rightarrow> policy_document list \<Rightarrow> eval_request \<Rightarrow> decision" where
  "evaluate ch policies req = evaluate_with_gates ch policies None None req"

definition evaluate_resource_policy_only :: "chrono \<Rightarrow> policy_document \<Rightarrow> eval_request \<Rightarrow> decision" where
  "evaluate_resource_policy_only ch policy req = evaluate_inner ch [policy] req True"

definition evaluate_kms_same_account :: "chrono \<Rightarrow> policy_document \<Rightarrow> decision \<Rightarrow> eval_request \<Rightarrow> decision" where
  "evaluate_kms_same_account ch key_policy identity_gated req =
     (let full = evaluate_inner_scoped ch [key_policy] req True False
      in if full = ExplicitDeny then ExplicitDeny
         else
           (let direct = evaluate_inner_scoped ch [key_policy] req True True
            in if direct = Allow then Allow
               else if full = Allow \<and> identity_gated = Allow then Allow
               else ImplicitDeny))"

definition is_kms_action :: "string \<Rightarrow> bool" where
  "is_kms_action act = is_some_and (split_once act (CHR '':'')) (\<lambda>(svc, _). eq_ignore_ascii_case svc ''kms'')"

definition evaluate_with_resource_policy_and_gates_and_scps ::
  "chrono \<Rightarrow> policy_document list \<Rightarrow> policy_document list option \<Rightarrow> policy_document list option \<Rightarrow>
   policy_document list option \<Rightarrow> policy_document option \<Rightarrow> eval_request \<Rightarrow> string \<Rightarrow> decision" where
  "evaluate_with_resource_policy_and_gates_and_scps ch identity boundary session scps resource_policy
       req resource_account_id =
     (let identity_raw = evaluate_inner ch identity req False
      in if identity_raw = ExplicitDeny then ExplicitDeny
         else
           (let identity_gated = intersect_layers ch identity_raw boundary session scps req;
                same_account = (p_account_id (r_principal req) = resource_account_id)
            in if identity_gated = ExplicitDeny then ExplicitDeny
               else if same_account \<and> is_kms_action (r_action req) \<and> resource_policy \<noteq> None
               then evaluate_kms_same_account ch (the resource_policy) identity_gated req
               else if resource_policy = None \<and> same_account then identity_gated
               else
                 (let res = (case resource_policy of
                               Some policy \<Rightarrow> evaluate_inner ch [policy] req True
                             | None \<Rightarrow> ImplicitDeny)
                  in if res = ExplicitDeny then ExplicitDeny
                     else if (if same_account then identity_gated = Allow \<or> res = Allow
                              else identity_gated = Allow \<and> res = Allow)
                     then Allow else ImplicitDeny)))"

definition evaluate_with_resource_policy_and_gates ::
  "chrono \<Rightarrow> policy_document list \<Rightarrow> policy_document list option \<Rightarrow> policy_document list option \<Rightarrow>
   policy_document option \<Rightarrow> eval_request \<Rightarrow> string \<Rightarrow> decision" where
  "evaluate_with_resource_policy_and_gates ch identity boundary session resource_policy req acct =
     evaluate_with_resource_policy_and_gates_and_scps ch identity boundary session None resource_policy
       req acct"

definition evaluate_with_resource_policy ::
  "chrono \<Rightarrow> policy_document list \<Rightarrow> policy_document option \<Rightarrow> eval_request \<Rightarrow> string \<Rightarrow> decision" where
  "evaluate_with_resource_policy ch identity resource_policy req acct =
     evaluate_with_resource_policy_and_gates ch identity None None resource_policy req acct"

section \<open>Facts about the scan\<close>

definition denies :: "chrono \<Rightarrow> eval_request \<Rightarrow> bool \<Rightarrow> bool \<Rightarrow> parsed_statement \<Rightarrow> bool" where
  "denies ch req isr iaw st \<longleftrightarrow> applies ch req isr iaw st \<and> s_effect st = EffDeny"

definition grants :: "chrono \<Rightarrow> eval_request \<Rightarrow> bool \<Rightarrow> bool \<Rightarrow> parsed_statement \<Rightarrow> bool" where
  "grants ch req isr iaw st \<longleftrightarrow> applies ch req isr iaw st \<and> s_effect st = EffAllow"

lemma scan_statements_eq:
  "scan_statements ch req isr iaw allowed sts =
   (if \<exists>st \<in> set sts. denies ch req isr iaw st then None
    else Some (allowed \<or> (\<exists>st \<in> set sts. grants ch req isr iaw st)))"
  by (induction sts arbitrary: allowed) (auto simp: denies_def grants_def split: effect.splits)

lemma scan_policies_eq:
  "scan_policies ch req isr iaw allowed docs =
   (if \<exists>st \<in> set (concat docs). denies ch req isr iaw st then ExplicitDeny
    else if allowed \<or> (\<exists>st \<in> set (concat docs). grants ch req isr iaw st) then Allow
    else ImplicitDeny)"
proof (induction docs arbitrary: allowed)
  case (Cons doc docs)
  show ?case
  proof (cases "\<exists>st \<in> set doc. denies ch req isr iaw st")
    case True
    then show ?thesis by (auto simp: scan_statements_eq)
  next
    case False
    then have "scan_statements ch req isr iaw allowed doc =
        Some (allowed \<or> (\<exists>st \<in> set doc. grants ch req isr iaw st))"
      by (simp add: scan_statements_eq)
    then show ?thesis using False by (auto simp: Cons.IH)
  qed
qed simp

lemma evaluate_inner_scoped_eq:
  "evaluate_inner_scoped ch docs req isr iaw =
   (if \<exists>st \<in> set (concat docs). denies ch req isr iaw st then ExplicitDeny
    else if \<exists>st \<in> set (concat docs). grants ch req isr iaw st then Allow
    else ImplicitDeny)"
  by (simp add: evaluate_inner_scoped_def scan_policies_eq)

lemmas evaluate_inner_eq = evaluate_inner_def [unfolded evaluate_inner_scoped_eq]

lemma evaluate_inner_cong:
  "set (concat docs) = set (concat docs') \<Longrightarrow> evaluate_inner ch docs req isr = evaluate_inner ch docs' req isr"
  by (simp only: evaluate_inner_eq)

lemma evaluate_inner_Nil [simp]: "evaluate_inner ch [] req isr = ImplicitDeny"
  by (simp add: evaluate_inner_eq)

section \<open>Facts about the layers\<close>

lemma scp_loop_eq:
  "scp_loop ch req all_allow docs =
   (if \<exists>doc \<in> set docs. evaluate_inner ch [doc] req False = ExplicitDeny then ExplicitDeny
    else if all_allow \<and> (\<forall>doc \<in> set docs. evaluate_inner ch [doc] req False = Allow) then Allow
    else ImplicitDeny)"
  by (induction docs arbitrary: all_allow) (auto split: decision.splits)

lemma evaluate_scp_chain_Allow:
  "evaluate_scp_chain ch scps req = Allow \<longleftrightarrow>
   scps \<noteq> [] \<and> (\<forall>doc \<in> set scps. evaluate_inner ch [doc] req False = Allow)"
  by (auto simp: evaluate_scp_chain_def scp_loop_eq)

lemma evaluate_scp_chain_ExplicitDeny:
  "evaluate_scp_chain ch scps req = ExplicitDeny \<longleftrightarrow>
   (\<exists>doc \<in> set scps. evaluate_inner ch [doc] req False = ExplicitDeny)"
  by (auto simp: evaluate_scp_chain_def scp_loop_eq)

lemma intersect_layers_Allow:
  "intersect_layers ch d boundary session scps req = Allow \<longleftrightarrow>
   d = Allow \<and>
   (\<forall>docs. boundary = Some docs \<longrightarrow> evaluate_inner ch docs req False = Allow) \<and>
   (\<forall>docs. session = Some docs \<longrightarrow> evaluate_inner ch docs req False = Allow) \<and>
   (\<forall>docs. scps = Some docs \<longrightarrow> evaluate_scp_chain ch docs req = Allow)"
  by (cases boundary; cases session; cases scps) (auto simp: intersect_layers_def Let_def)

lemma intersect_layers_ExplicitDeny:
  "intersect_layers ch d boundary session scps req = ExplicitDeny \<longleftrightarrow>
   d = ExplicitDeny \<or>
   (\<exists>docs. boundary = Some docs \<and> evaluate_inner ch docs req False = ExplicitDeny) \<or>
   (\<exists>docs. session = Some docs \<and> evaluate_inner ch docs req False = ExplicitDeny) \<or>
   (\<exists>docs. scps = Some docs \<and> evaluate_scp_chain ch docs req = ExplicitDeny)"
  by (cases boundary; cases session; cases scps) (auto simp: intersect_layers_def Let_def)

lemma evaluate_eq_inner: "evaluate ch docs req = evaluate_inner ch docs req False"
  by (cases "evaluate_inner ch docs req False")
    (auto simp: evaluate_def evaluate_with_gates_def evaluate_with_gates_and_scps_def
      intersect_layers_def)

lemmas layer_facts = intersect_layers_Allow intersect_layers_ExplicitDeny evaluate_scp_chain_Allow
  evaluate_scp_chain_ExplicitDeny

section \<open>Actions\<close>

lemma split_once_lower:
  "split_once (to_ascii_lowercase s) (CHR '':'') =
   map_option (\<lambda>(a, b). (to_ascii_lowercase a, to_ascii_lowercase b)) (split_once s (CHR '':''))"
proof (induction s)
  case (Cons c s)
  have "ascii_lower c = CHR '':'' \<longleftrightarrow> c = CHR '':''"
  proof
    assume "ascii_lower c = CHR '':''"
    then have "(of_char (ascii_lower c) :: nat) = 58" by simp
    then have "(of_char c :: nat) = of_char (CHR '':'')"
      by (auto simp: ascii_lower_def Let_def split: if_splits)
    then show "c = CHR '':''" by (simp only: of_char_eq_iff)
  qed (simp add: ascii_lower_def)
  with Cons show ?case
    by (cases "split_once s (CHR '':'')") (auto simp: to_ascii_lowercase_def)
qed (simp add: to_ascii_lowercase_def)

lemma iam_glob_match_case:
  assumes "eq_ignore_ascii_case p p'" "eq_ignore_ascii_case v v'" "CHR '':'' \<in> set p" "CHR '':'' \<in> set v"
  shows "iam_glob_match p v True = iam_glob_match p' v' True"
proof -
  have lower: "to_ascii_lowercase p = to_ascii_lowercase p'" "to_ascii_lowercase v = to_ascii_lowercase v'"
    using assms(1,2) by (simp_all add: eq_ignore_ascii_case_def)
  obtain a b c d where p: "split_once p (CHR '':'') = Some (a, b)" and v: "split_once v (CHR '':'') = Some (c, d)"
    using assms(3,4) split_once_None [of p "CHR '':''"] split_once_None [of v "CHR '':''"] by fastforce
  obtain a' b' where p': "split_once p' (CHR '':'') = Some (a', b')"
    and ab: "to_ascii_lowercase a = to_ascii_lowercase a'" "to_ascii_lowercase b = to_ascii_lowercase b'"
    using split_once_lower [of p] split_once_lower [of p'] lower(1) p
    by (cases "split_once p' (CHR '':'')") auto
  obtain c' d' where v': "split_once v' (CHR '':'') = Some (c', d')"
    and cd: "to_ascii_lowercase c = to_ascii_lowercase c'" "to_ascii_lowercase d = to_ascii_lowercase d'"
    using split_once_lower [of v] split_once_lower [of v'] lower(2) v
    by (cases "split_once v' (CHR '':'')") auto
  show ?thesis by (simp add: iam_glob_match_def p v p' v' ab cd)
qed

lemma empty_negative_lists [simp]:
  "\<not> action_matches (NotAction []) a" "s_resource st = NotResource [] \<Longrightarrow> \<not> resource_matches ch st r ctx"
  by (simp_all add: resource_matches_def)

end
