(* ===== verification/Arn.thy ===== *)
theory Arn
  imports Prelude "HOL-Library.Word"
begin

text \<open>
  Amazon resource names (\<^verbatim>\<open>fakecloud-aws/src/arn.rs\<close>): construction, printing, parsing and the
  field accessors that route a request to an account and a region.
  \<open>arn_parse_print\<close> and \<open>arn_print_parse\<close> are the two directions of the round trip;
  \<open>account_region_of_print\<close> says the accessors read what the constructor wrote.
\<close>

unbundle bit_operations_syntax

record arn_t =
  a_partition :: string
  a_service :: string
  a_region :: string
  a_account_id :: string
  a_resource :: string

definition partitions :: "string list" where
  "partitions = [''aws'', ''aws-cn'', ''aws-us-gov'', ''aws-iso'', ''aws-iso-b'', ''aws-iso-f'', ''aws-iso-e'']"

definition partition_for :: "string \<Rightarrow> string" where
  "partition_for rgn =
     (if starts_with rgn ''cn-'' then ''aws-cn''
      else if starts_with rgn ''us-gov-'' then ''aws-us-gov''
      else if starts_with rgn ''us-iso-'' then ''aws-iso''
      else if starts_with rgn ''us-isob-'' then ''aws-iso-b''
      else if starts_with rgn ''us-isof-'' then ''aws-iso-f''
      else if starts_with rgn ''eu-isoe-'' then ''aws-iso-e''
      else ''aws'')"

definition implicit_global_region :: "string \<Rightarrow> string" where
  "implicit_global_region p =
     (if p = ''aws-cn'' then ''cn-northwest-1''
      else if p = ''aws-us-gov'' then ''us-gov-west-1''
      else if p = ''aws-iso'' then ''us-iso-east-1''
      else if p = ''aws-iso-b'' then ''us-isob-east-1''
      else if p = ''aws-iso-f'' then ''us-isof-south-1''
      else if p = ''aws-iso-e'' then ''eu-isoe-west-1''
      else ''us-east-1'')"

definition arn_new :: "string \<Rightarrow> string \<Rightarrow> string \<Rightarrow> string \<Rightarrow> arn_t" where
  "arn_new svc rgn acct res =
     \<lparr>a_partition = ''aws'', a_service = svc, a_region = rgn, a_account_id = acct, a_resource = res\<rparr>"

definition with_partition :: "string \<Rightarrow> arn_t \<Rightarrow> arn_t" where
  "with_partition p a = a\<lparr>a_partition := p\<rparr>"

definition arn_regional :: "string \<Rightarrow> string \<Rightarrow> string \<Rightarrow> string \<Rightarrow> arn_t" where
  "arn_regional svc rgn acct res = with_partition (partition_for rgn) (arn_new svc rgn acct res)"

definition arn_global :: "string \<Rightarrow> string \<Rightarrow> string \<Rightarrow> arn_t" where
  "arn_global svc acct res = arn_new svc [] acct res"

definition arn_global_in :: "string \<Rightarrow> string \<Rightarrow> string \<Rightarrow> string \<Rightarrow> arn_t" where
  "arn_global_in rgn svc acct res = with_partition (partition_for rgn) (arn_new svc [] acct res)"

definition arn_s3 :: "string \<Rightarrow> arn_t" where
  "arn_s3 res =
     \<lparr>a_partition = ''aws'', a_service = ''s3'', a_region = [], a_account_id = [], a_resource = res\<rparr>"

definition arn_s3_in :: "string \<Rightarrow> string \<Rightarrow> arn_t" where
  "arn_s3_in rgn res = with_partition (partition_for rgn) (arn_s3 res)"

definition arn_s3_access_point :: "string \<Rightarrow> string \<Rightarrow> string \<Rightarrow> arn_t" where
  "arn_s3_access_point rgn acct name =
     \<lparr>a_partition = partition_for rgn, a_service = ''s3'', a_region = rgn, a_account_id = acct,
      a_resource = ''accesspoint/'' @ name\<rparr>"

definition arn_to_string :: "arn_t \<Rightarrow> string" where
  "arn_to_string a =
     ''arn:'' @ a_partition a @ '':'' @ a_service a @ '':'' @ a_region a @ '':'' @ a_account_id a @ '':'' @
     a_resource a"

text \<open>\<^verbatim>\<open>s.splitn(n, c)\<close> for \<open>n > 0\<close>.\<close>

fun splitn :: "nat \<Rightarrow> string \<Rightarrow> char \<Rightarrow> string list" where
  "splitn 0 s c = []"
| "splitn (Suc 0) s c = [s]"
| "splitn (Suc (Suc n)) s c =
     (case split_once s c of None \<Rightarrow> [s] | Some (a, b) \<Rightarrow> a # splitn (Suc n) b c)"

text \<open>The error is the rejected text (\<^verbatim>\<open>ArnParseError\<close>).\<close>

definition arn_from_str :: "string \<Rightarrow> string + arn_t" where
  "arn_from_str s =
     (case splitn 6 s (CHR '':'') of
        [p0, p1, p2, p3, p4, p5] \<Rightarrow>
          if p0 \<noteq> ''arn'' then Inl s
          else Inr \<lparr>a_partition = p1, a_service = p2, a_region = p3, a_account_id = p4, a_resource = p5\<rparr>
      | _ \<Rightarrow> Inl s)"

definition nth_opt :: "'a list \<Rightarrow> nat \<Rightarrow> 'a option" where
  "nth_opt xs i = (if i < length xs then Some (xs ! i) else None)"

definition arn_resource :: "string \<Rightarrow> string \<Rightarrow> string option" where
  "arn_resource a svc =
     Option.bind (strip_prefix a ''arn:'') (\<lambda>r.
     Option.bind (split_once r (CHR '':'')) (\<lambda>(partition, rest).
     if partition \<notin> set partitions then None
     else Option.bind (strip_prefix rest svc) (\<lambda>t. strip_prefix t '':'')))"

definition account_of :: "string \<Rightarrow> string option" where
  "account_of a =
     Option.bind (strip_prefix a ''arn:'') (\<lambda>rest.
       opt_filter (\<lambda>x. x \<noteq> []) (nth_opt (split_char rest (CHR '':'')) 3))"

definition region_of :: "string \<Rightarrow> string option" where
  "region_of a =
     Option.bind (strip_prefix a ''arn:'') (\<lambda>rest.
       opt_filter (\<lambda>x. x \<noteq> []) (nth_opt (split_char rest (CHR '':'')) 2))"

definition partition_of :: "string \<Rightarrow> string" where
  "partition_of a =
     unwrap_or (opt_filter (\<lambda>x. x \<noteq> []) (nth_opt (split_char a (CHR '':'')) 1)) ''aws''"

text \<open>FNV-1a over the bytes, then 17 base32 characters of rotations of the hash.\<close>

definition fnv1a :: "string \<Rightarrow> 64 word" where
  "fnv1a s = foldl (\<lambda>h b. (h XOR of_nat (of_char b)) * 0x00000100000001b3) 0xcbf29ce484222325 s"

definition base32_alphabet :: string where
  "base32_alphabet = ''ABCDEFGHIJKLMNOPQRSTUVWXYZ234567''"

definition unique_id_for :: "string \<Rightarrow> string \<Rightarrow> string" where
  "unique_id_for prefix a =
     (let hash = fnv1a a
      in prefix @ map (\<lambda>i. base32_alphabet ! (unat (word_rotl (i * 5) hash) mod length base32_alphabet)) [0..<17])"

section \<open>Round trips\<close>

lemma splitn_sep:
  "c \<notin> set a \<Longrightarrow> splitn (Suc (Suc n)) (a @ c # b) c = a # splitn (Suc n) b c"
  using split_once_Some [of "a @ c # b" c a b] by simp

lemma splitn_join: "0 < n \<Longrightarrow> join_with [c] (splitn n s c) = s"
proof (induction n s c rule: splitn.induct)
  case (3 n s c)
  show ?case
  proof (cases "split_once s c")
    case None
    then show ?thesis by (simp add: join_with_def)
  next
    case (Some p)
    obtain a b where p: "p = (a, b)" by (cases p)
    with Some have s: "s = a @ c # b" by (simp add: split_once_Some)
    have "join_with [c] (splitn (Suc n) b c) = b" using 3 Some p by simp
    moreover have "splitn (Suc n) b c \<noteq> []"
      by (cases n) (auto split: option.splits)
    ultimately show ?thesis using Some p s
      by (cases "splitn (Suc n) b c") (auto simp: join_with_def)
  qed
qed (simp_all add: join_with_def)

definition arn_wf :: "arn_t \<Rightarrow> bool" where
  "arn_wf a \<longleftrightarrow>
     CHR '':'' \<notin> set (a_partition a) \<and> CHR '':'' \<notin> set (a_service a) \<and>
     CHR '':'' \<notin> set (a_region a) \<and> CHR '':'' \<notin> set (a_account_id a)"

lemma arn_parse_print:
  assumes "arn_wf a"
  shows "arn_from_str (arn_to_string a) = Inr a"
proof -
  have "splitn 6 (arn_to_string a) (CHR '':'') =
      [''arn'', a_partition a, a_service a, a_region a, a_account_id a, a_resource a]"
    using assms splitn_sep [of "CHR '':''" "''arn''"]
    by (simp add: arn_to_string_def arn_wf_def eval_nat_numeral splitn_sep del: splitn.simps(3))
  then show ?thesis by (simp add: arn_from_str_def)
qed

lemma arn_print_parse:
  assumes "arn_from_str s = Inr a"
  shows "arn_to_string a = s"
proof -
  from assms have "splitn 6 s (CHR '':'') =
      [''arn'', a_partition a, a_service a, a_region a, a_account_id a, a_resource a]"
    by (auto simp: arn_from_str_def split: list.splits if_splits)
  moreover have "join_with [CHR '':''] (splitn 6 s (CHR '':'')) = s" by (rule splitn_join) simp
  ultimately show ?thesis by (simp add: join_with_def arn_to_string_def)
qed

lemma split_char_sep: "c \<notin> set a \<Longrightarrow> split_char (a @ c # b) c = a # split_char b c"
  by (induction a) auto

lemma account_region_of_print:
  assumes "arn_wf a"
  shows "account_of (arn_to_string a) = (if a_account_id a = [] then None else Some (a_account_id a))"
    and "region_of (arn_to_string a) = (if a_region a = [] then None else Some (a_region a))"
proof -
  let ?r = "a_partition a @ '':'' @ a_service a @ '':'' @ a_region a @ '':'' @ a_account_id a @ '':'' @ a_resource a"
  have "strip_prefix (arn_to_string a) ''arn:'' = Some ?r"
    by (simp add: arn_to_string_def strip_prefix_Some)
  moreover have "split_char ?r (CHR '':'') =
      a_partition a # a_service a # a_region a # a_account_id a # split_char (a_resource a) (CHR '':'')"
    using assms by (simp add: arn_wf_def split_char_sep)
  ultimately show "account_of (arn_to_string a) = (if a_account_id a = [] then None else Some (a_account_id a))"
    and "region_of (arn_to_string a) = (if a_region a = [] then None else Some (a_region a))"
    by (simp_all add: account_of_def region_of_def nth_opt_def)
qed

lemma partition_for_known: "partition_for r \<in> set partitions"
  by (simp add: partition_for_def partitions_def)

lemma partition_no_colon: "CHR '':'' \<notin> set (partition_for r)"
  by (simp add: partition_for_def)

lemma length_unique_id: "length (unique_id_for p a) = length p + 17"
  by (simp add: unique_id_for_def Let_def)

end
