(* ===== verification/Multi_Account.thy ===== *)
theory Multi_Account
  imports Arn Json
begin

text \<open>
  The account- and region-partitioned state container every service keeps its resources in
  (\<^verbatim>\<open>fakecloud-core/src/multi_account.rs\<close>). The trait \<^verbatim>\<open>AccountState\<close> is the record
  \<open>account_ops\<close>; a \<^verbatim>\<open>HashMap\<close> of accounts is an association list whose order is the map's
  iteration order.

  A \<^verbatim>\<open>&mut\<close> accessor followed by a write is one function: \<open>regional_modify ops a r f\<close> is
  \<^verbatim>\<open>regional_mut(a, r)\<close> with \<open>f\<close> applied to what it returns. The locale \<open>partitioned_store\<close> states
  what services rely on, isolation between partitions, and is interpreted on that function.
\<close>

record 't account_ops =
  new_for_account :: "string \<Rightarrow> string \<Rightarrow> string \<Rightarrow> 't"
  inherit_from :: "'t \<Rightarrow> 't \<Rightarrow> 't"

section \<open>Accounts\<close>

record 't multi_account_state =
  default_account_id :: string
  ms_region :: string
  ms_endpoint :: string
  accounts :: "(string \<times> 't) list"

definition multi_new :: "'t account_ops \<Rightarrow> string \<Rightarrow> string \<Rightarrow> string \<Rightarrow> 't multi_account_state" where
  "multi_new ops dflt rgn endpoint =
     \<lparr>default_account_id = dflt, ms_region = rgn, ms_endpoint = endpoint,
      accounts = jmap_insert dflt (new_for_account ops dflt rgn endpoint) []\<rparr>"

definition multi_map :: "('t \<Rightarrow> 'u) \<Rightarrow> 't multi_account_state \<Rightarrow> 'u multi_account_state" where
  "multi_map f ms =
     \<lparr>default_account_id = default_account_id ms, ms_region = ms_region ms, ms_endpoint = ms_endpoint ms,
      accounts = map (\<lambda>(k, v). (k, f v)) (accounts ms)\<rparr>"

definition multi_map_into :: "(string \<Rightarrow> 't \<Rightarrow> 'u) \<Rightarrow> 't multi_account_state \<Rightarrow> 'u multi_account_state" where
  "multi_map_into f ms =
     \<lparr>default_account_id = default_account_id ms, ms_region = ms_region ms, ms_endpoint = ms_endpoint ms,
      accounts = map (\<lambda>(k, v). (k, f k v)) (accounts ms)\<rparr>"

definition multi_get :: "'t multi_account_state \<Rightarrow> string \<Rightarrow> 't option" where
  "multi_get ms acct = map_of (accounts ms) acct"

text \<open>The container after \<^verbatim>\<open>get_or_create(acct)\<close>.\<close>

definition get_or_create :: "'t account_ops \<Rightarrow> string \<Rightarrow> 't multi_account_state \<Rightarrow> 't multi_account_state" where
  "get_or_create ops acct ms =
     (if map_of (accounts ms) acct \<noteq> None then ms
      else
        (let st = new_for_account ops acct (ms_region ms) (ms_endpoint ms);
             st' = (case map_of (accounts ms) (default_account_id ms) of
                      Some sibling \<Rightarrow> inherit_from ops st sibling
                    | None \<Rightarrow> st)
         in ms\<lparr>accounts := jmap_insert acct st' (accounts ms)\<rparr>))"

definition get_or_create_with ::
  "'t account_ops \<Rightarrow> string \<Rightarrow> ('t \<Rightarrow> 't) \<Rightarrow> 't multi_account_state \<Rightarrow> 't multi_account_state" where
  "get_or_create_with ops acct init ms =
     (if map_of (accounts ms) acct \<noteq> None then ms
      else ms\<lparr>accounts :=
        jmap_insert acct (init (new_for_account ops acct (ms_region ms) (ms_endpoint ms))) (accounts ms)\<rparr>)"

text \<open>\<^verbatim>\<open>get_mut(acct)\<close> and a write through it.\<close>

definition multi_modify :: "string \<Rightarrow> ('t \<Rightarrow> 't) \<Rightarrow> 't multi_account_state \<Rightarrow> 't multi_account_state" where
  "multi_modify acct f ms = ms\<lparr>accounts := bt_modify acct f (accounts ms)\<rparr>"

definition multi_reset :: "'t account_ops \<Rightarrow> 't multi_account_state \<Rightarrow> 't multi_account_state" where
  "multi_reset ops ms =
     ms\<lparr>accounts :=
       jmap_insert (default_account_id ms)
         (new_for_account ops (default_account_id ms) (ms_region ms) (ms_endpoint ms)) []\<rparr>"

definition reset_account :: "'t account_ops \<Rightarrow> string \<Rightarrow> 't multi_account_state \<Rightarrow> 't multi_account_state" where
  "reset_account ops acct ms =
     multi_modify acct (\<lambda>_. new_for_account ops acct (ms_region ms) (ms_endpoint ms)) ms"

definition find_account :: "('t \<Rightarrow> bool) \<Rightarrow> 't multi_account_state \<Rightarrow> string option" where
  "find_account p ms = map_option fst (find (\<lambda>(k, v). p v) (accounts ms))"

definition account_count :: "'t multi_account_state \<Rightarrow> nat" where
  "account_count ms = length (accounts ms)"

section \<open>Regions\<close>

record 't regional_state =
  rs_account_id :: string
  default_region :: string
  rs_endpoint :: string
  regions :: "'t smap"

definition regional_new :: "string \<Rightarrow> string \<Rightarrow> string \<Rightarrow> 't regional_state" where
  "regional_new acct rgn endpoint =
     \<lparr>rs_account_id = acct, default_region = rgn, rs_endpoint = endpoint, regions = []\<rparr>"

definition region_get :: "'t regional_state \<Rightarrow> string \<Rightarrow> 't option" where
  "region_get rs rgn = map_of (regions rs) rgn"

definition insert_region :: "string \<Rightarrow> 't \<Rightarrow> 't regional_state \<Rightarrow> 't regional_state" where
  "insert_region rgn st rs = rs\<lparr>regions := bt_insert rgn st (regions rs)\<rparr>"

definition regional_clear :: "'t regional_state \<Rightarrow> 't regional_state" where
  "regional_clear rs = rs\<lparr>regions := []\<rparr>"

definition regional_map :: "('t \<Rightarrow> 'u) \<Rightarrow> 't regional_state \<Rightarrow> 'u regional_state" where
  "regional_map f rs =
     \<lparr>rs_account_id = rs_account_id rs, default_region = default_region rs, rs_endpoint = rs_endpoint rs,
      regions = map (\<lambda>(k, v). (k, f v)) (regions rs)\<rparr>"

definition first_value :: "'t smap \<Rightarrow> 't option" where
  "first_value m = (case m of [] \<Rightarrow> None | e # _ \<Rightarrow> Some (snd e))"

text \<open>The account's state after \<^verbatim>\<open>region_mut(rgn)\<close>.\<close>

definition region_mut :: "'t account_ops \<Rightarrow> string \<Rightarrow> 't regional_state \<Rightarrow> 't regional_state" where
  "region_mut ops rgn rs =
     (if map_of (regions rs) rgn \<noteq> None then rs
      else
        (let st = new_for_account ops (rs_account_id rs) rgn (rs_endpoint rs);
             st' = (case first_value (regions rs) of
                      Some sibling \<Rightarrow> inherit_from ops st sibling
                    | None \<Rightarrow> st)
         in insert_region rgn st' rs))"

definition region_or_default :: "'t regional_state \<Rightarrow> string option \<Rightarrow> string" where
  "region_or_default rs rgn = unwrap_or (opt_filter (\<lambda>r. r \<noteq> []) rgn) (default_region rs)"

definition region_or_default_mut ::
  "'t account_ops \<Rightarrow> string option \<Rightarrow> 't regional_state \<Rightarrow> 't regional_state" where
  "region_or_default_mut ops rgn rs = region_mut ops (region_or_default rs rgn) rs"

text \<open>\<^verbatim>\<open>impl AccountState for RegionalState<T>\<close>.\<close>

definition regional_inherit :: "'t account_ops \<Rightarrow> 't regional_state \<Rightarrow> 't regional_state \<Rightarrow> 't regional_state" where
  "regional_inherit ops rs sibling =
     (case first_value (regions sibling) of
        Some shared \<Rightarrow> rs\<lparr>regions := map (\<lambda>(k, v). (k, inherit_from ops v shared)) (regions rs)\<rparr>
      | None \<Rightarrow> rs)"

definition regional_ops :: "'t account_ops \<Rightarrow> 't regional_state account_ops" where
  "regional_ops ops = \<lparr>new_for_account = regional_new, inherit_from = regional_inherit ops\<rparr>"

section \<open>Accounts and regions\<close>

type_synonym 't multi_region_state = "'t regional_state multi_account_state"

definition regional :: "'t multi_region_state \<Rightarrow> string \<Rightarrow> string \<Rightarrow> 't option" where
  "regional ms acct rgn = Option.bind (multi_get ms acct) (\<lambda>a. region_get a rgn)"

definition regional_sibling :: "'t multi_region_state \<Rightarrow> string \<Rightarrow> string \<Rightarrow> 't option" where
  "regional_sibling ms acct rgn =
     opt_or (Option.bind (multi_get ms acct) (\<lambda>a. first_value (regions a)))
       (Option.bind (multi_get ms (default_account_id ms)) (\<lambda>d.
          opt_or (region_get d rgn) (first_value (regions d))))"

text \<open>The container after \<^verbatim>\<open>regional_mut(acct, rgn)\<close>.\<close>

definition regional_mut :: "'t account_ops \<Rightarrow> string \<Rightarrow> string \<Rightarrow> 't multi_region_state \<Rightarrow> 't multi_region_state" where
  "regional_mut ops acct rgn ms =
     (if regional ms acct rgn \<noteq> None then ms
      else
        (let st = new_for_account ops acct rgn (ms_endpoint ms);
             st' = (case regional_sibling ms acct rgn of
                      Some sibling \<Rightarrow> inherit_from ops st sibling
                    | None \<Rightarrow> st)
         in multi_modify acct (insert_region rgn st') (get_or_create (regional_ops ops) acct ms)))"

definition region_write :: "string \<Rightarrow> ('t \<Rightarrow> 't) \<Rightarrow> 't regional_state \<Rightarrow> 't regional_state" where
  "region_write rgn f rs = rs\<lparr>regions := bt_modify rgn f (regions rs)\<rparr>"

definition regional_modify ::
  "'t account_ops \<Rightarrow> string \<Rightarrow> string \<Rightarrow> ('t \<Rightarrow> 't) \<Rightarrow> 't multi_region_state \<Rightarrow> 't multi_region_state" where
  "regional_modify ops acct rgn f ms = multi_modify acct (region_write rgn f) (regional_mut ops acct rgn ms)"

text \<open>\<^verbatim>\<open>regional_get_mut\<close> and a write: nothing is created.\<close>

definition regional_get_modify ::
  "string \<Rightarrow> string \<Rightarrow> ('t \<Rightarrow> 't) \<Rightarrow> 't multi_region_state \<Rightarrow> 't multi_region_state" where
  "regional_get_modify acct rgn f ms = multi_modify acct (region_write rgn f) ms"

definition by_arn :: "'t multi_region_state \<Rightarrow> string \<Rightarrow> 't option" where
  "by_arn ms a =
     Option.bind (account_of a) (\<lambda>acct. Option.bind (region_of a) (\<lambda>rgn. regional ms acct rgn))"

definition default_regional :: "'t multi_region_state \<Rightarrow> 't option" where
  "default_regional ms =
     Option.bind (multi_get ms (default_account_id ms)) (\<lambda>d. region_get d (ms_region ms))"

definition iter_regional :: "'t multi_region_state \<Rightarrow> (string \<times> string \<times> 't) list" where
  "iter_regional ms =
     concat (map (\<lambda>(acct, a). map (\<lambda>(rgn, st). (acct, rgn, st)) (regions a)) (accounts ms))"

text \<open>\<^verbatim>\<open>iter_regional_mut\<close> and a write to every state it yields.\<close>

definition iter_regional_mut ::
  "(string \<Rightarrow> string \<Rightarrow> 't \<Rightarrow> 't) \<Rightarrow> 't multi_region_state \<Rightarrow> 't multi_region_state" where
  "iter_regional_mut f ms =
     ms\<lparr>accounts := map (\<lambda>(acct, a).
       (acct, a\<lparr>regions := map (\<lambda>(rgn, st). (rgn, f acct rgn st)) (regions a)\<rparr>)) (accounts ms)\<rparr>"

section \<open>Facts\<close>

lemma regional_None_get:
  "multi_get ms acct = None \<Longrightarrow> regional ms acct rgn = None"
  by (simp add: regional_def)

lemma multi_get_get_or_create:
  "multi_get (get_or_create (regional_ops ops) acct ms) acct' =
   (if acct' = acct \<and> multi_get ms acct = None
    then Some (regional_new acct (ms_region ms) (ms_endpoint ms)) else multi_get ms acct')"
proof -
  have "regional_inherit ops (regional_new a r e) sib = regional_new a r e" for a r e and sib :: "'a regional_state"
    by (simp add: regional_inherit_def regional_new_def split: option.splits)
  then show ?thesis
    by (auto simp: get_or_create_def multi_get_def regional_ops_def Let_def split: option.splits)
qed

lemma multi_get_modify [simp]:
  "multi_get (multi_modify acct f ms) acct' =
   (if acct' = acct then map_option f (multi_get ms acct) else multi_get ms acct')"
  by (simp add: multi_get_def multi_modify_def map_of_bt_modify)

text \<open>What a partition holds when a write first creates it.\<close>

definition fresh_region :: "'t account_ops \<Rightarrow> string \<Rightarrow> string \<Rightarrow> 't multi_region_state \<Rightarrow> 't" where
  "fresh_region ops acct rgn ms =
     (let st = new_for_account ops acct rgn (ms_endpoint ms)
      in case regional_sibling ms acct rgn of Some sibling \<Rightarrow> inherit_from ops st sibling | None \<Rightarrow> st)"

lemma regional_regional_mut:
  "regional (regional_mut ops acct rgn ms) acct' rgn' =
   (if acct' = acct \<and> rgn' = rgn then Some (unwrap_or (regional ms acct rgn) (fresh_region ops acct rgn ms))
    else regional ms acct' rgn')"
proof (cases "regional ms acct rgn")
  case None
  have new: "regional (regional_mut ops acct rgn ms) acct' rgn' =
      Option.bind (if acct' = acct
        then map_option (insert_region rgn (fresh_region ops acct rgn ms))
          (multi_get (get_or_create (regional_ops ops) acct ms) acct)
        else multi_get ms acct') (\<lambda>a. region_get a rgn')"
    using None by (simp add: regional_mut_def fresh_region_def Let_def regional_def [of "multi_modify _ _ _"]
        multi_get_get_or_create)
  show ?thesis
  proof (cases "multi_get ms acct")
    case None': None
    with None new show ?thesis
      by (simp add: multi_get_get_or_create regional_def region_get_def insert_region_def regional_new_def)
  next
    case (Some a)
    with None new show ?thesis
      by (auto simp: multi_get_get_or_create regional_def region_get_def insert_region_def map_of_bt_insert)
  qed
next
  case (Some st)
  then show ?thesis by (simp add: regional_mut_def)
qed

lemma regional_region_write:
  "regional (multi_modify acct (region_write rgn f) ms) acct' rgn' =
   (if acct' = acct \<and> rgn' = rgn then map_option f (regional ms acct rgn) else regional ms acct' rgn')"
  by (cases "multi_get ms acct")
    (auto simp: regional_def region_get_def region_write_def map_of_bt_modify)

lemma regional_regional_modify:
  "regional (regional_modify ops acct rgn f ms) acct' rgn' =
   (if acct' = acct \<and> rgn' = rgn
    then Some (f (unwrap_or (regional ms acct rgn) (fresh_region ops acct rgn ms)))
    else regional ms acct' rgn')"
  by (simp add: regional_modify_def regional_region_write regional_regional_mut)

lemma iter_regional_complete:
  assumes "regional ms acct rgn = Some st"
  shows "(acct, rgn, st) \<in> set (iter_regional ms)"
proof -
  from assms obtain a where "multi_get ms acct = Some a" "region_get a rgn = Some st"
    by (auto simp: regional_def bind_eq_Some_conv)
  then have "(acct, a) \<in> set (accounts ms)" "(rgn, st) \<in> set (regions a)"
    by (auto simp: multi_get_def region_get_def dest: map_of_SomeD)
  then show ?thesis by (force simp: iter_regional_def)
qed

lemma regional_iter_regional_mut:
  "regional (iter_regional_mut f ms) acct rgn = map_option (f acct rgn) (regional ms acct rgn)"
proof -
  have m: "map_of (map (\<lambda>(k, v). (k, g k v)) xs) k = map_option (g k) (map_of xs k)"
    for g :: "string \<Rightarrow> 'b \<Rightarrow> 'c" and xs k
    by (induction xs) auto
  show ?thesis
    by (cases "map_of (accounts ms) acct") (simp_all add: regional_def multi_get_def region_get_def iter_regional_mut_def m)
qed

lemma regional_regional_get_modify:
  "regional (regional_get_modify acct rgn f ms) acct' rgn' =
   (if acct' = acct \<and> rgn' = rgn then map_option f (regional ms acct rgn) else regional ms acct' rgn')"
  by (cases "multi_get ms acct")
    (auto simp: regional_get_modify_def regional_def region_get_def region_write_def map_of_bt_modify)

section \<open>The interface services rely on\<close>

text \<open>
  A partitioned store: reading a partition, and an update that touches one partition and may
  first create it from the \<open>fresh\<close> state.
\<close>

locale partitioned_store =
  fixes get :: "'m \<Rightarrow> 'k \<Rightarrow> 't option"
    and upd :: "'k \<Rightarrow> ('t \<Rightarrow> 't) \<Rightarrow> 'm \<Rightarrow> 'm"
    and fresh :: "'k \<Rightarrow> 'm \<Rightarrow> 't"
  assumes get_upd:
    "get (upd k f m) k' = (if k' = k then Some (f (unwrap_or (get m k) (fresh k m))) else get m k')"
begin

lemma upd_other: "k' \<noteq> k \<Longrightarrow> get (upd k f m) k' = get m k'"
  by (simp add: get_upd)

text \<open>A sequence of updates leaves every partition it does not name as it was.\<close>

lemma upds_other:
  "k' \<notin> fst ` set us \<Longrightarrow> get (fold (\<lambda>(k, f). upd k f) us m) k' = get m k'"
  by (induction us arbitrary: m) (auto simp: upd_other)

text \<open>What happens in an existing partition does not depend on updates of other partitions.\<close>

lemma upds_existing:
  "get m k = Some st \<Longrightarrow>
   get (fold (\<lambda>(k, f). upd k f) us m) k = Some (fold (\<lambda>u st. snd u st) (filter (\<lambda>u. fst u = k) us) st)"
proof (induction us arbitrary: m st)
  case (Cons u us)
  obtain k' f where u: "u = (k', f)" by (cases u)
  show ?case
  proof (cases "k' = k")
    case True
    with Cons.prems have "get (upd k f m) k = Some (f st)" by (simp add: get_upd)
    from Cons.IH [OF this] u True show ?thesis by simp
  next
    case False
    with Cons.prems have "get (upd k' f m) k = Some st" by (simp add: get_upd)
    from Cons.IH [OF this] u False show ?thesis by simp
  qed
qed simp

end

interpretation regional_store: partitioned_store
  "\<lambda>ms (acct, rgn). regional ms acct rgn"
  "\<lambda>(acct, rgn) f. regional_modify ops acct rgn f"
  "\<lambda>(acct, rgn) ms. fresh_region ops acct rgn ms" for ops :: "'t account_ops"
  by unfold_locales (auto simp: regional_regional_modify split: prod.splits)

end
