(* ===== verification/Policy_Store.thy ===== *)
theory Policy_Store
  imports Evaluator Multi_Account
begin

text \<open>
  Which policies a caller is evaluated against: the policy half of the IAM state
  (\<^verbatim>\<open>fakecloud-iam/src/state.rs\<close>), the collectors at the end of
  \<^verbatim>\<open>fakecloud-iam/src/evaluator.rs\<close>, and the adapter dispatch calls
  (\<^verbatim>\<open>fakecloud-iam/src/policy_evaluator.rs\<close>). The catalogue of AWS-managed policies is a data file
  of the repository; it is the argument \<open>catalog\<close>, from an ARN to a document. The JSON parser
  is \<open>from_json\<close>. Both, with \<open>chrono\<close>, are the record \<open>iam_env\<close>. The records hold the fields the
  collectors read; identifiers, paths, dates, tags and the rest of the account state play no part.
\<close>

section \<open>State\<close>

record policy_version =
  pv_version_id :: string
  pv_document :: string
  pv_is_default :: bool

record iam_policy =
  pol_arn :: string
  pol_versions :: "policy_version list"

record iam_user =
  u_user_name :: string
  u_arn :: string
  u_permissions_boundary :: "string option"

record iam_role =
  ro_role_name :: string
  ro_arn :: string
  ro_permissions_boundary :: "string option"

record iam_group =
  g_group_name :: string
  g_members :: "string list"
  g_inline_policies :: "string smap"
  g_attached_policies :: "string list"

record iam_state =
  is_users :: "iam_user smap"
  is_roles :: "iam_role smap"
  is_policies :: "iam_policy smap"
  is_role_policies :: "string list smap"
  is_role_inline_policies :: "string smap smap"
  is_user_policies :: "string list smap"
  is_user_inline_policies :: "string smap smap"
  is_groups :: "iam_group smap"

record iam_env =
  env_chrono :: chrono
  env_from_json :: "string \<Rightarrow> json option"
  env_catalog :: "string \<Rightarrow> string option"

section \<open>Collecting policies\<close>

definition managed_policy_default_document :: "iam_env \<Rightarrow> iam_state \<Rightarrow> string \<Rightarrow> string option" where
  "managed_policy_default_document env st a =
     (case map_of (is_policies st) a of
        Some policy \<Rightarrow>
          map_option pv_document
            (opt_or (find pv_is_default (pol_versions policy))
              (case pol_versions policy of [] \<Rightarrow> None | v # _ \<Rightarrow> Some v))
      | None \<Rightarrow> env_catalog env a)"

text \<open>\<^verbatim>\<open>s.rsplit('/').next()\<close> and \<^verbatim>\<open>s.split('/').next()\<close>: never \<^verbatim>\<open>None\<close>.\<close>

definition user_name_from_arn :: "string \<Rightarrow> string option" where
  "user_name_from_arn a =
     map_option (\<lambda>(_, after). last (split_char after (CHR ''/''))) (rsplit_once_str a '':user/'')"

definition role_name_from_assumed_role_arn :: "string \<Rightarrow> string option" where
  "role_name_from_assumed_role_arn a =
     map_option (\<lambda>(_, after). hd (split_char after (CHR ''/''))) (rsplit_once_str a '':assumed-role/'')"

text \<open>The loop over attached managed policies: \<open>(docs, seen)\<close> is threaded through.\<close>

fun push_managed ::
  "iam_env \<Rightarrow> iam_state \<Rightarrow> string list \<Rightarrow> policy_document list \<times> string list \<Rightarrow>
   policy_document list \<times> string list" where
  "push_managed env st [] acc = acc"
| "push_managed env st (a # as) (docs, seen) =
     (if a \<in> set seen then push_managed env st as (docs, seen)
      else
        (case managed_policy_default_document env st a of
           Some doc \<Rightarrow> push_managed env st as (docs @ [parse_document (env_from_json env) doc], a # seen)
         | None \<Rightarrow> push_managed env st as (docs, a # seen)))"

definition push_inline ::
  "iam_env \<Rightarrow> string smap \<Rightarrow> policy_document list \<times> string list \<Rightarrow> policy_document list \<times> string list" where
  "push_inline env inline acc =
     (fst acc @ map (\<lambda>(_, doc). parse_document (env_from_json env) doc) inline, snd acc)"

definition collect_user_policies ::
  "iam_env \<Rightarrow> iam_state \<Rightarrow> string \<Rightarrow> policy_document list \<times> string list \<Rightarrow>
   policy_document list \<times> string list" where
  "collect_user_policies env st user acc =
     (let acc1 = (case map_of (is_user_inline_policies st) user of
                    Some inline \<Rightarrow> push_inline env inline acc | None \<Rightarrow> acc);
          acc2 = (case map_of (is_user_policies st) user of
                    Some arns \<Rightarrow> push_managed env st arns acc1 | None \<Rightarrow> acc1)
      in fold (\<lambda>(_, group) acc.
           if user \<notin> set (g_members group) then acc
           else push_managed env st (g_attached_policies group)
                  (push_inline env (g_inline_policies group) acc)) (is_groups st) acc2)"

definition collect_role_policies ::
  "iam_env \<Rightarrow> iam_state \<Rightarrow> string \<Rightarrow> policy_document list \<times> string list \<Rightarrow>
   policy_document list \<times> string list" where
  "collect_role_policies env st role acc =
     (let acc1 = (case map_of (is_role_inline_policies st) role of
                    Some inline \<Rightarrow> push_inline env inline acc | None \<Rightarrow> acc)
      in case map_of (is_role_policies st) role of
           Some arns \<Rightarrow> push_managed env st arns acc1 | None \<Rightarrow> acc1)"

definition collect_identity_policies :: "iam_env \<Rightarrow> iam_state \<Rightarrow> principal \<Rightarrow> policy_document list" where
  "collect_identity_policies env st p =
     (case p_type p of
        User \<Rightarrow>
          (case user_name_from_arn (p_arn p) of
             Some user \<Rightarrow> fst (collect_user_policies env st user ([], []))
           | None \<Rightarrow> [])
      | AssumedRole \<Rightarrow>
          (case role_name_from_assumed_role_arn (p_arn p) of
             Some role \<Rightarrow> fst (collect_role_policies env st role ([], []))
           | None \<Rightarrow> [])
      | _ \<Rightarrow> [])"

definition boundary_arn :: "iam_state \<Rightarrow> principal \<Rightarrow> string option" where
  "boundary_arn st p =
     (case p_type p of
        User \<Rightarrow>
          Option.bind (user_name_from_arn (p_arn p)) (\<lambda>n.
          Option.bind (map_of (is_users st) n) u_permissions_boundary)
      | AssumedRole \<Rightarrow>
          Option.bind (role_name_from_assumed_role_arn (p_arn p)) (\<lambda>n.
          if starts_with n ''AWSServiceRoleFor'' then None
          else Option.bind (map_of (is_roles st) n) ro_permissions_boundary)
      | _ \<Rightarrow> None)"

definition collect_boundary_policies ::
  "iam_env \<Rightarrow> iam_state \<Rightarrow> principal \<Rightarrow> policy_document list option" where
  "collect_boundary_policies env st p =
     (if is_root p then None
      else
        (case boundary_arn st p of
           None \<Rightarrow> None
         | Some a \<Rightarrow>
             (case managed_policy_default_document env st a of
                Some doc \<Rightarrow> Some [parse_document (env_from_json env) doc]
              | None \<Rightarrow> Some [])))"

section \<open>The adapter\<close>

definition parse_session_policies :: "iam_env \<Rightarrow> string list \<Rightarrow> policy_document list option" where
  "parse_session_policies env raw =
     (if raw = [] then None else Some (map (parse_document (env_from_json env)) raw))"

definition parse_scp_policies :: "iam_env \<Rightarrow> string list option \<Rightarrow> policy_document list option" where
  "parse_scp_policies env raw = map_option (map (parse_document (env_from_json env))) raw"

fun decision_to_core :: "decision \<Rightarrow> iam_decision" where
  "decision_to_core Allow = IamAllow"
| "decision_to_core ImplicitDeny = IamImplicitDeny"
| "decision_to_core ExplicitDeny = IamExplicitDeny"

definition anonymous_principal :: principal where
  "anonymous_principal =
     \<lparr>p_arn = [], p_user_id = [], p_account_id = [], p_type = Unknown, p_source_identity = None,
      p_tags = None\<rparr>"

definition to_request :: "principal \<Rightarrow> iam_action \<Rightarrow> condition_context \<Rightarrow> eval_request" where
  "to_request p act ctx =
     \<lparr>r_principal = p, r_action = action_string act, r_resource = ia_resource act, r_context = ctx\<rparr>"

definition evaluator_evaluate ::
  "iam_env \<Rightarrow> iam_state multi_account_state \<Rightarrow> principal \<Rightarrow> iam_action \<Rightarrow> condition_context \<Rightarrow>
   string list \<Rightarrow> string list option \<Rightarrow> iam_decision" where
  "evaluator_evaluate env states p act ctx session_policies scps =
     (case multi_get states (p_account_id p) of
        None \<Rightarrow> IamImplicitDeny
      | Some st \<Rightarrow>
          decision_to_core
            (evaluate_with_gates_and_scps (env_chrono env) (collect_identity_policies env st p)
              (collect_boundary_policies env st p) (parse_session_policies env session_policies)
              (parse_scp_policies env scps) (to_request p act ctx)))"

definition evaluator_evaluate_with_resource_policy ::
  "iam_env \<Rightarrow> iam_state multi_account_state \<Rightarrow> principal \<Rightarrow> iam_action \<Rightarrow> condition_context \<Rightarrow>
   string option \<Rightarrow> string \<Rightarrow> string list \<Rightarrow> string list option \<Rightarrow> iam_decision" where
  "evaluator_evaluate_with_resource_policy env states p act ctx resource_policy_json resource_account_id
       session_policies scps =
     (case multi_get states (p_account_id p) of
        None \<Rightarrow> IamImplicitDeny
      | Some st \<Rightarrow>
          decision_to_core
            (evaluate_with_resource_policy_and_gates_and_scps (env_chrono env)
              (collect_identity_policies env st p) (collect_boundary_policies env st p)
              (parse_session_policies env session_policies) (parse_scp_policies env scps)
              (map_option (parse_document (env_from_json env)) resource_policy_json)
              (to_request p act ctx) resource_account_id))"

definition evaluator_evaluate_anonymous ::
  "iam_env \<Rightarrow> iam_action \<Rightarrow> condition_context \<Rightarrow> string option \<Rightarrow> iam_decision" where
  "evaluator_evaluate_anonymous env act ctx resource_policy_json =
     (case resource_policy_json of
        None \<Rightarrow> IamImplicitDeny
      | Some js \<Rightarrow>
          decision_to_core
            (evaluate_resource_policy_only (env_chrono env) (parse_document (env_from_json env) js)
              (to_request anonymous_principal act ctx)))"

definition evaluator_resource_policy_only ::
  "iam_env \<Rightarrow> principal \<Rightarrow> iam_action \<Rightarrow> condition_context \<Rightarrow> string option \<Rightarrow> iam_decision" where
  "evaluator_resource_policy_only env p act ctx resource_policy_json =
     (case resource_policy_json of
        None \<Rightarrow> IamImplicitDeny
      | Some js \<Rightarrow>
          decision_to_core
            (evaluate_resource_policy_only (env_chrono env) (parse_document (env_from_json env) js)
              (to_request p act ctx)))"

section \<open>Facts\<close>

lemma decision_to_core_inject [simp]:
  "decision_to_core d = IamAllow \<longleftrightarrow> d = Allow"
  "decision_to_core d = IamExplicitDeny \<longleftrightarrow> d = ExplicitDeny"
  by (cases d; simp)+

text \<open>The documents a list of attached ARNs contributes.\<close>

definition managed_docs :: "iam_env \<Rightarrow> iam_state \<Rightarrow> string list \<Rightarrow> policy_document set" where
  "managed_docs env st as =
     {parse_document (env_from_json env) doc | a doc.
        a \<in> set as \<and> managed_policy_default_document env st a = Some doc}"

text \<open>The accumulator is complete: every ARN seen so far has its document in \<open>docs\<close>.\<close>

definition collected :: "iam_env \<Rightarrow> iam_state \<Rightarrow> policy_document list \<times> string list \<Rightarrow> bool" where
  "collected env st acc \<longleftrightarrow> managed_docs env st (snd acc) \<subseteq> set (fst acc)"

lemma managed_docs_Cons:
  "managed_docs env st (a # as) =
   (case managed_policy_default_document env st a of
      Some doc \<Rightarrow> {parse_document (env_from_json env) doc} | None \<Rightarrow> {}) \<union> managed_docs env st as"
  by (auto simp: managed_docs_def split: option.splits)

lemma push_managed_docs:
  "collected env st acc \<Longrightarrow>
   set (fst (push_managed env st as acc)) = set (fst acc) \<union> managed_docs env st as \<and>
   collected env st (push_managed env st as acc)"
proof (induction env st as acc rule: push_managed.induct)
  case (1 env st acc)
  then show ?case by (simp add: managed_docs_def)
next
  case (2 env st a as docs seen)
  show ?case
  proof (cases "a \<in> set seen")
    case True
    with 2(4) have "managed_docs env st [a] \<subseteq> set docs"
      by (fastforce simp: collected_def managed_docs_def)
    then show ?thesis
      using 2(1) [OF True 2(4)] True
      by (auto simp: managed_docs_Cons [of _ _ a as] managed_docs_Cons [of _ _ a "[]"])
  next
    case False
    show ?thesis
    proof (cases "managed_policy_default_document env st a")
      case None
      then have "collected env st (docs, a # seen)"
        using 2(4) by (simp add: collected_def managed_docs_Cons)
      with 2(2) [OF False None] False None show ?thesis by (simp add: managed_docs_Cons)
    next
      case (Some doc)
      then have "collected env st (docs @ [parse_document (env_from_json env) doc], a # seen)"
        using 2(4) by (auto simp: collected_def managed_docs_Cons)
      with 2(3) [OF False Some] False Some show ?thesis by (simp add: managed_docs_Cons)
    qed
  qed
qed

lemma push_inline_docs:
  "set (fst (push_inline env inline acc)) =
   set (fst acc) \<union> (\<lambda>(_, doc). parse_document (env_from_json env) doc) ` set inline"
  "collected env st acc \<Longrightarrow> collected env st (push_inline env inline acc)"
  by (auto simp: push_inline_def collected_def)

text \<open>Everything attached to a user, directly or through a group.\<close>

definition inline_docs :: "iam_env \<Rightarrow> string smap option \<Rightarrow> policy_document set" where
  "inline_docs env inline = (\<lambda>(_, doc). parse_document (env_from_json env) doc) ` set (unwrap_or inline [])"

definition group_docs :: "iam_env \<Rightarrow> iam_state \<Rightarrow> iam_group \<Rightarrow> policy_document set" where
  "group_docs env st g = inline_docs env (Some (g_inline_policies g)) \<union> managed_docs env st (g_attached_policies g)"

definition user_docs :: "iam_env \<Rightarrow> iam_state \<Rightarrow> string \<Rightarrow> policy_document set" where
  "user_docs env st user =
     inline_docs env (map_of (is_user_inline_policies st) user) \<union>
     managed_docs env st (unwrap_or (map_of (is_user_policies st) user) []) \<union>
     (\<Union>e \<in> {e \<in> set (is_groups st). user \<in> set (g_members (snd e))}. group_docs env st (snd e))"

definition role_docs :: "iam_env \<Rightarrow> iam_state \<Rightarrow> string \<Rightarrow> policy_document set" where
  "role_docs env st role =
     inline_docs env (map_of (is_role_inline_policies st) role) \<union>
     managed_docs env st (unwrap_or (map_of (is_role_policies st) role) [])"

lemma push_inline_opt:
  assumes "collected env st acc"
  shows "set (fst (case m of Some inline \<Rightarrow> push_inline env inline acc | None \<Rightarrow> acc)) =
      set (fst acc) \<union> inline_docs env m"
    and "collected env st (case m of Some inline \<Rightarrow> push_inline env inline acc | None \<Rightarrow> acc)"
  using assms by (auto simp: inline_docs_def push_inline_docs split: option.splits)

lemma push_managed_opt:
  assumes "collected env st acc"
  shows "set (fst (case m of Some arns \<Rightarrow> push_managed env st arns acc | None \<Rightarrow> acc)) =
      set (fst acc) \<union> managed_docs env st (unwrap_or m [])"
    and "collected env st (case m of Some arns \<Rightarrow> push_managed env st arns acc | None \<Rightarrow> acc)"
  using assms push_managed_docs [OF assms]
  by (auto simp: managed_docs_def split: option.splits)

lemma push_groups:
  assumes "collected env st acc"
  shows "set (fst (fold (\<lambda>(_, group) acc.
           if user \<notin> set (g_members group) then acc
           else push_managed env st (g_attached_policies group)
                  (push_inline env (g_inline_policies group) acc)) gs acc)) =
    set (fst acc) \<union> (\<Union>e \<in> {e \<in> set gs. user \<in> set (g_members (snd e))}. group_docs env st (snd e))"
  using assms
proof (induction gs arbitrary: acc)
  case (Cons e gs)
  obtain n g where e: "e = (n, g)" by (cases e)
  let ?acc = "push_managed env st (g_attached_policies g) (push_inline env (g_inline_policies g) acc)"
  have step: "set (fst ?acc) = set (fst acc) \<union> group_docs env st g" "collected env st ?acc"
    using push_managed_docs [OF push_inline_docs(2) [OF Cons.prems], of "g_attached_policies g"]
    by (simp_all add: push_inline_docs(1) group_docs_def inline_docs_def Un_assoc)
  show ?case
  proof (cases "user \<in> set (g_members g)")
    case True
    then have "{x \<in> set (e # gs). user \<in> set (g_members (snd x))} =
        insert e {x \<in> set gs. user \<in> set (g_members (snd x))}" using e by auto
    then show ?thesis using Cons.IH [OF step(2)] step(1) e True by (simp add: Un_assoc)
  next
    case False
    then have "{x \<in> set (e # gs). user \<in> set (g_members (snd x))} =
        {x \<in> set gs. user \<in> set (g_members (snd x))}" using e by auto
    then show ?thesis using Cons.IH [OF Cons.prems] e False by simp
  qed
qed simp

lemma collect_user_policies_set:
  "set (fst (collect_user_policies env st user ([], []))) = user_docs env st user"
proof -
  have start: "collected env st ([], [])" by (simp add: collected_def managed_docs_def)
  note inline = push_inline_opt [OF start, of "map_of (is_user_inline_policies st) user"]
  note managed = push_managed_opt [OF inline(2), of "map_of (is_user_policies st) user"]
  show ?thesis
    unfolding collect_user_policies_def Let_def push_groups [OF managed(2)] managed(1) inline(1)
    by (simp add: user_docs_def)
qed

lemma collect_role_policies_set:
  "set (fst (collect_role_policies env st role ([], []))) = role_docs env st role"
proof -
  have start: "collected env st ([], [])" by (simp add: collected_def managed_docs_def)
  note inline = push_inline_opt [OF start, of "map_of (is_role_inline_policies st) role"]
  note managed = push_managed_opt [OF inline(2), of "map_of (is_role_policies st) role"]
  show ?thesis
    unfolding collect_role_policies_def Let_def managed(1) inline(1) by (simp add: role_docs_def)
qed

end
