(* ===== verification/Aws_Service.thy ===== *)
theory Aws_Service
  imports Auth_Context Arn
begin

text \<open>
  What every service handler sees (\<^verbatim>\<open>fakecloud-core/src/service.rs\<close>, \<^verbatim>\<open>query.rs\<close> and
  \<^verbatim>\<open>fakecloud-aws/src/xml.rs\<close>): requests, errors, responses and the XML envelope of the Query
  protocol. A header map is an association list of lower-case names to the values that are
  visible ASCII; a response body is kept as the JSON value or the XML text it is printed from.

  \<open>xml_escape_no_markup\<close> shows that escaped text contains no markup character, and
  \<open>xml_unescape_escape\<close> that a reader recovers it.
\<close>

section \<open>Requests and results\<close>

record aws_request =
  req_action :: string
  req_region :: string
  req_account_id :: string
  req_request_id :: string
  req_headers :: "string smap"
  req_query_params :: "(string \<times> string) list"
  req_body :: string
  req_is_query :: bool
  req_principal :: "principal option"

text \<open>\<open>AwsError status code message extra_fields headers\<close>.\<close>

datatype service_error =
    ServiceNotFound string
  | AwsError nat string string "(string \<times> string) list" "(string \<times> string) list"
  | ActionNotImplemented string string

definition aws_error :: "nat \<Rightarrow> string \<Rightarrow> string \<Rightarrow> service_error" where
  "aws_error status code message = AwsError status code message [] []"

definition aws_error_with_headers ::
  "nat \<Rightarrow> string \<Rightarrow> string \<Rightarrow> (string \<times> string) list \<Rightarrow> service_error" where
  "aws_error_with_headers status code message headers = AwsError status code message [] headers"

definition aws_error_with_fields ::
  "nat \<Rightarrow> string \<Rightarrow> string \<Rightarrow> (string \<times> string) list \<Rightarrow> service_error" where
  "aws_error_with_fields status code message extra_fields = AwsError status code message extra_fields []"

datatype aws_response = JsonResponse nat json | XmlResponse nat string

definition ok_json :: "json \<Rightarrow> aws_response" where
  "ok_json v = JsonResponse 200 v"

text \<open>\<^verbatim>\<open>resp.status.is_success()\<close>.\<close>

fun is_success :: "aws_response \<Rightarrow> bool" where
  "is_success (JsonResponse status _) \<longleftrightarrow> 200 \<le> status \<and> status < 300"
| "is_success (XmlResponse status _) \<longleftrightarrow> 200 \<le> status \<and> status < 300"

text \<open>\<^verbatim>\<open>o.ok_or_else(|| e)\<close>, and \<^verbatim>\<open>?\<close> on a result.\<close>

definition ok_or :: "'a option \<Rightarrow> 'e \<Rightarrow> 'e + 'a" where
  "ok_or v e = (case v of Some x \<Rightarrow> Inr x | None \<Rightarrow> Inl e)"

definition and_then :: "('e + 'a) \<Rightarrow> ('a \<Rightarrow> 'e + 'b) \<Rightarrow> 'e + 'b" where
  "and_then r f = (case r of Inl e \<Rightarrow> Inl e | Inr x \<Rightarrow> f x)"

lemma ok_or_simps [simp]: "ok_or (Some x) e = Inr x" "ok_or None e = Inl e"
  by (simp_all add: ok_or_def)

lemma and_then_simps [simp]: "and_then (Inr x) f = f x" "and_then (Inl e) f = Inl e"
  by (simp_all add: and_then_def)

section \<open>Time\<close>

text \<open>
  An instant is its number of nanoseconds; \<open>seconds\<close> and \<open>num_seconds\<close> are \<^verbatim>\<open>Duration::seconds\<close> and
  \<^verbatim>\<open>Duration::num_seconds\<close>.
\<close>

definition seconds :: "int \<Rightarrow> int" where
  "seconds n = n * 10 ^ 9"

definition num_seconds :: "int \<Rightarrow> int" where
  "num_seconds d = (if 0 \<le> d then d div 10 ^ 9 else - ((- d) div 10 ^ 9))"

definition timestamp_millis :: "int \<Rightarrow> int" where
  "timestamp_millis t = t div 10 ^ 6"

definition timestamp_secs :: "int \<Rightarrow> int" where
  "timestamp_secs t = t div 10 ^ 9"

section \<open>Handlers\<close>

text \<open>
  A handler maps a state to a result and the state it leaves, also where it fails. \<open>h_bind\<close> is the
  \<^verbatim>\<open>?\<close> of a stateful step, \<open>h_read\<close> a step under a read lock.
\<close>

type_synonym ('s, 'a) handler = "'s \<Rightarrow> (service_error + 'a) \<times> 's"

definition h_ok :: "'a \<Rightarrow> ('s, 'a) handler" where
  "h_ok x s = (Inr x, s)"

definition h_err :: "service_error \<Rightarrow> ('s, 'a) handler" where
  "h_err e s = (Inl e, s)"

definition h_lift :: "service_error + 'a \<Rightarrow> ('s, 'a) handler" where
  "h_lift r s = (r, s)"

definition h_bind :: "('s, 'a) handler \<Rightarrow> ('a \<Rightarrow> ('s, 'b) handler) \<Rightarrow> ('s, 'b) handler" where
  "h_bind m f s = (case m s of (Inl e, s') \<Rightarrow> (Inl e, s') | (Inr x, s') \<Rightarrow> f x s')"

definition h_read :: "('s \<Rightarrow> service_error + 'a) \<Rightarrow> ('s, 'a) handler" where
  "h_read f s = (f s, s)"

lemma h_simps [simp]:
  "h_bind (h_ok x) f s = f x s"
  "h_bind (h_err e) f s = (Inl e, s)"
  "h_bind (h_lift (Inr x)) f s = f x s"
  "h_bind (h_lift (Inl e)) f s = (Inl e, s)"
  "h_ok x s = (Inr x, s)" "h_err e s = (Inl e, s)" "h_lift r s = (r, s)"
  by (simp_all add: h_bind_def h_ok_def h_err_def h_lift_def)

section \<open>XML\<close>

definition hex_digit_upper :: "nat \<Rightarrow> nat" where
  "hex_digit_upper n = (if n < 10 then 48 + n else 55 + n)"

text \<open>\<^verbatim>\<open>{:X}\<close> as code points.\<close>

fun show_hex_upper :: "nat \<Rightarrow> nat list" where
  "show_hex_upper n =
     (if n < 16 then [hex_digit_upper n] else show_hex_upper (n div 16) @ [hex_digit_upper (n mod 16)])"

declare show_hex_upper.simps [simp del]

definition escape_cp :: "nat \<Rightarrow> nat list" where
  "escape_cp c =
     (if c = 38 then map of_char ''&amp;''
      else if c = 60 then map of_char ''&lt;''
      else if c = 62 then map of_char ''&gt;''
      else if c = 34 then map of_char ''&quot;''
      else if c = 39 then map of_char ''&apos;''
      else if c < 32 \<and> c \<noteq> 9 \<and> c \<noteq> 10 \<and> c \<noteq> 13 then map of_char ''&#x'' @ show_hex_upper c @ map of_char '';''
      else [c])"

definition xml_escape :: "string \<Rightarrow> string" where
  "xml_escape s = encode_str (concat (map escape_cp (chars s)))"

definition wrap_xml :: "string \<Rightarrow> string" where
  "wrap_xml inner = ''<?xml version='' @ [CHR 0x22] @ ''1.0'' @ [CHR 0x22] @ '' encoding='' @ [CHR 0x22] @
     ''UTF-8'' @ [CHR 0x22] @ ''?>'' @ inner"

definition query_response_xml :: "string \<Rightarrow> string \<Rightarrow> string \<Rightarrow> string \<Rightarrow> string" where
  "query_response_xml act ns inner request_id =
     wrap_xml (''<'' @ act @ ''Response xmlns='' @ [CHR 0x22] @ ns @ [CHR 0x22] @ ''>'' @
       ''<'' @ act @ ''Result>'' @ inner @ ''</'' @ act @ ''Result>'' @
       ''<ResponseMetadata><RequestId>'' @ request_id @ ''</RequestId></ResponseMetadata>'' @
       ''</'' @ act @ ''Response>'')"

definition query_metadata_only_xml :: "string \<Rightarrow> string \<Rightarrow> string \<Rightarrow> string" where
  "query_metadata_only_xml act ns request_id =
     wrap_xml (''<'' @ act @ ''Response xmlns='' @ [CHR 0x22] @ ns @ [CHR 0x22] @ ''>'' @
       ''<ResponseMetadata><RequestId>'' @ request_id @ ''</RequestId></ResponseMetadata>'' @
       ''</'' @ act @ ''Response>'')"

definition optional_param :: "(string \<times> string) list \<Rightarrow> string \<Rightarrow> string option" where
  "optional_param params name = opt_filter (\<lambda>v. v \<noteq> []) (map_of params name)"

definition required_param :: "(string \<times> string) list \<Rightarrow> string \<Rightarrow> service_error + string" where
  "required_param params name =
     ok_or (optional_param params name)
       (aws_error 400 ''MissingParameter'' (''The request must contain the parameter '' @ name @ ''.''))"

section \<open>Reading escaped text back\<close>

definition hex_val :: "nat \<Rightarrow> nat option" where
  "hex_val c =
     (if 48 \<le> c \<and> c \<le> 57 then Some (c - 48) else if 65 \<le> c \<and> c \<le> 70 then Some (c - 55) else None)"

fun read_hex_ref :: "nat \<Rightarrow> nat list \<Rightarrow> (nat \<times> nat list) option" where
  "read_hex_ref acc [] = None"
| "read_hex_ref acc (c # r) =
     (if c = 59 then Some (acc, r)
      else case hex_val c of Some d \<Rightarrow> read_hex_ref (acc * 16 + d) r | None \<Rightarrow> None)"

text \<open>The entity after an ampersand: its character and the rest.\<close>

definition read_entity :: "nat list \<Rightarrow> (nat \<times> nat list) option" where
  "read_entity r =
     (if take 4 r = map of_char ''amp;'' then Some (38, drop 4 r)
      else if take 3 r = map of_char ''lt;'' then Some (60, drop 3 r)
      else if take 3 r = map of_char ''gt;'' then Some (62, drop 3 r)
      else if take 5 r = map of_char ''quot;'' then Some (34, drop 5 r)
      else if take 5 r = map of_char ''apos;'' then Some (39, drop 5 r)
      else if take 2 r = map of_char ''#x'' then read_hex_ref 0 (drop 2 r)
      else None)"

lemma read_hex_ref_shorter: "read_hex_ref acc r = Some (c, r') \<Longrightarrow> length r' < length r"
  by (induction acc r rule: read_hex_ref.induct) (force split: if_splits option.splits)+

lemma read_entity_shorter: "read_entity r = Some (c, r') \<Longrightarrow> length r' \<le> length r"
  by (auto simp: read_entity_def dest: read_hex_ref_shorter split: if_splits)

function unescape_cps :: "nat list \<Rightarrow> nat list" where
  "unescape_cps [] = []"
| "unescape_cps (c # r) =
     (if c \<noteq> 38 then c # unescape_cps r
      else case read_entity r of Some (x, r') \<Rightarrow> x # unescape_cps r' | None \<Rightarrow> c # unescape_cps r)"
  by pat_completeness auto
termination
  by (relation "measure length") (auto dest: read_entity_shorter)

lemma read_hex_ref_control:
  assumes "c < 32"
  shows "read_hex_ref 0 (show_hex_upper c @ 59 # r) = Some (c, r)"
proof (cases "c < 16")
  case True
  then have "show_hex_upper c = [hex_digit_upper c]" by (simp add: show_hex_upper.simps)
  moreover have "hex_val (hex_digit_upper c) = Some c" "hex_digit_upper c \<noteq> 59"
    using True by (auto simp: hex_val_def hex_digit_upper_def)
  ultimately show ?thesis by simp
next
  case False
  with assms have "c div 16 = 1" by linarith
  then have "16 + c mod 16 = c" using div_mult_mod_eq [of c 16] by simp
  have "show_hex_upper c = [hex_digit_upper 1, hex_digit_upper (c mod 16)]"
    using False \<open>c div 16 = 1\<close> by (simp add: show_hex_upper.simps [of c] show_hex_upper.simps [of "Suc 0"])
  moreover have "hex_val (hex_digit_upper d) = Some d" "hex_digit_upper d \<noteq> 59" if "d < 16" for d
    using that by (auto simp: hex_val_def hex_digit_upper_def)
  ultimately show ?thesis using \<open>16 + c mod 16 = c\<close> by simp
qed

lemma unescape_escape_cp: "unescape_cps (escape_cp c @ r) = c # unescape_cps r"
proof (cases "c < 32 \<and> c \<noteq> 9 \<and> c \<noteq> 10 \<and> c \<noteq> 13")
  case True
  then have "c \<notin> {34, 38, 39, 60, 62}" by auto
  with True read_hex_ref_control [of c r] show ?thesis
    by (simp add: escape_cp_def read_entity_def)
next
  case False
  then show ?thesis by (auto simp: escape_cp_def read_entity_def)
qed

lemma unescape_escape_cps: "unescape_cps (concat (map escape_cp cs)) = cs"
  by (induction cs) (simp_all add: unescape_escape_cp)

lemma escape_cp_scalar: "is_scalar c \<Longrightarrow> list_all is_scalar (escape_cp c)"
proof (cases "c < 32 \<and> c \<noteq> 9 \<and> c \<noteq> 10 \<and> c \<noteq> 13")
  case True
  have digit: "is_scalar (hex_digit_upper (n mod 16))" for n
  proof -
    have "n mod 16 < 16" by simp
    then show ?thesis unfolding hex_digit_upper_def is_scalar_def by (split if_split) linarith
  qed
  have "list_all is_scalar (show_hex_upper n)" for n
  proof (induction n rule: show_hex_upper.induct)
    case (1 n)
    with digit [of n] show ?case by (cases "n < 16") (simp_all add: show_hex_upper.simps [of n])
  qed
  with True show ?thesis by (auto simp: escape_cp_def is_scalar_def)
qed (auto simp: escape_cp_def is_scalar_def)

lemma chars_xml_escape:
  assumes "utf8_wf s"
  shows "chars (xml_escape s) = concat (map escape_cp (chars s))"
proof -
  have "list_all is_scalar (concat (map escape_cp (chars s)))"
    using chars_scalar [OF assms] escape_cp_scalar by (auto simp: list_all_iff)
  then show ?thesis by (simp add: xml_escape_def)
qed

lemma xml_unescape_escape:
  "utf8_wf s \<Longrightarrow> encode_str (unescape_cps (chars (xml_escape s))) = s"
  by (simp add: chars_xml_escape unescape_escape_cps encode_chars)

lemma escape_cp_no_markup: "x \<in> set (escape_cp c) \<Longrightarrow> x \<notin> {60, 62, 34, 39}"
proof (cases "c < 32 \<and> c \<noteq> 9 \<and> c \<noteq> 10 \<and> c \<noteq> 13")
  case True
  have "y \<in> set (show_hex_upper n) \<Longrightarrow> 48 \<le> y \<and> y \<noteq> 60 \<and> y \<noteq> 62" for y n
  proof (induction n rule: show_hex_upper.induct)
    case (1 n)
    then show ?case
      by (auto simp: show_hex_upper.simps [of n] hex_digit_upper_def split: if_splits)
  qed
  with True show "x \<in> set (escape_cp c) \<Longrightarrow> x \<notin> {60, 62, 34, 39}"
    by (fastforce simp: escape_cp_def)
qed (auto simp: escape_cp_def split: if_splits)

lemma xml_escape_no_markup:
  "utf8_wf s \<Longrightarrow> set (chars (xml_escape s)) \<inter> {60, 62, 34, 39} = {}"
  using escape_cp_no_markup by (auto simp: chars_xml_escape)

end
