(* ===== verification/Policy_Properties.thy ===== *)
theory Policy_Properties
  imports Policy_Store Aws_Service
begin

text \<open>
  What the policy engine promises: the outcome of an evaluation in terms of the statements that
  apply, how the layers combine, what conditions and variables mean, and which policies a caller is
  evaluated against. Each property is stated over the definitions of the component theories.
\<close>

section \<open>Concrete inputs\<close>

text \<open>A caller, a request and a few statements the witnesses below share.\<close>

definition ex_chrono :: chrono where
  "ex_chrono = \<lparr>fmt_secs = show_int, parse_rfc3339 = (\<lambda>_. None), from_timestamp = Some\<rparr>"

definition ex_principal :: principal where
  "ex_principal =
     \<lparr>p_arn = ''arn:aws:iam::123456789012:user/alice'', p_user_id = ''AIDAALICE'', p_account_id = ''123456789012'',
      p_type = User, p_source_identity = None, p_tags = None\<rparr>"

definition ex_request :: "string \<Rightarrow> string \<Rightarrow> eval_request" where
  "ex_request act res =
     \<lparr>r_principal = ex_principal, r_action = act, r_resource = res, r_context = default_context\<rparr>"

definition ex_statement :: "effect \<Rightarrow> string \<Rightarrow> string \<Rightarrow> parsed_statement" where
  "ex_statement eff act res =
     \<lparr>s_effect = eff, s_action = Action [act], s_resource = Resource [res], s_condition = None,
      s_principal = NoPrincipal, s_variables = True\<rparr>"

text \<open>An unconditional identity statement applies where its patterns match.\<close>

lemma ex_applies:
  "applies ch (ex_request act res) False iaw (ex_statement eff pa pr) \<longleftrightarrow>
   action_matches (Action [pa]) act \<and>
   resource_matches ch (ex_statement eff pa pr) res default_context"
  by (simp add: applies_def ex_request_def ex_statement_def principal_gate_def)

lemma ex_statement_effect [simp]: "s_effect (ex_statement eff act res) = eff"
  by (simp add: ex_statement_def)

lemma ex_evaluate:
  "evaluate ch [[ex_statement eff pa pr]] (ex_request act res) =
   (if action_matches (Action [pa]) act \<and> resource_matches ch (ex_statement eff pa pr) res default_context
    then (if eff = EffDeny then ExplicitDeny else Allow) else ImplicitDeny)"
  by (cases eff) (auto simp: evaluate_eq_inner evaluate_inner_eq denies_def grants_def ex_applies)

section \<open>One set of policies\<close>

text \<open>
  C1. Evaluating a set of identity policies is deny-overrides: an applicable deny anywhere decides,
  otherwise an applicable allow anywhere, otherwise the request is implicitly denied.
\<close>

theorem evaluate_deny_overrides:
  "evaluate ch docs req =
   (if \<exists>st \<in> set (concat docs). applies ch req False False st \<and> s_effect st = EffDeny then ExplicitDeny
    else if \<exists>st \<in> set (concat docs). applies ch req False False st \<and> s_effect st = EffAllow then Allow
    else ImplicitDeny)"
  by (simp add: evaluate_eq_inner evaluate_inner_eq denies_def grants_def)

theorem evaluate_deny_overrides_witness:
  "evaluate ex_chrono
     [[ex_statement EffAllow ''s3:*'' ''*''], [ex_statement EffDeny ''s3:Put*'' ''*'']]
     (ex_request ''s3:PutObject'' ''arn:aws:s3:::b/k'') = ExplicitDeny"
proof -
  have "action_matches (Action [''s3:Put*'']) ''s3:PutObject''" by code_simp
  moreover have "resource_matches ex_chrono (ex_statement EffDeny ''s3:Put*'' ''*'') ''arn:aws:s3:::b/k'' default_context"
    by code_simp
  ultimately have "applies ex_chrono (ex_request ''s3:PutObject'' ''arn:aws:s3:::b/k'') False False
      (ex_statement EffDeny ''s3:Put*'' ''*'')"
    by (simp only: ex_applies)
  then show ?thesis by (simp add: evaluate_deny_overrides)
qed

text \<open>
  The order of policies, of statements in them, and repetitions of either do not change the
  decision.
\<close>

theorem evaluate_order_independent:
  assumes "set (concat docs) = set (concat docs')"
  shows "evaluate ch docs req = evaluate ch docs' req"
  unfolding evaluate_eq_inner using assms by (rule evaluate_inner_cong)

theorem evaluate_order_independent_witness:
  "set (concat [[ex_statement EffAllow ''s3:*'' ''*''], [ex_statement EffDeny ''s3:Put*'' ''*'']]) =
     set (concat [[ex_statement EffDeny ''s3:Put*'' ''*'', ex_statement EffAllow ''s3:*'' ''*'']]) \<and>
   evaluate ex_chrono [[ex_statement EffAllow ''s3:*'' ''*''], [ex_statement EffDeny ''s3:Put*'' ''*'']]
       (ex_request ''s3:PutObject'' ''arn:aws:s3:::b/k'') =
     evaluate ex_chrono [[ex_statement EffDeny ''s3:Put*'' ''*'', ex_statement EffAllow ''s3:*'' ''*'']]
       (ex_request ''s3:PutObject'' ''arn:aws:s3:::b/k'')"
proof (intro conjI)
  show "set (concat [[ex_statement EffAllow ''s3:*'' ''*''], [ex_statement EffDeny ''s3:Put*'' ''*'']]) =
     set (concat [[ex_statement EffDeny ''s3:Put*'' ''*'', ex_statement EffAllow ''s3:*'' ''*'']])"
    by (simp add: insert_commute)
  then show "evaluate ex_chrono [[ex_statement EffAllow ''s3:*'' ''*''], [ex_statement EffDeny ''s3:Put*'' ''*'']]
       (ex_request ''s3:PutObject'' ''arn:aws:s3:::b/k'') =
     evaluate ex_chrono [[ex_statement EffDeny ''s3:Put*'' ''*'', ex_statement EffAllow ''s3:*'' ''*'']]
       (ex_request ''s3:PutObject'' ''arn:aws:s3:::b/k'')"
    by (rule evaluate_order_independent)
qed

section \<open>Layers\<close>

text \<open>
  C6. A permission boundary, a session policy and service control policies only take away: a
  request is allowed exactly if the identity policies allow it and every layer that is present
  allows it, for service control policies each document on its own and at least one of them.
\<close>

theorem gates_intersect:
  "evaluate_with_gates_and_scps ch identity boundary session scps req = Allow \<longleftrightarrow>
   evaluate ch identity req = Allow \<and>
   (\<forall>docs. boundary = Some docs \<longrightarrow> evaluate ch docs req = Allow) \<and>
   (\<forall>docs. session = Some docs \<longrightarrow> evaluate ch docs req = Allow) \<and>
   (\<forall>docs. scps = Some docs \<longrightarrow> docs \<noteq> [] \<and> (\<forall>doc \<in> set docs. evaluate ch [doc] req = Allow))"
  by (simp add: evaluate_with_gates_and_scps_def layer_facts evaluate_eq_inner)

theorem gates_intersect_witness:
  "evaluate ex_chrono [[ex_statement EffAllow ''s3:*'' ''*'']] (ex_request ''s3:PutObject'' ''arn:aws:s3:::b/k'') = Allow \<and>
   evaluate_with_gates_and_scps ex_chrono [[ex_statement EffAllow ''s3:*'' ''*'']]
     (Some [[ex_statement EffAllow ''s3:Get*'' ''*'']]) None None
     (ex_request ''s3:PutObject'' ''arn:aws:s3:::b/k'') \<noteq> Allow"
proof -
  have "action_matches (Action [''s3:*'']) ''s3:PutObject''" "\<not> action_matches (Action [''s3:Get*'']) ''s3:PutObject''"
    "resource_matches ex_chrono (ex_statement EffAllow ''s3:*'' ''*'') ''arn:aws:s3:::b/k'' default_context"
    by code_simp+
  then show ?thesis by (simp add: gates_intersect ex_evaluate del: action_matches.simps)
qed

text \<open>
  C2. An explicit deny in any layer, the resource policy included, decides the request.
\<close>

theorem explicit_deny_wins:
  assumes "evaluate ch identity req = ExplicitDeny \<or>
    (\<exists>docs. boundary = Some docs \<and> evaluate ch docs req = ExplicitDeny) \<or>
    (\<exists>docs. session = Some docs \<and> evaluate ch docs req = ExplicitDeny) \<or>
    (\<exists>docs doc. scps = Some docs \<and> doc \<in> set docs \<and> evaluate ch [doc] req = ExplicitDeny) \<or>
    (\<exists>doc. policy = Some doc \<and> evaluate_resource_policy_only ch doc req = ExplicitDeny)"
  shows "evaluate_with_resource_policy_and_gates_and_scps ch identity boundary session scps policy req acct = ExplicitDeny"
proof (cases "intersect_layers ch (evaluate_inner ch identity req False) boundary session scps req = ExplicitDeny")
  case True
  then show ?thesis by (simp add: evaluate_with_resource_policy_and_gates_and_scps_def Let_def)
next
  case False
  then have "\<exists>doc. policy = Some doc \<and> evaluate_inner ch [doc] req True = ExplicitDeny"
    using assms by (auto simp: layer_facts evaluate_eq_inner evaluate_resource_policy_only_def)
  then show ?thesis
    by (auto simp: evaluate_with_resource_policy_and_gates_and_scps_def Let_def evaluate_kms_same_account_def
        evaluate_inner_def)
qed

definition ex_bucket_policy :: "effect \<Rightarrow> string \<Rightarrow> policy_document" where
  "ex_bucket_policy eff act = [(ex_statement eff act ''*'')\<lparr>s_principal := PrincipalIn [AnyAws]\<rparr>]"

lemma ex_bucket_policy_decision:
  "evaluate_resource_policy_only ch (ex_bucket_policy eff pa) (ex_request act res) =
   (if action_matches (Action [pa]) act \<and> resource_matches ch (ex_statement eff pa ''*'') res default_context
    then (if eff = EffDeny then ExplicitDeny else Allow) else ImplicitDeny)"
proof -
  have "resource_matches ch ((ex_statement eff pa ''*'')\<lparr>s_principal := p\<rparr>) res default_context =
      resource_matches ch (ex_statement eff pa ''*'') res default_context" for p
    by (simp add: resource_matches_def ex_statement_def)
  then show ?thesis
    by (cases eff) (auto simp: evaluate_resource_policy_only_def evaluate_inner_eq denies_def grants_def
        ex_bucket_policy_def applies_def ex_statement_def ex_request_def principal_gate_def
        principal_matches_scoped_def)
qed

theorem explicit_deny_wins_witness:
  "evaluate_resource_policy_only ex_chrono (ex_bucket_policy EffDeny ''s3:*'')
     (ex_request ''s3:GetObject'' ''arn:aws:s3:::b/k'') = ExplicitDeny \<and>
   evaluate_with_resource_policy_and_gates_and_scps ex_chrono [[ex_statement EffAllow ''s3:*'' ''*'']] None None None
     (Some (ex_bucket_policy EffDeny ''s3:*'')) (ex_request ''s3:GetObject'' ''arn:aws:s3:::b/k'') ''123456789012'' =
   ExplicitDeny"
proof -
  have "action_matches (Action [''s3:*'']) ''s3:GetObject''"
    "resource_matches ex_chrono (ex_statement EffDeny ''s3:*'' ''*'') ''arn:aws:s3:::b/k'' default_context"
    by code_simp+
  then have "evaluate_resource_policy_only ex_chrono (ex_bucket_policy EffDeny ''s3:*'')
     (ex_request ''s3:GetObject'' ''arn:aws:s3:::b/k'') = ExplicitDeny"
    by (simp add: ex_bucket_policy_decision del: action_matches.simps)
  then show ?thesis using explicit_deny_wins by blast
qed

lemma principal_gate_scoped: "principal_gate st p isr True \<Longrightarrow> principal_gate st p isr False"
proof -
  have "ref_matches True p r \<Longrightarrow> ref_matches False p r" for r by (cases r) auto
  then show "principal_gate st p isr True \<Longrightarrow> principal_gate st p isr False"
    by (auto simp: principal_gate_def principal_matches_scoped_def list_ex_iff split: principal_pattern.splits)
qed

text \<open>
  The statements of a key policy that allow the request by naming its caller, not just the caller's account.
\<close>

definition names_caller :: "chrono \<Rightarrow> eval_request \<Rightarrow> policy_document option \<Rightarrow> bool" where
  "names_caller ch req policy \<longleftrightarrow> (\<exists>doc st. policy = Some doc \<and> st \<in> set doc \<and> grants ch req True True st)"

lemma kms_same_account_eq:
  "evaluate_kms_same_account ch doc gated req =
   (if evaluate_resource_policy_only ch doc req = ExplicitDeny then ExplicitDeny
    else if names_caller ch req (Some doc) \<or> evaluate_resource_policy_only ch doc req = Allow \<and> gated = Allow then Allow
    else ImplicitDeny)"
proof -
  have "\<exists>st \<in> set doc. denies ch req True False st" if "\<exists>st \<in> set doc. denies ch req True True st"
    using that by (auto simp: denies_def applies_def dest: principal_gate_scoped)
  then show ?thesis
    by (auto simp: evaluate_kms_same_account_def evaluate_resource_policy_only_def evaluate_inner_eq
        evaluate_inner_scoped_eq names_caller_def Let_def)
qed

lemma resource_policy_closed_form:
  assumes "gated = evaluate_with_gates_and_scps ch identity boundary session scps req"
    and "res = (case policy of Some doc \<Rightarrow> evaluate_resource_policy_only ch doc req | None \<Rightarrow> ImplicitDeny)"
  shows "evaluate_with_resource_policy_and_gates_and_scps ch identity boundary session scps policy req acct =
    (if gated = ExplicitDeny \<or> res = ExplicitDeny then ExplicitDeny
     else if (if p_account_id (r_principal req) \<noteq> acct then gated = Allow \<and> res = Allow
              else if is_kms_action (r_action req) \<and> policy \<noteq> None
              then names_caller ch req policy \<or> gated = Allow \<and> res = Allow
              else gated = Allow \<or> res = Allow) then Allow
     else ImplicitDeny)"
proof (cases "evaluate_inner ch identity req False = ExplicitDeny")
  case True
  then show ?thesis
    using assms(1) by (simp add: evaluate_with_resource_policy_and_gates_and_scps_def
        evaluate_with_gates_and_scps_def intersect_layers_def)
next
  case False
  then show ?thesis
    unfolding assms evaluate_with_gates_and_scps_def evaluate_with_resource_policy_and_gates_and_scps_def Let_def
    by (cases policy; cases "intersect_layers ch (evaluate_inner ch identity req False) boundary session scps req")
      (auto simp: kms_same_account_eq evaluate_resource_policy_only_def)
qed





section \<open>Conditions\<close>

text \<open>
  C32. A condition operator the engine does not know makes its statement useless for granting: an
  allow statement that was parsed from a document with such an operator never applies.
\<close>

theorem unknown_operator_never_allows:
  assumes "parse_statement v variables = Some st" "as_object v = Some obj" "map_of obj ''Condition'' = Some (JObj m)"
    and "(name, body) \<in> set m" "parse_operator_name name = None" "s_effect st = EffAllow"
  shows "\<not> applies ch req is_resource_policy ignore_account_wide st"
proof -
  let ?e = "(poisoned_entry name)\<lparr>c_policy_variables := variables\<rparr>"
  have "s_condition st = Some (with_policy_variables variables (parse_condition (JObj m)))"
    using assms(1-3) by (auto simp: parse_statement_def bind_eq_Some_conv)
  moreover have "?e \<in> set (with_policy_variables variables (parse_condition (JObj m)))"
    using parse_condition_unknown [OF assms(4,5)] by (auto simp: with_policy_variables_iff)
  moreover have "starts_with (c_key ?e) ''__unknown_operator__:''"
    by (simp add: poisoned_entry_def starts_with_iff)
  ultimately have "\<not> is_none_or (s_condition st) (\<lambda>c. matches_for_effect ch c (r_context req) False)"
    unfolding matches_for_effect_iff by fastforce
  then show ?thesis using assms(6) by (simp add: applies_def)
qed

definition ex_typo_statement :: json where
  "ex_typo_statement =
     JObj [(''Effect'', JStr ''Allow''), (''Action'', JStr ''s3:*''), (''Resource'', JStr ''*''),
           (''Condition'', JObj [(''StringEqual'', JObj [(''aws:username'', JStr ''alice'')])])]"

theorem unknown_operator_never_allows_witness:
  "\<exists>st. parse_statement ex_typo_statement True = Some st \<and> s_effect st = EffAllow \<and>
     \<not> applies ex_chrono (ex_request ''s3:GetObject'' ''arn:aws:s3:::b/k'') False False st"
proof -
  obtain st where st: "parse_statement ex_typo_statement True = Some st" "s_effect st = EffAllow"
    by (simp add: ex_typo_statement_def parse_statement_def parse_effect_def)
  moreover have "as_object ex_typo_statement = Some [(''Effect'', JStr ''Allow''), (''Action'', JStr ''s3:*''),
      (''Resource'', JStr ''*''), (''Condition'', JObj [(''StringEqual'', JObj [(''aws:username'', JStr ''alice'')])])]"
    by (simp add: ex_typo_statement_def)
  moreover have "parse_operator_name ''StringEqual'' = None" by code_simp
  ultimately have "\<not> applies ex_chrono (ex_request ''s3:GetObject'' ''arn:aws:s3:::b/k'') False False st"
    by (intro unknown_operator_never_allows [of ex_typo_statement True st _
          "[(''StringEqual'', JObj [(''aws:username'', JStr ''alice'')])]" "''StringEqual''"
          "JObj [(''aws:username'', JStr ''alice'')]"]) auto
  with st show ?thesis by blast
qed


definition ex_entry :: "condition_operator \<Rightarrow> string \<Rightarrow> string \<Rightarrow> parsed_condition" where
  "ex_entry op k v =
     \<lparr>c_operator = \<lparr>op_base = op, if_exists = False, op_qualifier = Single\<rparr>, c_key = k, c_values = [v],
      c_policy_variables = True\<rparr>"


lemma source_ip_lookup: "lookup ch ctx ''aws:SourceIp'' = Some [show_ip ip]" if "aws_source_ip ctx = Some ip"
proof -
  have "to_ascii_lowercase ''aws:SourceIp'' = ''aws:sourceip''" by code_simp
  then show ?thesis
    using that by (simp add: lookup_def tagged_value_def typed_value_def starts_with_def one_value_def)
qed

text \<open>The addresses a block describes: of the same family, with the same leading bits.\<close>

fun same_block :: "nat option \<Rightarrow> ip_addr \<Rightarrow> ip_addr \<Rightarrow> bool" where
  "same_block len (V4 n) (V4 a) \<longleftrightarrow>
     unwrap_or len 32 \<le> 32 \<and> drop_bit (32 - unwrap_or len 32) n = drop_bit (32 - unwrap_or len 32) a"
| "same_block len (V6 n) (V6 a) \<longleftrightarrow>
     unwrap_or len 128 \<le> 128 \<and> drop_bit (128 - unwrap_or len 128) n = drop_bit (128 - unwrap_or len 128) a"
| "same_block len _ _ \<longleftrightarrow> False"

definition in_block :: "string \<Rightarrow> ip_addr \<Rightarrow> bool" where
  "in_block block addr \<longleftrightarrow>
     (case split_once block (CHR ''/'') of
        None \<Rightarrow> is_some_and (parse_ip block) (\<lambda>net. same_block None net addr)
      | Some (net_text, len_text) \<Rightarrow>
          is_some_and (parse_u8 len_text) (\<lambda>len. is_some_and (parse_ip net_text) (\<lambda>net. same_block (Some len) net addr)))"

lemma len32: "LENGTH(32) = 32" and len128: "LENGTH(128) = 128"
  by simp_all

lemma mask_block:
  fixes n a :: "'w::len word"
  assumes "len \<le> LENGTH('w)"
  shows "(n AND (if len = 0 then 0 else push_bit (LENGTH('w) - len) (- 1))) =
     (a AND (if len = 0 then 0 else push_bit (LENGTH('w) - len) (- 1))) \<longleftrightarrow>
    drop_bit (LENGTH('w) - len) n = drop_bit (LENGTH('w) - len) a"
proof (cases "len = 0")
  case True
  then show ?thesis by (simp add: drop_bit_eq_div unsigned_less word_div_def less_imp_le_nat)
next
  case False
  then show ?thesis using mask_eq_drop_bit [of "LENGTH('w) - len" n a] by simp
qed

lemma cidr_match_in_block:
  assumes "parse_ip value = Some addr"
  shows "cidr_match block value \<longleftrightarrow> in_block block addr"
proof -
  note v4 = mask_block [where 'w = 32, unfolded len32] and v6 = mask_block [where 'w = 128, unfolded len128]
  have *: "(case (parse_ip t, addr) of
      (Some (V4 n), V4 a) \<Rightarrow> (let pl = unwrap_or len 32 in if 32 < pl then False
         else (let mask = (if pl = 0 then 0 else push_bit (32 - pl) (- 1 :: 32 word)) in (n AND mask) = (a AND mask)))
    | (Some (V6 n), V6 a) \<Rightarrow> (let pl = unwrap_or len 128 in if 128 < pl then False
         else (let mask = (if pl = 0 then 0 else push_bit (128 - pl) (- 1 :: 128 word)) in (n AND mask) = (a AND mask)))
    | _ \<Rightarrow> False) \<longleftrightarrow> is_some_and (parse_ip t) (\<lambda>net. same_block len net addr)" for t len
    unfolding Let_def
    by (cases "parse_ip t"; cases "the (parse_ip t)"; cases addr; cases "32 < unwrap_or len 32"; cases "128 < unwrap_or len 128")
      (simp_all add: v4 v6 not_less del: push_bit_minus_one_eq_not_mask split del: if_split)
  show ?thesis
    unfolding cidr_match_def assms option.case *
    by (cases "split_once block (CHR ''/'')") (auto simp: in_block_def split: option.split)
qed

text \<open>
  C34. \<^verbatim>\<open>IpAddress\<close> on a key with one value holds exactly when the value is an address and one of the listed
  blocks contains it: both are IPv4 or both are IPv6, and they agree on as many leading bits as the block
  says, on all bits where it says nothing. Text that is no address or no block matches nothing.
\<close>

theorem source_ip_block:
  assumes "op_base (c_operator entry) = IpAddress" "lookup ch ctx (c_key entry) = Some [value]"
  shows "evaluate_entry ch entry ctx \<longleftrightarrow> (\<exists>addr. parse_ip value = Some addr \<and> (\<exists>block \<in> set (c_values entry). in_block block addr))"
proof -
  have "evaluate_entry ch entry ctx \<longleftrightarrow> (\<exists>block \<in> set (c_values entry). cidr_match block value)"
    using assms by (simp add: evaluate_entry_def Let_def for_values_def supports_policy_variables_def list_ex_iff split: qualifier.splits)
  then show ?thesis
    using cidr_match_in_block by (cases "parse_ip value") (auto simp: cidr_match_def)
qed

lemma in_block_v4: "pl \<le> 32 \<Longrightarrow> in_block (show_ipv4 n @ ''/'' @ show_nat pl) (V4 a) \<longleftrightarrow> drop_bit (32 - pl) n = drop_bit (32 - pl) a"
  using parse_show_v4 [of n] by (simp add: in_block_def split_once_hit ip_text_no_slash parse_unsigned_show)

theorem source_ip_block_witness:
  "evaluate_entry ex_chrono (ex_entry IpAddress ''aws:SourceIp'' (show_ipv4 0x0A000000 @ ''/'' @ show_nat 8))
     (default_context\<lparr>aws_source_ip := Some (V4 0x0A010203)\<rparr>) \<and>
   \<not> evaluate_entry ex_chrono (ex_entry IpAddress ''aws:SourceIp'' (show_ipv4 0x0A000000 @ ''/'' @ show_nat 8))
     (default_context\<lparr>aws_source_ip := Some (V4 0x0B010203)\<rparr>)"
proof -
  let ?e = "ex_entry IpAddress ''aws:SourceIp'' (show_ipv4 0x0A000000 @ ''/'' @ show_nat 8)"
  let ?ctx = "\<lambda>a. default_context\<lparr>aws_source_ip := Some (V4 a)\<rparr>"
  have e: "op_base (c_operator ?e) = IpAddress" "c_key ?e = ''aws:SourceIp''"
    "c_values ?e = [show_ipv4 0x0A000000 @ ''/'' @ show_nat 8]" by (simp_all add: ex_entry_def)
  have "evaluate_entry ex_chrono ?e (?ctx a) \<longleftrightarrow> drop_bit 24 0x0A000000 = drop_bit 24 a" for a
  proof -
    have "lookup ex_chrono (?ctx a) (c_key ?e) = Some [show_ip (V4 a)]"
      unfolding e(2) by (rule source_ip_lookup) simp
    from source_ip_block [OF e(1) this, unfolded e(3)] show ?thesis
      using in_block_v4 [of 8 "0x0A000000" a] by (simp add: parse_show_v4 del: show_ip.simps)
  qed
  then show ?thesis by (simp add: drop_bit_eq_div)
qed

section \<open>Patterns and variables\<close>

lemma nth_char_pos_hit: "length (filter (\<lambda>x. x = c) a) = n \<Longrightarrow> nth_char_pos (a @ c # b) c n = Some (length a)"
proof (induction a arbitrary: n)
  case (Cons d a)
  then show ?case by (cases n) auto
qed simp

lemma has_variables_reference: "has_variables (a @ ''${'' @ b)"
proof -
  have "find_str (a @ ''${'' @ b) ''${'' \<noteq> None" by (induction a) (auto simp: starts_with_def)
  then show ?thesis unfolding has_variables_def contains_str_def .
qed

text \<open>
  C35. A value substituted for a policy variable in a resource pattern stands for itself, whatever
  characters it contains: the pattern matches exactly the resources that have the value verbatim
  between what its two sides match.
\<close>

theorem substituted_value_is_literal:
  assumes "s_resource st = Resource [arn @ '':'' @ pre @ ''${'' @ key @ ''}'' @ post]" "s_variables st"
    and "length (filter (\<lambda>c. c = CHR '':'') arn) = 4"
    and "\<not> has_variables pre" "\<not> has_variables post"
    and "trim key = key" "key \<notin> {''*'', ''?'', ''$''}" "CHR '','' \<notin> set key" "CHR ''}'' \<notin> set key"
    and "lookup ch ctx key = Some [v]"
  shows "resource_matches ch st res ctx \<longleftrightarrow>
    (\<exists>a b. chars res = a @ chars v @ b \<and>
       matches (push_policy_text (arn @ '':'') @ push_policy_text pre) a \<and> matches (push_policy_text post) b)"
proof -
  let ?p = "arn @ '':'' @ pre @ ''${'' @ key @ ''}'' @ post"
  have "expand ch (pre @ ''${'' @ key @ ''}'' @ post) ctx =
      Some (push_policy_text pre @ map Literal (chars v) @ push_policy_text post)"
    using expand_one [OF assms(4,5,9)] reference_pieces_key [OF assms(6-8)] assms(10) by simp
  then have "resource_pattern ch ?p ctx =
      Some (push_policy_text (arn @ '':'') @ push_policy_text pre @ map Literal (chars v) @ push_policy_text post)"
    using nth_char_pos_hit [OF assms(3), of "pre @ ''${'' @ key @ ''}'' @ post"]
    by (simp add: resource_pattern_def)
  moreover have "has_variables ?p"
    using has_variables_reference [of "arn @ '':'' @ pre" "key @ ''}'' @ post"] by simp
  ultimately have "resource_matches ch st res ctx \<longleftrightarrow>
      matches ((push_policy_text (arn @ '':'') @ push_policy_text pre) @ map Literal (chars v) @ push_policy_text post)
        (chars res)"
    using assms(1,2) by (simp add: resource_matches_def piece_glob_exact)
  then show ?thesis unfolding matches_append [of "push_policy_text (arn @ '':'') @ push_policy_text pre"]
      matches_append [of "map Literal (chars v)"] matches_Literals by blast
qed

definition ex_home_statement :: parsed_statement where
  "ex_home_statement =
     (ex_statement EffAllow ''s3:*'' ''*'')\<lparr>s_resource := Resource [''arn:aws:s3::'' @ '':'' @ ''home/'' @ ''${'' @ ''aws:username'' @ ''}'' @ ''/*'']\<rparr>"

theorem substituted_value_is_literal_witness:
  "lookup ex_chrono (default_context\<lparr>aws_username := Some ''*''\<rparr>) ''aws:username'' = Some [''*''] \<and>
   \<not> resource_matches ex_chrono ex_home_statement ''arn:aws:s3:::home/bob/k''
       (default_context\<lparr>aws_username := Some ''*''\<rparr>)"
proof -
  let ?ctx = "default_context\<lparr>aws_username := Some ''*''\<rparr>"
  have lower: "to_ascii_lowercase ''aws:username'' = ''aws:username''" by code_simp
  have look: "lookup ex_chrono ?ctx ''aws:username'' = Some [''*'']"
    by (simp add: lookup_def tagged_value_def typed_value_def lower starts_with_def one_value_def default_context_def)
  have pieces: "chars ''*'' = [42]" "42 \<notin> set (chars ''arn:aws:s3:::home/bob/k'')" by code_simp+
  have tr: "trim ''aws:username'' = ''aws:username''" by code_simp
  have nv: "\<not> has_variables ''home/''" "\<not> has_variables ''/*''" by code_simp+
  have "resource_matches ex_chrono ex_home_statement ''arn:aws:s3:::home/bob/k'' ?ctx \<longleftrightarrow>
    (\<exists>a b. chars ''arn:aws:s3:::home/bob/k'' = a @ chars ''*'' @ b \<and>
       matches (push_policy_text (''arn:aws:s3::'' @ '':'') @ push_policy_text ''home/'') a \<and>
       matches (push_policy_text ''/*'') b)"
    by (rule substituted_value_is_literal [OF _ _ _ nv tr _ _ _ look])
      (simp_all add: ex_home_statement_def ex_statement_def)
  moreover have "chars ''arn:aws:s3:::home/bob/k'' \<noteq> a @ chars ''*'' @ b" for a b
  proof
    assume "chars ''arn:aws:s3:::home/bob/k'' = a @ chars ''*'' @ b"
    then have "42 \<in> set (chars ''arn:aws:s3:::home/bob/k'')" by (simp only: pieces) simp
    with pieces(2) show False by contradiction
  qed
  ultimately show ?thesis using look by blast
qed

text \<open>
  Action names compare without regard to ASCII case, in patterns and in requests.
\<close>

theorem action_case_insensitive:
  assumes "list_all2 (\<lambda>p p'. eq_ignore_ascii_case p p' \<and> CHR '':'' \<in> set p) ps ps'"
    and "eq_ignore_ascii_case a a'" "CHR '':'' \<in> set a"
  shows "action_matches (Action ps) a = action_matches (Action ps') a' \<and>
    action_matches (NotAction ps) a = action_matches (NotAction ps') a'"
proof -
  have step: "iam_glob_match p a True = iam_glob_match p' a' True"
    if "eq_ignore_ascii_case p p'" "CHR '':'' \<in> set p" for p p'
    using iam_glob_match_case [OF that(1) assms(2) that(2) assms(3)] .
  have "list_ex (\<lambda>p. iam_glob_match p a True) ps = list_ex (\<lambda>p. iam_glob_match p a' True) ps'"
    "list_all (\<lambda>p. \<not> iam_glob_match p a True) ps = list_all (\<lambda>p. \<not> iam_glob_match p a' True) ps'"
    using assms(1) by (induction rule: list_all2_induct) (use step in auto)
  moreover have "ps = [] \<longleftrightarrow> ps' = []" using assms(1) by (cases ps; cases ps') auto
  ultimately show ?thesis by simp
qed

theorem action_case_insensitive_witness:
  "eq_ignore_ascii_case ''S3:getobject'' ''s3:GetObject'' \<and>
   action_matches (Action [''s3:Get*'']) ''S3:getobject'' = action_matches (Action [''s3:Get*'']) ''s3:GetObject''"
proof -
  have "eq_ignore_ascii_case ''S3:getobject'' ''s3:GetObject''" by code_simp
  moreover from this have "action_matches (Action [''s3:Get*'']) ''S3:getobject'' =
      action_matches (Action [''s3:Get*'']) ''s3:GetObject''"
    using action_case_insensitive [of "[''s3:Get*'']" "[''s3:Get*'']" "''S3:getobject''" "''s3:GetObject''"]
    by (simp del: action_matches.simps)
  ultimately show ?thesis by blast
qed

text \<open>
  C36. The wildcard matcher never accepts a value its pattern does not describe, and on values
  without an asterisk it accepts exactly the values the pattern describes.
\<close>

theorem glob_match_correct:
  "(glob_match p v \<longrightarrow> wildcard p v) \<and> (42 \<notin> set (chars v) \<longrightarrow> (glob_match p v \<longleftrightarrow> wildcard p v))"
  by (simp add: glob_match_wildcard glob_match_iff_wildcard)

theorem glob_match_correct_witness:
  "glob_match ''s3:Get*'' ''s3:GetObject'' \<and> wildcard ''s3:Get*'' ''s3:GetObject'' \<and>
   42 \<notin> set (chars ''s3:GetObject'')"
proof -
  have "42 \<notin> set (chars ''s3:GetObject'')" and "glob_match ''s3:Get*'' ''s3:GetObject''"
    by code_simp+
  then show ?thesis using glob_match_correct [of "''s3:Get*''" "''s3:GetObject''"] by simp
qed

text \<open>
  On a value that starts with an asterisk the matcher rejects what the pattern describes: the
  equality test comes before the wildcard test and consumes the pattern's asterisk. A deny on every
  object of a bucket therefore does not apply to an object whose key starts with one.
\<close>

theorem glob_match_asterisk_value:
  "wildcard ''arn:aws:s3:::b/*'' ''arn:aws:s3:::b/*x'' \<and> \<not> glob_match ''arn:aws:s3:::b/*'' ''arn:aws:s3:::b/*x'' \<and>
   evaluate ex_chrono [[ex_statement EffAllow ''s3:*'' ''arn:aws:s3:::b?*x''],
       [ex_statement EffDeny ''s3:*'' ''arn:aws:s3:::b/*'']] (ex_request ''s3:GetObject'' ''arn:aws:s3:::b/*x'') = Allow"
proof -
  have "action_matches (Action [''s3:*'']) ''s3:GetObject''" by code_simp
  moreover have "resource_matches ex_chrono (ex_statement EffAllow ''s3:*'' ''arn:aws:s3:::b?*x'') ''arn:aws:s3:::b/*x'' default_context"
    "\<not> resource_matches ex_chrono (ex_statement EffDeny ''s3:*'' ''arn:aws:s3:::b/*'') ''arn:aws:s3:::b/*x'' default_context"
    by code_simp+
  moreover have "wildcard ''arn:aws:s3:::b/*'' ''arn:aws:s3:::b/*x''" "\<not> glob_match ''arn:aws:s3:::b/*'' ''arn:aws:s3:::b/*x''"
    by code_simp+
  ultimately show ?thesis
    by (simp add: evaluate_eq_inner evaluate_inner_eq denies_def grants_def ex_applies del: action_matches.simps)
qed

section \<open>Which policies a caller is evaluated against\<close>

definition ex_allow_all :: json where
  "ex_allow_all =
     JObj [(''Statement'', JArr [JObj [(''Effect'', JStr ''Allow''), (''Action'', JStr ''*''), (''Resource'', JStr ''*'')]])]"

text \<open>The text \<open>all\<close> parses to a document that allows everything, any other text does not parse.\<close>

definition ex_iam_env :: iam_env where
  "ex_iam_env =
     \<lparr>env_chrono = ex_chrono, env_from_json = (\<lambda>t. if t = ''all'' then Some ex_allow_all else None),
      env_catalog = (\<lambda>_. None)\<rparr>"

definition ex_iam_state :: "string option \<Rightarrow> iam_state" where
  "ex_iam_state boundary =
     \<lparr>is_users = [(''alice'', \<lparr>u_user_name = ''alice'', u_arn = p_arn ex_principal, u_permissions_boundary = boundary\<rparr>)],
      is_roles = [], is_policies = [], is_role_policies = [], is_role_inline_policies = [],
      is_user_policies = [], is_user_inline_policies = [(''alice'', [(''p'', ''all'')])], is_groups = []\<rparr>"

definition ex_states :: "string option \<Rightarrow> iam_state multi_account_state" where
  "ex_states boundary =
     \<lparr>default_account_id = ''123456789012'', ms_region = ''us-east-1'', ms_endpoint = [],
      accounts = [(''123456789012'', ex_iam_state boundary)]\<rparr>"

text \<open>
  C30. The policies a user is evaluated against are exactly the inline and attached ones of the user
  and of every group the user is a member of, however the attachments repeat across groups.
\<close>

theorem user_policies_complete:
  assumes "p_type p = User" "user_name_from_arn (p_arn p) = Some user"
  shows "set (collect_identity_policies env st p) = user_docs env st user"
  using assms by (simp add: collect_identity_policies_def collect_user_policies_set)

theorem user_policies_complete_witness:
  "user_name_from_arn (p_arn ex_principal) = Some ''alice'' \<and>
   set (collect_identity_policies ex_iam_env (ex_iam_state None) ex_principal) = {from_value ex_allow_all}"
proof -
  have u: "user_name_from_arn (p_arn ex_principal) = Some ''alice''" by code_simp
  have "user_docs ex_iam_env (ex_iam_state None) ''alice'' = {from_value ex_allow_all}"
    by (simp add: user_docs_def inline_docs_def managed_docs_def ex_iam_state_def ex_iam_env_def parse_document_def)
  with u show ?thesis
    using user_policies_complete [of ex_principal "''alice''" ex_iam_env "ex_iam_state None"]
    by (simp add: ex_principal_def)
qed

text \<open>
  C31. Under a permission boundary that names a policy that does not exist the identity policies allow nothing:
  the evaluation without a resource policy never allows, and the one with a resource policy allows only what
  the resource policy itself allows to a caller of the resource's own account.
\<close>

theorem dangling_boundary_denies:
  assumes "multi_get states (p_account_id p) = Some st" "\<not> is_root p" "boundary_arn st p = Some a"
    and "managed_policy_default_document env st a = None"
  shows "evaluator_evaluate env states p act ctx session_policies scps \<noteq> IamAllow \<and>
    (evaluator_evaluate_with_resource_policy env states p act ctx policy acct session_policies scps = IamAllow \<longrightarrow>
       acct = p_account_id p \<and> evaluator_resource_policy_only env p act ctx policy = IamAllow)"
proof
  have "collect_boundary_policies env st p = Some []"
    using assms by (simp add: collect_boundary_policies_def)
  then have gated: "evaluate_with_gates_and_scps (env_chrono env) (collect_identity_policies env st p)
      (collect_boundary_policies env st p) session' scps' (to_request p act ctx) \<noteq> Allow" for session' scps'
    by (simp add: evaluate_with_gates_and_scps_def intersect_layers_Allow)
  show "evaluator_evaluate env states p act ctx session_policies scps \<noteq> IamAllow"
    using assms(1) gated by (simp add: evaluator_evaluate_def)
  have direct: "names_caller ch req (Some doc) \<Longrightarrow> evaluate_resource_policy_only ch doc req \<noteq> ImplicitDeny" for ch req doc
    by (auto simp: names_caller_def evaluate_resource_policy_only_def evaluate_inner_eq grants_def applies_def
        dest: principal_gate_scoped)
  have "p_account_id (r_principal (to_request p act ctx)) = p_account_id p" by (simp add: to_request_def)
  then show "evaluator_evaluate_with_resource_policy env states p act ctx policy acct session_policies scps = IamAllow \<longrightarrow>
       acct = p_account_id p \<and> evaluator_resource_policy_only env p act ctx policy = IamAllow"
    using assms(1) gated
    by (cases policy; cases "evaluate_resource_policy_only (env_chrono env) (parse_document (env_from_json env) (the policy)) (to_request p act ctx)")
      (auto simp: evaluator_evaluate_with_resource_policy_def resource_policy_closed_form [OF refl refl]
        evaluator_resource_policy_only_def dest: direct split: if_splits)
qed

theorem dangling_boundary_denies_witness:
  "boundary_arn (ex_iam_state (Some ''arn:gone'')) ex_principal = Some ''arn:gone'' \<and>
   evaluator_evaluate ex_iam_env (ex_states (Some ''arn:gone'')) ex_principal
     \<lparr>ia_service = ''s3'', ia_action = ''GetObject'', ia_resource = ''arn:aws:s3:::b/k''\<rparr> default_context [] None \<noteq> IamAllow"
proof -
  have u: "user_name_from_arn (p_arn ex_principal) = Some ''alice''" by code_simp
  have b: "boundary_arn (ex_iam_state (Some ''arn:gone'')) ex_principal = Some ''arn:gone''"
    using u by (simp add: boundary_arn_def ex_iam_state_def) (simp add: ex_principal_def)
  have r: "\<not> is_root ex_principal" by code_simp
  have "multi_get (ex_states (Some ''arn:gone'')) (p_account_id ex_principal) = Some (ex_iam_state (Some ''arn:gone''))"
    by (simp add: multi_get_def ex_states_def ex_principal_def)
  moreover have "managed_policy_default_document ex_iam_env (ex_iam_state (Some ''arn:gone'')) ''arn:gone'' = None"
    by (simp add: managed_policy_default_document_def ex_iam_state_def ex_iam_env_def)
  ultimately show ?thesis using dangling_boundary_denies [OF _ r b] b by blast
qed

text \<open>
  A service control policy whose text does not parse lets the evaluation without a resource policy allow
  nothing: it counts as a document without statements, not as an absent one.
\<close>

theorem unparsable_scp_denies:
  assumes "t \<in> set raw" "env_from_json env t = None"
  shows "evaluator_evaluate env states p act ctx session_policies (Some raw) \<noteq> IamAllow"
proof -
  have "[] \<in> set (map (parse_document (env_from_json env)) raw)"
    using assms by (force simp: parse_document_def)
  then show ?thesis
    by (force simp: evaluator_evaluate_def evaluate_with_gates_and_scps_def layer_facts parse_scp_policies_def
        evaluate_inner_eq split: option.splits)
qed

theorem unparsable_scp_denies_witness:
  "env_from_json ex_iam_env ''{'' = None \<and>
   evaluator_evaluate ex_iam_env (ex_states None) ex_principal
     \<lparr>ia_service = ''s3'', ia_action = ''GetObject'', ia_resource = ''arn:aws:s3:::b/k''\<rparr> default_context []
     (Some [''all'', ''{'']) \<noteq> IamAllow"
proof -
  have "env_from_json ex_iam_env ''{'' = None" by (simp add: ex_iam_env_def)
  then show ?thesis using unparsable_scp_denies [of "''{''" "[''all'', ''{'']" ex_iam_env] by simp
qed

definition ex_not_principal :: json where
  "ex_not_principal =
     JObj [(''Statement'', JObj [(''Effect'', JStr ''Allow''), (''NotPrincipal'', JObj [(''AWS'', JStr ''123456789012'')]),
       (''Action'', JStr ''s3:GetObject''), (''Resource'', JStr ''*'')])]"

text \<open>
  A caller without credentials is allowed by a resource policy that names the principals it
  excludes: an allow with \<^verbatim>\<open>NotPrincipal\<close> applies to the anonymous principal.
\<close>

theorem anonymous_matches_not_principal:
  "evaluator_evaluate_anonymous (ex_iam_env\<lparr>env_from_json := (\<lambda>_. Some ex_not_principal)\<rparr>)
     \<lparr>ia_service = ''s3'', ia_action = ''GetObject'', ia_resource = ''arn:aws:s3:::b/k''\<rparr> default_context (Some ''p'') = IamAllow"
proof -
  let ?st = "\<lparr>s_effect = EffAllow, s_action = Action [''s3:GetObject''], s_resource = Resource [''*''], s_condition = None,
    s_principal = NotPrincipalIn [AwsAccountRoot ''123456789012''], s_variables = False\<rparr>"
  have cls: "classify_aws_principal ''123456789012'' = AwsAccountRoot ''123456789012''" by code_simp
  have doc: "from_value ex_not_principal = [?st]"
    by (simp add: from_value_def ex_not_principal_def parse_statement_def parse_effect_def json_get_def cls)
  have m: "action_matches (Action [''s3:GetObject'']) ''s3:GetObject''"
    "resource_matches ex_chrono ?st ''arn:aws:s3:::b/k'' default_context" by code_simp+
  have "applies ex_chrono (to_request anonymous_principal
      \<lparr>ia_service = ''s3'', ia_action = ''GetObject'', ia_resource = ''arn:aws:s3:::b/k''\<rparr> default_context) True False ?st"
    using m by (simp add: applies_def to_request_def action_string_def principal_gate_def principal_matches_def
        principal_matches_scoped_def anonymous_principal_def del: action_matches.simps)
  then show ?thesis
    by (simp add: evaluator_evaluate_anonymous_def parse_document_def ex_iam_env_def doc
        evaluate_resource_policy_only_def evaluate_inner_eq denies_def grants_def)
qed

end
