(* ===== verification/Sqs_State.thy ===== *)
theory Sqs_State
  imports Multi_Account Aws_Service
begin

text \<open>
  The queue service's state (\<^verbatim>\<open>fakecloud-sqs/src/state.rs\<close>): messages, queues, move tasks, and the
  migration of account-wide snapshots to per-region states.

  The cancel flag of a move task is shared with
  its worker and not part of the persisted state; it is the field \<open>mt_cancel\<close> here. A receive
  count is a natural number: it would take \<open>2 ^ 32\<close> receives of one message to leave \<^verbatim>\<open>u32\<close>.

  \<open>region_queue_from_legacy\<close> shows that the migration files every queue under the region its ARN
  names, the default region if it names none, and loses or invents none.
\<close>

section \<open>Messages and queues\<close>

record message_attribute =
  ma_data_type :: string
  ma_string_value :: "string option"
  ma_binary_value :: "string option"

record dedup_entry =
  de_message_id :: string
  de_sequence_number :: "string option"
  de_expiry :: int

record sqs_message =
  m_id :: string
  m_receipt_handle :: "string option"
  m_body :: string
  m_md5_of_body :: string
  m_sent_timestamp :: int
  m_attributes :: "string smap"
  m_message_attributes :: "message_attribute smap"
  m_visible_at :: "int option"
  m_receive_count :: nat
  m_first_received_at :: "int option"
  m_group :: "string option"
  m_dedup :: "string option"
  m_created_at :: int
  m_sequence_number :: "string option"

record redrive_policy =
  rd_target_arn :: string
  rd_max_receive_count :: nat

record receive_attempt_entry =
  ra_message_ids :: "string list"
  ra_expiry :: int

record sqs_queue =
  q_name :: string
  q_url :: string
  q_arn :: string
  q_created_at :: int
  q_messages :: "sqs_message list"
  q_inflight :: "sqs_message list"
  q_attributes :: "string smap"
  q_is_fifo :: bool
  q_dedup_cache :: "dedup_entry smap"
  q_redrive_policy :: "redrive_policy option"
  q_tags :: "string smap"
  q_next_sequence_number :: nat
  q_permission_labels :: "string list"
  q_receipt_handle_map :: "string list smap"
  q_receive_attempt_cache :: "receive_attempt_entry smap"

definition visibility_timeout_secs :: "sqs_queue \<Rightarrow> int" where
  "visibility_timeout_secs q =
     clamp 0 43200 (unwrap_or (Option.bind (map_of (q_attributes q) ''VisibilityTimeout'') parse_i64) 30)"

definition delay_secs :: "sqs_queue \<Rightarrow> int option" where
  "delay_secs q =
     map_option (clamp 0 900) (Option.bind (map_of (q_attributes q) ''DelaySeconds'') parse_i64)"

section \<open>Move tasks\<close>

datatype move_status = Running | Completed | Cancelling | Cancelled | Failed

fun move_status_as_str :: "move_status \<Rightarrow> string" where
  "move_status_as_str Running = ''RUNNING''"
| "move_status_as_str Completed = ''COMPLETED''"
| "move_status_as_str Cancelling = ''CANCELLING''"
| "move_status_as_str Cancelled = ''CANCELLED''"
| "move_status_as_str Failed = ''FAILED''"

record move_task =
  mt_handle :: string
  mt_source_arn :: string
  mt_destination_arn :: "string option"
  mt_max_per_second :: "int option"
  mt_status :: move_status
  mt_moved :: nat
  mt_to_move :: nat
  mt_started :: int
  mt_failure_reason :: "string option"
  mt_driver_pid :: nat
  mt_cancel :: bool

section \<open>Service state\<close>

record sqs_state =
  ss_account_id :: string
  ss_region :: string
  ss_endpoint :: string
  ss_queues :: "sqs_queue smap"
  ss_name_to_url :: "string smap"
  ss_move_tasks :: "move_task list"

definition sqs_new :: "string \<Rightarrow> string \<Rightarrow> string \<Rightarrow> sqs_state" where
  "sqs_new acct rgn endpoint =
     \<lparr>ss_account_id = acct, ss_region = rgn, ss_endpoint = endpoint, ss_queues = [], ss_name_to_url = [],
      ss_move_tasks = []\<rparr>"

definition sqs_reset :: "sqs_state \<Rightarrow> sqs_state" where
  "sqs_reset st = st\<lparr>ss_queues := [], ss_name_to_url := [], ss_move_tasks := []\<rparr>"

text \<open>\<^verbatim>\<open>impl AccountState for SqsState\<close>; \<^verbatim>\<open>inherit_from\<close> is the trait's default, a no-op.\<close>

definition sqs_ops :: "sqs_state account_ops" where
  "sqs_ops = \<lparr>new_for_account = sqs_new, inherit_from = (\<lambda>st _. st)\<rparr>"

type_synonym sqs_store = "sqs_state multi_region_state"

section \<open>Splitting a legacy state by region\<close>

definition put_queue :: "string \<Rightarrow> sqs_queue \<Rightarrow> sqs_state \<Rightarrow> sqs_state" where
  "put_queue url q st =
     st\<lparr>ss_name_to_url := bt_insert (q_name q) url (ss_name_to_url st),
        ss_queues := bt_insert url q (ss_queues st)\<rparr>"

text \<open>One step of the first loop; the second component is \<^verbatim>\<open>queue_regions\<close>.\<close>

definition split_queue ::
  "string \<times> sqs_queue \<Rightarrow> sqs_state regional_state \<times> string smap \<Rightarrow> sqs_state regional_state \<times> string smap" where
  "split_queue e acc =
     (let (url, q) = e; (into, queue_regions) = acc;
          rgn = region_or_default into (region_of (q_arn q));
          into' = region_mut sqs_ops rgn into;
          target_region = (case region_get into' rgn of Some st \<Rightarrow> ss_region st | None \<Rightarrow> rgn)
      in (region_write rgn (put_queue url q) into', bt_insert (q_arn q) target_region queue_regions))"

definition split_task :: "string smap \<Rightarrow> move_task \<Rightarrow> sqs_state regional_state \<Rightarrow> sqs_state regional_state" where
  "split_task queue_regions t into =
     (let rgn = region_or_default into
                  (opt_or (map_of queue_regions (mt_source_arn t)) (region_of (mt_source_arn t)))
      in region_write rgn (\<lambda>st. st\<lparr>ss_move_tasks := ss_move_tasks st @ [t]\<rparr>) (region_mut sqs_ops rgn into))"

definition split_by_region :: "sqs_state \<Rightarrow> sqs_state regional_state \<Rightarrow> sqs_state regional_state" where
  "split_by_region st into =
     (let (into', queue_regions) = fold split_queue (ss_queues st) (into, [])
      in fold (split_task queue_regions) (ss_move_tasks st) into')"

definition from_legacy :: "string \<Rightarrow> string \<Rightarrow> string \<Rightarrow> sqs_state \<Rightarrow> sqs_state regional_state" where
  "from_legacy acct dflt endpoint legacy = split_by_region legacy (regional_new acct dflt endpoint)"

definition into_regional :: "sqs_state multi_account_state \<Rightarrow> sqs_store" where
  "into_regional ms = multi_map_into (\<lambda>acct st. from_legacy acct (ms_region ms) (ms_endpoint ms) st) ms"

section \<open>Facts\<close>

lemma visibility_timeout_bounds: "0 \<le> visibility_timeout_secs q \<and> visibility_timeout_secs q \<le> 43200"
  unfolding visibility_timeout_secs_def by (rule clamp_bounds) simp

lemma delay_bounds: "delay_secs q = Some d \<Longrightarrow> 0 \<le> d \<and> d \<le> 900"
  using clamp_bounds [of 0 900] by (auto simp: delay_secs_def)

lemma default_region_writes [simp]:
  "default_region (region_write r f rs) = default_region rs"
  "default_region (region_mut ops r rs) = default_region rs"
  by (simp_all add: region_write_def region_mut_def insert_region_def Let_def)

lemma region_get_mut_write:
  "region_get (region_write r f (region_mut ops r rs)) r' =
   (if r' = r then Some (f (case region_get rs r of Some st \<Rightarrow> st
      | None \<Rightarrow> (case first_value (regions rs) of
                   Some sib \<Rightarrow> inherit_from ops (new_for_account ops (rs_account_id rs) r (rs_endpoint rs)) sib
                 | None \<Rightarrow> new_for_account ops (rs_account_id rs) r (rs_endpoint rs))))
    else region_get rs r')"
  by (auto simp: region_get_def region_write_def region_mut_def insert_region_def Let_def map_of_bt_modify
      map_of_bt_insert split: option.splits)

text \<open>The queue stored under a URL of a region.\<close>

definition region_queue :: "sqs_state regional_state \<Rightarrow> string \<Rightarrow> string \<Rightarrow> sqs_queue option" where
  "region_queue rs rgn url = Option.bind (region_get rs rgn) (\<lambda>st. map_of (ss_queues st) url)"

lemma region_queue_split_queue:
  "region_queue (fst (split_queue (url, q) (into, qr))) rgn u =
   (if rgn = region_or_default into (region_of (q_arn q)) \<and> u = url then Some q
    else region_queue into rgn u)"
proof -
  let ?r = "region_or_default into (region_of (q_arn q))"
  have "region_queue (region_write ?r (put_queue url q) (region_mut sqs_ops ?r into)) rgn u =
      (if rgn = ?r \<and> u = url then Some q else region_queue into rgn u)"
    by (auto simp: region_queue_def region_get_mut_write put_queue_def map_of_bt_insert sqs_ops_def
        sqs_new_def split: option.splits)
  then show ?thesis by (simp add: split_queue_def Let_def)
qed

lemma default_region_split_queue [simp]:
  "default_region (fst (split_queue e acc)) = default_region (fst acc)"
  by (cases e; cases acc) (simp add: split_queue_def Let_def)

lemma region_or_default_cong:
  "default_region rs = default_region rs' \<Longrightarrow> region_or_default rs r = region_or_default rs' r"
  by (simp add: region_or_default_def)

lemma split_queues:
  assumes "distinct (map fst qs)"
  shows "default_region (fst (fold split_queue qs acc)) = default_region (fst acc) \<and>
    region_queue (fst (fold split_queue qs acc)) rgn url =
    (case map_of qs url of
       Some q \<Rightarrow> if rgn = region_or_default (fst acc) (region_of (q_arn q)) then Some q
                  else region_queue (fst acc) rgn url
     | None \<Rightarrow> region_queue (fst acc) rgn url)"
  using assms
proof (induction qs arbitrary: acc)
  case (Cons e qs)
  obtain u q where e: "e = (u, q)" by (cases e)
  obtain into qr where acc: "acc = (into, qr)" by (cases acc)
  let ?acc = "split_queue (u, q) (into, qr)"
  have d: "default_region (fst ?acc) = default_region into"
    by (simp only: default_region_split_queue fst_conv)
  have rd: "region_or_default (fst ?acc) r = region_or_default into r" for r
    using d by (rule region_or_default_cong)
  have "map_of qs u = None" using Cons.prems e by (simp add: map_of_eq_None_iff)
  then show ?case
    using Cons.IH [of ?acc] Cons.prems e acc d rd
    by (auto simp: region_queue_split_queue split: option.splits)
qed simp

lemma default_region_split_task [simp]: "default_region (split_task qr t into) = default_region into"
  by (simp add: split_task_def Let_def)

lemma region_queue_split_task: "region_queue (split_task qr t into) rgn url = region_queue into rgn url"
  by (auto simp: split_task_def Let_def region_queue_def region_get_mut_write sqs_ops_def sqs_new_def
      split: option.splits)

lemma region_queue_split_tasks: "region_queue (fold (split_task qr) ts into) rgn url = region_queue into rgn url"
  by (induction ts arbitrary: into) (simp_all add: region_queue_split_task)

lemma region_queue_from_legacy:
  assumes "distinct (map fst (ss_queues st))"
  shows "region_queue (from_legacy acct dflt endpoint st) rgn url =
    (case map_of (ss_queues st) url of
       Some q \<Rightarrow> if rgn = unwrap_or (region_of (q_arn q)) dflt then Some q else None
     | None \<Rightarrow> None)"
proof -
  have nonempty: "region_of a = Some r \<Longrightarrow> r \<noteq> []" for a r
    by (auto simp: region_of_def bind_eq_Some_conv opt_filter_def split: option.splits if_splits)
  then have rd: "region_or_default (regional_new acct dflt endpoint) (region_of a) = unwrap_or (region_of a) dflt"
    for a by (cases "region_of a") (auto simp: region_or_default_def regional_new_def)
  have empty: "region_queue (regional_new acct dflt endpoint) rgn url = None"
    by (simp add: region_queue_def regional_new_def region_get_def)
  obtain into qr where f: "fold split_queue (ss_queues st) (regional_new acct dflt endpoint, []) = (into, qr)"
    by (cases "fold split_queue (ss_queues st) (regional_new acct dflt endpoint, [])")
  have "region_queue into rgn url =
      (case map_of (ss_queues st) url of
         Some q \<Rightarrow> if rgn = unwrap_or (region_of (q_arn q)) dflt then Some q else None
       | None \<Rightarrow> None)"
    using split_queues [OF assms, of "(regional_new acct dflt endpoint, [])" rgn url] f
    by (cases "map_of (ss_queues st) url") (simp_all add: rd empty)
  then show ?thesis
    by (simp add: from_legacy_def split_by_region_def Let_def f region_queue_split_tasks)
qed

end
