(* ===== verification/Sqs_Helpers.thy ===== *)
theory Sqs_Helpers
  imports Sqs_State
begin

text \<open>
  The helpers of the queue service (\<^verbatim>\<open>fakecloud-sqs/src/helpers.rs\<close>, \<^verbatim>\<open>service/auth.rs\<close>): request
  parsing, attribute validation, deduplication keys, sequence numbers, digests, and the forms a
  queue can be addressed by.

  What belongs to other crates is the record \<open>sqs_env\<close>: the clock (all readings in one request
  are one instant), fresh identifiers, digests, base64, JSON text, the KMS hook, the class of
  alphanumeric characters above ASCII, and the process id and environment override.
\<close>

section \<open>Environment\<close>

record kms_hook =
  kms_encrypt :: "string \<Rightarrow> string \<Rightarrow> string \<Rightarrow> string \<Rightarrow> string \<Rightarrow> (string \<times> string) list \<Rightarrow> string + string"
  kms_decrypt :: "string \<Rightarrow> string \<Rightarrow> string \<Rightarrow> (string \<times> string) list \<Rightarrow> string + string"

record sqs_env =
  now :: int
  uuid :: "nat \<Rightarrow> string"
  md5_hex :: "string \<Rightarrow> string"
  sha256_hex :: "string \<Rightarrow> string"
  b64_decode :: "string \<Rightarrow> string option"
  b64_encode :: "string \<Rightarrow> string"
  b64url_encode :: "string \<Rightarrow> string"
  b64url_decode :: "string \<Rightarrow> string option"
  from_json :: "string \<Rightarrow> json option"
  to_json :: "json \<Rightarrow> string"
  kms :: "kms_hook option"
  utf8_lossy :: "string \<Rightarrow> string"
  unicode_alphanumeric :: "nat \<Rightarrow> bool"
  process_id :: nat
  external_url :: "string option"
  service_region :: string
  snapshot_saved :: bool

definition cp_is_alphanumeric :: "sqs_env \<Rightarrow> nat \<Rightarrow> bool" where
  "cp_is_alphanumeric env c =
     (if c < 128 then is_ascii_alphanumeric (char_of c) else unicode_alphanumeric env c)"

definition looks_like_fakecloud_envelope :: "sqs_env \<Rightarrow> string \<Rightarrow> bool" where
  "looks_like_fakecloud_envelope env body =
     (if starts_with body ''fakecloud-kms:'' then True
      else case b64_decode env body of
             Some bytes \<Rightarrow> starts_with bytes [CHR 0x01, CHR 0x02, CHR 0x02, CHR 0x00]
           | None \<Rightarrow> False)"

section \<open>Errors\<close>

definition missing_param :: "string \<Rightarrow> service_error" where
  "missing_param name =
     aws_error 400 ''MissingParameter'' (''The request must contain the parameter '' @ name)"

definition queue_not_found :: service_error where
  "queue_not_found =
     aws_error_with_headers 400 ''AWS.SimpleQueueService.NonExistentQueue''
       ''The specified queue does not exist.''
       [(''x-amzn-query-error'', ''AWS.SimpleQueueService.NonExistentQueue;Sender'')]"

definition invalid_attribute :: "string \<Rightarrow> service_error" where
  "invalid_attribute name =
     aws_error 400 ''InvalidAttributeValue'' (''Invalid value for the parameter '' @ name @ ''.'')"

section \<open>Queue attributes\<close>

definition validate_visibility_timeout_attr :: "string option \<Rightarrow> service_error + unit" where
  "validate_visibility_timeout_attr value =
     (case value of
        None \<Rightarrow> Inr ()
      | Some vt \<Rightarrow>
          (case parse_i64 vt of
             Some v \<Rightarrow> if 0 \<le> v \<and> v \<le> 43200 then Inr () else Inl (invalid_attribute ''VisibilityTimeout'')
           | None \<Rightarrow> Inl (invalid_attribute ''VisibilityTimeout'')))"

definition validate_create_queue_attributes :: "string smap \<Rightarrow> service_error + unit" where
  "validate_create_queue_attributes attrs =
     and_then
       (case map_of attrs ''DelaySeconds'' of
          None \<Rightarrow> Inr ()
        | Some ds \<Rightarrow>
            (case parse_i64 ds of
               Some d \<Rightarrow> if 0 \<le> d \<and> d \<le> 900 then Inr () else Inl (invalid_attribute ''DelaySeconds'')
             | None \<Rightarrow> Inl (invalid_attribute ''DelaySeconds'')))
       (\<lambda>_. and_then (validate_visibility_timeout_attr (map_of attrs ''VisibilityTimeout''))
       (\<lambda>_. case Option.bind (map_of attrs ''MaximumMessageSize'') parse_u64 of
              Some sz \<Rightarrow>
                if 1024 \<le> sz \<and> sz \<le> 1048576 then Inr ()
                else Inl (invalid_attribute ''MaximumMessageSize'')
            | None \<Rightarrow> Inr ()))"

text \<open>The size bound on what sorting an object's entries can hand to a recursive call.\<close>

lemma json_entry_size: "(k, v) \<in> set m \<Longrightarrow> size v < size (JObj m)"
  by (induction m) auto

function sort_json_keys :: "json \<Rightarrow> json" where
  "sort_json_keys (JObj m) = JObj (map (\<lambda>(k, v). (k, sort_json_keys v)) (sort_key fst m))"
| "sort_json_keys (JArr xs) = JArr (map sort_json_keys xs)"
| "sort_json_keys JNull = JNull"
| "sort_json_keys (JBool b) = JBool b"
| "sort_json_keys (JNum n) = JNum n"
| "sort_json_keys (JStr s) = JStr s"
  by pat_completeness auto
termination
proof (relation "measure size")
  fix xs :: "json list" and x
  assume "x \<in> set xs"
  then show "(x, JArr xs) \<in> measure size" by (induction xs) auto
next
  fix m :: "(string \<times> json) list" and e k v
  assume "e \<in> set (sort_key fst m)" "(k, v) = e"
  then have "(k, v) \<in> set m" by simp
  then show "(v, JObj m) \<in> measure size" using json_entry_size by fastforce
qed simp

definition json_valued_attrs :: "string list" where
  "json_valued_attrs = [''Policy'', ''RedrivePolicy'', ''RedriveAllowPolicy'']"

definition canonicalize_json_attr :: "sqs_env \<Rightarrow> string \<Rightarrow> string \<Rightarrow> string" where
  "canonicalize_json_attr env name value =
     (if name \<notin> set json_valued_attrs then value
      else case from_json env value of
             Some parsed \<Rightarrow> to_json env (sort_json_keys parsed)
           | None \<Rightarrow> value)"

text \<open>\<^verbatim>\<open>as u32\<close> keeps the low 32 bits.\<close>

definition parse_redrive_policy :: "sqs_env \<Rightarrow> string \<Rightarrow> redrive_policy option" where
  "parse_redrive_policy env attr =
     Option.bind (from_json env attr) (\<lambda>rp.
     Option.bind (as_str (json_index rp ''deadLetterTargetArn'')) (\<lambda>target.
     Option.bind
       (opt_or (as_u64 (json_index rp ''maxReceiveCount''))
         (Option.bind (as_str (json_index rp ''maxReceiveCount'')) parse_u64)) (\<lambda>n.
     Some \<lparr>rd_target_arn = target, rd_max_receive_count = n mod 2 ^ 32\<rparr>)))"

definition effective_kms_key_id :: "string smap \<Rightarrow> string option" where
  "effective_kms_key_id attrs =
     (case opt_filter (\<lambda>k. k \<noteq> []) (map_of attrs ''KmsMasterKeyId'') of
        Some k \<Rightarrow> Some k
      | None \<Rightarrow> if map_of attrs ''SqsManagedSseEnabled'' = Some ''true'' then Some ''alias/aws/sqs'' else None)"

definition validate_redrive_policy_target :: "sqs_state \<Rightarrow> redrive_policy \<Rightarrow> bool \<Rightarrow> service_error + unit" where
  "validate_redrive_policy_target st rp is_fifo =
     (case find (\<lambda>q. q_arn q = rd_target_arn rp) (map snd (ss_queues st)) of
        None \<Rightarrow>
          Inl (aws_error_with_headers 400 ''AWS.SimpleQueueService.NonExistentQueue''
                (''Dead letter target does not exist: '' @ rd_target_arn rp)
                [(''x-amzn-query-error'', ''AWS.SimpleQueueService.NonExistentQueue;Sender'')])
      | Some dlq \<Rightarrow>
          if is_fifo \<and> \<not> q_is_fifo dlq
          then Inl (aws_error 400 ''InvalidParameterValue''
                 ''Dead-letter queue must be the same type of queue as the source.'')
          else Inr ())"

section \<open>FIFO sends\<close>

definition content_based_dedup :: "sqs_queue \<Rightarrow> bool" where
  "content_based_dedup q \<longleftrightarrow> map_of (q_attributes q) ''ContentBasedDeduplication'' = Some ''true''"

definition dedup_required_message :: string where
  "dedup_required_message =
     ''The queue should either have ContentBasedDeduplication enabled or MessageDeduplicationId provided explicitly''"

definition check_fifo_send_constraints ::
  "sqs_queue \<Rightarrow> int option \<Rightarrow> string option \<Rightarrow> string option \<Rightarrow> service_error + unit" where
  "check_fifo_send_constraints q raw_delay grp dedup =
     (if \<not> q_is_fifo q then Inr ()
      else if unwrap_or raw_delay 0 \<noteq> 0 then
        Inl (aws_error 400 ''InvalidParameterValue''
          (''Value '' @ show_int (unwrap_or raw_delay 0) @ '' for parameter DelaySeconds is invalid. Reason: The request include parameter that is not valid for this queue type.''))
      else if grp = None then
        Inl (aws_error 400 ''MissingParameter'' ''The request must contain the parameter MessageGroupId.'')
      else if dedup = None \<and> \<not> content_based_dedup q then
        Inl (aws_error 400 ''InvalidParameterValue'' dedup_required_message)
      else Inr ())"

definition dedup_cache_key :: "sqs_queue \<Rightarrow> string \<Rightarrow> string option \<Rightarrow> string" where
  "dedup_cache_key q dedup_id grp =
     (if map_of (q_attributes q) ''DeduplicationScope'' = Some ''messageGroup''
      then (let g = unwrap_or grp [] in show_nat (length g) @ '':'' @ g @ '':'' @ dedup_id)
      else dedup_id)"

definition sequence_number_base :: nat where
  "sequence_number_base = 10000000000000000000"

text \<open>The sum is a \<^verbatim>\<open>u64\<close>.\<close>

definition format_sequence_number :: "nat \<Rightarrow> string" where
  "format_sequence_number counter = show_nat ((sequence_number_base + counter) mod 2 ^ 64)"

section \<open>Message attributes\<close>

definition val_as_i64 :: "json \<Rightarrow> int option" where
  "val_as_i64 v = opt_or (as_i64 v) (Option.bind (as_str v) parse_i64)"

definition obj_str :: "(string \<times> json) list \<Rightarrow> string \<Rightarrow> string option" where
  "obj_str m k = Option.bind (map_of m k) as_str"

definition json_attribute :: "sqs_env \<Rightarrow> json \<Rightarrow> message_attribute" where
  "json_attribute env val =
     \<lparr>ma_data_type = unwrap_or (as_str (json_index val ''DataType'')) ''String'',
      ma_string_value = as_str (json_index val ''StringValue''),
      ma_binary_value = Option.bind (as_str (json_index val ''BinaryValue'')) (b64_decode env)\<rparr>"

definition query_attribute :: "sqs_env \<Rightarrow> (string \<times> json) list \<Rightarrow> nat \<Rightarrow> (string \<times> message_attribute) option" where
  "query_attribute env m i =
     (let p = ''MessageAttribute.'' @ show_nat i
      in map_option (\<lambda>name.
           (name,
            \<lparr>ma_data_type = unwrap_or (obj_str m (p @ ''.Value.DataType'')) ''String'',
             ma_string_value = obj_str m (p @ ''.Value.StringValue''),
             ma_binary_value = Option.bind (obj_str m (p @ ''.Value.BinaryValue'')) (b64_decode env)\<rparr>))
         (obj_str m (p @ ''.Name'')))"

definition parse_message_attributes :: "sqs_env \<Rightarrow> json \<Rightarrow> message_attribute smap" where
  "parse_message_attributes env body =
     (let from_object =
            (case as_object (json_index body ''MessageAttributes'') of
               Some attrs \<Rightarrow> fold (\<lambda>(name, val). bt_insert name (json_attribute env val)) attrs []
             | None \<Rightarrow> [])
      in case as_object body of
           Some m \<Rightarrow>
             fold (\<lambda>i r. case query_attribute env m i of Some (n, a) \<Rightarrow> bt_insert n a r | None \<Rightarrow> r)
               [1..<21] from_object
         | None \<Rightarrow> from_object)"

definition parse_message_system_attributes :: "json \<Rightarrow> string smap" where
  "parse_message_system_attributes body =
     (let from_object =
            (case as_object (json_index body ''MessageSystemAttributes'') of
               Some attrs \<Rightarrow>
                 fold (\<lambda>(name, val) r.
                   case as_str (json_index val ''StringValue'') of
                     Some sv \<Rightarrow> bt_insert name sv r | None \<Rightarrow> r) attrs []
             | None \<Rightarrow> [])
      in case as_object body of
           Some m \<Rightarrow>
             fold (\<lambda>i r.
               (let p = ''MessageSystemAttribute.'' @ show_nat i
                in case (obj_str m (p @ ''.Name''), obj_str m (p @ ''.Value.StringValue'')) of
                     (Some n, Some v) \<Rightarrow> bt_insert n v r
                   | _ \<Rightarrow> r)) [1..<21] from_object
         | None \<Rightarrow> from_object)"

definition attr_name_char :: "nat \<Rightarrow> bool" where
  "attr_name_char c \<longleftrightarrow> c < 128 \<and> is_ascii_alphanumeric (char_of c) \<or> c = 95 \<or> c = 45 \<or> c = 46"

fun validate_message_attributes :: "message_attribute smap \<Rightarrow> service_error + unit" where
  "validate_message_attributes [] = Inr ()"
| "validate_message_attributes ((name, attr) # rest) =
     (if \<not> list_all attr_name_char (chars name) then
        Inl (aws_error 400 ''InvalidParameterValue''
          (''The message attribute name '' @ [CHR 0x27] @ name @ [CHR 0x27] @ '' is invalid. Attribute name can contain A-Z, a-z, 0-9, underscore (_), hyphen (-), and period (.) characters.''))
      else if hd (split_char (ma_data_type attr) (CHR ''.'')) \<notin> {''String'', ''Number'', ''Binary''} then
        Inl (aws_error 400 ''InvalidParameterValue''
          (''The message attribute '' @ [CHR 0x27] @ name @ [CHR 0x27] @ '' has an invalid message attribute type, the set of supported type prefixes is Binary, Number, and String.''))
      else validate_message_attributes rest)"

definition message_attributes_size :: "message_attribute smap \<Rightarrow> nat" where
  "message_attributes_size attrs =
     sum_list (map (\<lambda>(name, attr).
       length name + length (ma_data_type attr) +
       (case ma_string_value attr of
          Some sv \<Rightarrow> length sv
        | None \<Rightarrow> (case ma_binary_value attr of Some bv \<Rightarrow> length bv | None \<Rightarrow> 0))) attrs)"

text \<open>\<^verbatim>\<open>(n as u32).to_be_bytes()\<close>.\<close>

definition be32 :: "nat \<Rightarrow> string" where
  "be32 n = map (\<lambda>i. char_of (n mod 2 ^ 32 div 2 ^ (24 - 8 * i) mod 256)) [0..<4]"

definition attribute_bytes :: "string \<times> message_attribute \<Rightarrow> string" where
  "attribute_bytes e =
     (let (name, attr) = e; dt = ma_data_type attr;
          val = (\<lambda>v. case v of Some x \<Rightarrow> be32 (length x) @ x | None \<Rightarrow> be32 0)
      in be32 (length name) @ name @ be32 (length dt) @ dt @
         (if starts_with dt ''String'' \<or> starts_with dt ''Number'' then [CHR 0x01] @ val (ma_string_value attr)
          else if starts_with dt ''Binary'' then [CHR 0x02] @ val (ma_binary_value attr)
          else []))"

definition md5_of_message_attributes :: "sqs_env \<Rightarrow> message_attribute smap \<Rightarrow> string" where
  "md5_of_message_attributes env attrs = md5_hex env (concat (map attribute_bytes (sort_key fst attrs)))"

definition md5_of_message_system_attributes :: "sqs_env \<Rightarrow> string smap \<Rightarrow> string" where
  "md5_of_message_system_attributes env attrs =
     md5_hex env (concat (map (\<lambda>(name, value).
       be32 (length name) @ name @ be32 (length ''String'') @ ''String'' @ [CHR 0x01] @
       be32 (length value) @ value) (sort_key fst attrs)))"

section \<open>Addressing queues\<close>

definition is_valid_queue_name :: "sqs_env \<Rightarrow> string \<Rightarrow> bool" where
  "is_valid_queue_name env name =
     (if name = [] \<or> 80 < length name then False
      else list_all (\<lambda>c. cp_is_alphanumeric env c \<or> c = 45 \<or> c = 95) (chars name))"

definition is_valid_batch_id :: "sqs_env \<Rightarrow> string \<Rightarrow> bool" where
  "is_valid_batch_id env bid =
     (if bid = [] \<or> 80 < length bid then False
      else list_all (\<lambda>c. cp_is_alphanumeric env c \<or> c = 45 \<or> c = 95) (chars bid))"

definition resolve_queue_url :: "string \<Rightarrow> sqs_state \<Rightarrow> string option" where
  "resolve_queue_url input st =
     (if map_of (ss_queues st) input \<noteq> None then Some input
      else
        (let parts = split_char input (CHR '':'');
             is_arn = (length parts = 6 \<and> parts ! 0 = ''arn'' \<and> parts ! 2 = ''sqs'');
             by_name = opt_or (map_of (ss_name_to_url st) input)
                         (map_of (ss_name_to_url st) (last (split_char input (CHR ''/''))))
         in if is_arn \<and> (parts ! 3 \<noteq> ss_region st \<or> parts ! 4 \<noteq> ss_account_id st) then None
            else if is_arn \<and> parts ! 5 \<noteq> []
            then opt_or (map_of (ss_name_to_url st) (parts ! 5)) by_name
            else by_name))"

definition sqs_resource_for :: "string \<Rightarrow> string \<Rightarrow> string \<Rightarrow> json \<Rightarrow> string" where
  "sqs_resource_for act acct rgn body =
     (let queue_arn = (\<lambda>name. ''arn:'' @ partition_for rgn @ '':sqs:'' @ rgn @ '':'' @ acct @ '':'' @ name);
          field = (\<lambda>k. Option.bind (json_get body k) as_str)
      in if act = ''ListQueues'' then ''*''
         else if act = ''CreateQueue'' \<or> act = ''GetQueueUrl''
         then unwrap_or (map_option queue_arn (field ''QueueName'')) ''*''
         else if act = ''StartMessageMoveTask'' \<or> act = ''ListMessageMoveTasks''
         then unwrap_or (field ''SourceArn'') ''*''
         else if act = ''CancelMessageMoveTask'' then ''*''
         else unwrap_or (map_option (\<lambda>url. queue_arn (last (split_char url (CHR ''/'')))) (field ''QueueUrl'')) ''*'')"

definition resolve_endpoint_base_with :: "string smap \<Rightarrow> string \<Rightarrow> string option \<Rightarrow> string" where
  "resolve_endpoint_base_with headers fallback external =
     (case opt_filter (\<lambda>e. e \<noteq> []) (map_option (\<lambda>e. trim_end_matches (trim e) ''/'') external) of
        Some ext \<Rightarrow> ext
      | None \<Rightarrow>
          (case opt_filter (\<lambda>h. h \<noteq> []) (map_option trim (map_of headers ''host'')) of
             Some host \<Rightarrow>
               (let scheme = unwrap_or
                      (opt_filter (\<lambda>s. s \<noteq> []) (map_option trim (map_of headers ''x-forwarded-proto''))) ''http''
                in scheme @ ''://'' @ host)
           | None \<Rightarrow> fallback))"

definition external_url_override :: "sqs_env \<Rightarrow> string option" where
  "external_url_override env =
     opt_filter (\<lambda>v. v \<noteq> []) (map_option (\<lambda>v. trim_end_matches (trim v) ''/'') (external_url env))"

definition resolve_endpoint_base :: "sqs_env \<Rightarrow> string smap \<Rightarrow> string \<Rightarrow> string" where
  "resolve_endpoint_base env headers fallback =
     resolve_endpoint_base_with headers fallback (external_url_override env)"

definition render_queue_url :: "string \<Rightarrow> string \<Rightarrow> string" where
  "render_queue_url stored base =
     (let b = trim_end_matches base ''/'';
          render = (\<lambda>rest. case find_str rest ''/'' of Some slash \<Rightarrow> b @ drop slash rest | None \<Rightarrow> b)
      in case strip_prefix stored ''http://'' of
           Some rest \<Rightarrow> render rest
         | None \<Rightarrow> (case strip_prefix stored ''https://'' of Some rest \<Rightarrow> render rest | None \<Rightarrow> stored))"

definition encode_list_queues_token :: "sqs_env \<Rightarrow> string \<Rightarrow> string" where
  "encode_list_queues_token env marker = b64url_encode env marker"

text \<open>\<^verbatim>\<open>String::from_utf8(b).ok()\<close> accepts exactly the strings that decode and re-encode.\<close>

definition decode_list_queues_token :: "sqs_env \<Rightarrow> string \<Rightarrow> string" where
  "decode_list_queues_token env token =
     unwrap_or (opt_filter (\<lambda>b. encode_str (chars b) = b) (b64url_decode env token)) token"

section \<open>Receipt handles\<close>

definition find_message_id_for_receipt :: "sqs_queue \<Rightarrow> string \<Rightarrow> string option" where
  "find_message_id_for_receipt q handle =
     opt_or (map_option fst (find (\<lambda>(mid, handles). handle \<in> set handles) (q_receipt_handle_map q)))
    (opt_or (map_option m_id (find (\<lambda>m. m_receipt_handle m = Some handle) (q_inflight q)))
            (map_option m_id (find (\<lambda>m. m_receipt_handle m = Some handle) (q_messages q))))"

section \<open>Request bodies\<close>

text \<open>
  The loops that enumerate \<^verbatim>\<open>Prefix.N\<close> from 1 stop at the first index that is absent. At most one
  index per parameter can be present, so \<open>length params + 1\<close> candidates are enough.
\<close>

definition numbered :: "(string \<times> string) list \<Rightarrow> (nat \<Rightarrow> bool) \<Rightarrow> nat list" where
  "numbered params present = takeWhile present [1..<length params + 2]"

definition query_attributes :: "(string \<times> string) list \<Rightarrow> (string \<times> json) list" where
  "query_attributes params =
     (let nk = (\<lambda>i. ''Attribute.'' @ show_nat i @ ''.Name''); vk = (\<lambda>i. ''Attribute.'' @ show_nat i @ ''.Value'')
      in fold (\<lambda>i m. jmap_insert (the (map_of params (nk i))) (JStr (the (map_of params (vk i)))) m)
           (numbered params (\<lambda>i. map_of params (nk i) \<noteq> None \<and> map_of params (vk i) \<noteq> None)) [])"

definition query_list :: "(string \<times> string) list \<Rightarrow> string \<Rightarrow> json list" where
  "query_list params prefix =
     (let k = (\<lambda>i. prefix @ show_nat i)
      in map (\<lambda>i. JStr (the (map_of params (k i)))) (numbered params (\<lambda>i. map_of params (k i) \<noteq> None)))"

text \<open>The first numeric part of a key splits it into an entry index and a field.\<close>

fun split_entry_key :: "string list \<Rightarrow> (nat \<times> string) option" where
  "split_entry_key [] = None"
| "split_entry_key (p # ps) =
     (case parse_u32 p of Some idx \<Rightarrow> Some (idx, join_with ''.'' ps) | None \<Rightarrow> split_entry_key ps)"

definition parse_batch_entries :: "(string \<times> string) list \<Rightarrow> json list" where
  "parse_batch_entries params =
     map (\<lambda>(_, m). JObj m)
       (fold (\<lambda>(key, value) r.
          (let parts = split_char key (CHR ''.'')
           in if length parts < 3 then r
              else case split_entry_key parts of
                     Some (idx, field) \<Rightarrow>
                       if field = [] then r
                       else bt_insert idx (jmap_insert field (JStr value) (unwrap_or (map_of r idx) [])) r
                   | None \<Rightarrow> r)) params ([] :: (nat, (string \<times> json) list) btree))"

definition parse_body :: "sqs_env \<Rightarrow> aws_request \<Rightarrow> json" where
  "parse_body env req =
     (let params = req_query_params req;
          add = (\<lambda>k nonempty v m. if nonempty then jmap_insert k v m else m)
      in case opt_filter (\<lambda>v. is_some_and (as_object v) (\<lambda>m. m \<noteq> [])) (from_json env (req_body req)) of
           Some v \<Rightarrow> v
         | None \<Rightarrow>
             if params = [] then JObj []
             else
               (let base = fold (\<lambda>(k, v). jmap_insert k (JStr v)) params [];
                    attrs = query_attributes params;
                    attr_names = query_list params ''AttributeName.'';
                    msg_attr_names = query_list params ''MessageAttributeName.'';
                    entries = parse_batch_entries params
                in JObj (add ''Entries'' (entries \<noteq> []) (JArr entries)
                        (add ''MessageAttributeNames'' (msg_attr_names \<noteq> []) (JArr msg_attr_names)
                        (add ''AttributeNames'' (attr_names \<noteq> []) (JArr attr_names)
                        (add ''Attributes'' (attrs \<noteq> []) (JObj attrs) base))))))"

definition parse_numbered_params :: "json \<Rightarrow> string \<Rightarrow> string list" where
  "parse_numbered_params body prefix =
     (case as_object body of
        Some m \<Rightarrow> List.map_filter (\<lambda>i. obj_str m (prefix @ ''.'' @ show_nat i)) [1..<21]
      | None \<Rightarrow> [])"

definition is_mutating_action :: "string \<Rightarrow> bool" where
  "is_mutating_action act \<longleftrightarrow>
     act \<in> {''CreateQueue'', ''DeleteQueue'', ''SetQueueAttributes'', ''SendMessage'', ''SendMessageBatch'',
            ''ReceiveMessage'', ''DeleteMessage'', ''DeleteMessageBatch'', ''PurgeQueue'',
            ''ChangeMessageVisibility'', ''ChangeMessageVisibilityBatch'', ''TagQueue'', ''UntagQueue'',
            ''AddPermission'', ''RemovePermission'', ''StartMessageMoveTask'', ''CancelMessageMoveTask''}"

section \<open>Handlers\<close>

text \<open>
  \<open>with_region\<close> is the prologue \<^verbatim>\<open>accounts.regional_mut(account, region)\<close>
  and \<open>on_queue\<close> is \<^verbatim>\<open>resolve_queue_url(..)\<close> followed by \<^verbatim>\<open>queues.get_mut(..)\<close>.
\<close>

definition with_region :: "string \<Rightarrow> string \<Rightarrow> (sqs_state, 'a) handler \<Rightarrow> (sqs_store, 'a) handler" where
  "with_region acct rgn f ms =
     (let (r, st') = f (unwrap_or (regional ms acct rgn) (fresh_region sqs_ops acct rgn ms))
      in (r, regional_modify sqs_ops acct rgn (\<lambda>_. st') ms))"

definition set_queue :: "string \<Rightarrow> sqs_queue \<Rightarrow> sqs_state \<Rightarrow> sqs_state" where
  "set_queue url q st = st\<lparr>ss_queues := bt_modify url (\<lambda>_. q) (ss_queues st)\<rparr>"

definition on_queue :: "string \<Rightarrow> (sqs_queue, 'a) handler \<Rightarrow> (sqs_state, 'a) handler" where
  "on_queue input f st =
     (case resolve_queue_url input st of
        None \<Rightarrow> (Inl queue_not_found, st)
      | Some url \<Rightarrow>
          (case map_of (ss_queues st) url of
             None \<Rightarrow> (Inl queue_not_found, st)
           | Some q \<Rightarrow> (let (r, q') = f q in (r, set_queue url q' st))))"

section \<open>Facts\<close>

lemma show_nat_no_char: "\<not> is_ascii_digit c \<Longrightarrow> c \<notin> set (show_nat n)"
  using show_nat_digits [of n] by (auto simp: all_digits_def list_all_iff)

text \<open>Scoped deduplication keys are equal only for equal groups and identifiers.\<close>

lemma length_prefixed_inject:
  "show_nat (length a) @ '':'' @ a @ '':'' @ x = show_nat (length b) @ '':'' @ b @ '':'' @ y \<longleftrightarrow> a = b \<and> x = y"
proof
  assume eq: "show_nat (length a) @ '':'' @ a @ '':'' @ x = show_nat (length b) @ '':'' @ b @ '':'' @ y"
  have c: "CHR '':'' \<notin> set (show_nat n)" for n by (rule show_nat_no_char) (simp add: is_ascii_digit_def)
  have "split_once (show_nat (length a) @ CHR '':'' # a @ '':'' @ x) (CHR '':'') = Some (show_nat (length a), a @ '':'' @ x)"
    "split_once (show_nat (length b) @ CHR '':'' # b @ '':'' @ y) (CHR '':'') = Some (show_nat (length b), b @ '':'' @ y)"
    by (simp_all add: split_once_Some c)
  with eq have "show_nat (length a) = show_nat (length b)" "a @ '':'' @ x = b @ '':'' @ y" by simp_all
  then show "a = b \<and> x = y" by (simp add: show_nat_inject)
qed simp

lemma dedup_cache_key_inject:
  "dedup_cache_key q d g = dedup_cache_key q d' g' \<longleftrightarrow>
   d = d' \<and> (map_of (q_attributes q) ''DeduplicationScope'' = Some ''messageGroup'' \<longrightarrow>
             unwrap_or g [] = unwrap_or g' [])"
  using length_prefixed_inject [of "unwrap_or g []" d "unwrap_or g' []" d']
  by (auto simp: dedup_cache_key_def Let_def)

lemma format_sequence_number_value:
  "n < 8446744073709551616 \<Longrightarrow> parse_u64 (format_sequence_number n) = Some (sequence_number_base + n)"
  by (simp add: format_sequence_number_def sequence_number_base_def parse_unsigned_show)

text \<open>The enumeration of numbered parameters stops at an absent index.\<close>

lemma numbered_complete:
  assumes "inj key" and "\<And>i. present i \<Longrightarrow> map_of params (key i) \<noteq> None"
  shows "\<exists>n. numbered params present = [1..<n + 1] \<and> \<not> present (n + 1)"
proof -
  have "\<exists>i \<in> set [1..<length params + 2]. \<not> present i"
  proof (rule ccontr)
    assume "\<not> ?thesis"
    then have "key ` {1..<length params + 2} \<subseteq> fst ` set params"
      using assms(2) by (fastforce simp: map_of_eq_None_iff)
    then have "card (key ` {1..<length params + 2}) \<le> card (fst ` set params)"
      by (simp add: card_mono)
    also have "\<dots> \<le> length params"
      using card_image_le [of "set params" fst] card_length [of params] by simp
    finally show False using card_image [of key] assms(1) by (simp add: inj_on_subset)
  qed
  then obtain k where k: "1 \<le> k" "k < length params + 2" "\<not> present k"
    and least: "\<And>i. 1 \<le> i \<Longrightarrow> i < k \<Longrightarrow> present i"
    using exists_least_iff [of "\<lambda>i. 1 \<le> i \<and> i < length params + 2 \<and> \<not> present i"]
    by (metis atLeastLessThan_iff less_trans set_upt)
  have "[1..<length params + 2] = [1..<k] @ k # [k + 1..<length params + 2]"
    using k upt_add_eq_append [of 1 k "length params + 2 - k"] by (simp add: upt_conv_Cons)
  moreover have "takeWhile present ([1..<k] @ k # [k + 1..<length params + 2]) = [1..<k]"
    using least k(3) by (subst takeWhile_append2) auto
  ultimately have "numbered params present = [1..<k]" by (simp add: numbered_def)
  with k show ?thesis by (intro exI [of _ "k - 1"]) simp
qed

text \<open>A handler changes no other account or region, and a queue handler no other queue.\<close>

lemma with_region_get:
  "regional (snd (with_region acct rgn f ms)) a r =
   (if a = acct \<and> r = rgn
    then Some (snd (f (unwrap_or (regional ms acct rgn) (fresh_region sqs_ops acct rgn ms))))
    else regional ms a r)"
  by (simp add: with_region_def regional_regional_modify split: prod.splits)

lemma with_region_fst:
  "fst (with_region acct rgn f ms) = fst (f (unwrap_or (regional ms acct rgn) (fresh_region sqs_ops acct rgn ms)))"
  by (simp add: with_region_def split: prod.splits)

lemma map_of_set_queue:
  "map_of (ss_queues (set_queue url q st)) u =
   (if u = url then map_option (\<lambda>_. q) (map_of (ss_queues st) url) else map_of (ss_queues st) u)"
  by (simp add: set_queue_def map_of_bt_modify)

lemma set_queue_sel [simp]:
  "ss_account_id (set_queue url q st) = ss_account_id st" "ss_region (set_queue url q st) = ss_region st"
  "ss_endpoint (set_queue url q st) = ss_endpoint st" "ss_name_to_url (set_queue url q st) = ss_name_to_url st"
  "ss_move_tasks (set_queue url q st) = ss_move_tasks st"
  "map fst (ss_queues (set_queue url q st)) = map fst (ss_queues st)"
  by (simp_all add: set_queue_def)

lemma resolve_queue_url_cong:
  assumes "map fst (ss_queues st') = map fst (ss_queues st)" "ss_name_to_url st' = ss_name_to_url st"
    and "ss_region st' = ss_region st" "ss_account_id st' = ss_account_id st"
  shows "resolve_queue_url input st' = resolve_queue_url input st"
proof -
  have "map_of (ss_queues st') input = None \<longleftrightarrow> map_of (ss_queues st) input = None"
    using assms(1) by (simp add: map_of_eq_None_iff flip: set_map)
  then show ?thesis unfolding resolve_queue_url_def by (simp only: assms)
qed

lemma resolve_queue_url_set_queue [simp]:
  "resolve_queue_url input (set_queue url q st) = resolve_queue_url input st"
  by (rule resolve_queue_url_cong) simp_all

section \<open>Confined handlers\<close>

text \<open>A handler that works on one account's region and leaves every other one as it was.\<close>

definition confined :: "string \<Rightarrow> string \<Rightarrow> (sqs_store, 'a) handler \<Rightarrow> bool" where
  "confined acct rgn h \<longleftrightarrow>
     (\<forall>ms a r. (a, r) \<noteq> (acct, rgn) \<longrightarrow> regional (snd (h ms)) a r = regional ms a r)"

lemma confined_steps:
  "confined acct rgn (h_ok x)" "confined acct rgn (h_err e)" "confined acct rgn (h_lift y)"
  "confined acct rgn (with_region acct rgn f)"
  by (auto simp: confined_def with_region_get)

lemma confined_bind:
  "confined acct rgn m \<Longrightarrow> (\<And>x. confined acct rgn (f x)) \<Longrightarrow> confined acct rgn (h_bind m f)"
  unfolding confined_def h_bind_def by (auto split: prod.split sum.split) (metis snd_conv)+

lemma confined_if:
  "(b \<Longrightarrow> confined acct rgn h) \<Longrightarrow> (\<not> b \<Longrightarrow> confined acct rgn k) \<Longrightarrow> confined acct rgn (if b then h else k)"
  by simp

lemma confined_option:
  "(x = None \<Longrightarrow> confined acct rgn h) \<Longrightarrow> (\<And>v. x = Some v \<Longrightarrow> confined acct rgn (k v)) \<Longrightarrow>
   confined acct rgn (case x of None \<Rightarrow> h | Some v \<Rightarrow> k v)"
  by (simp split: option.split)

lemmas confined_intros = confined_steps confined_bind confined_if confined_option

end
