(* ===== verification/Sqs_Send.thy ===== *)
theory Sqs_Send
  imports Sqs_Xml
begin

text \<open>
  Sending messages (\<^verbatim>\<open>encrypt_message_body\<close>, \<^verbatim>\<open>decrypt_message_body\<close>, \<^verbatim>\<open>send_message\<close> and
  \<^verbatim>\<open>send_message_batch\<close> of \<^verbatim>\<open>fakecloud-sqs/src/service/messages.rs\<close>, \<^verbatim>\<open>BatchSendConfig\<close> of
  \<^verbatim>\<open>service/mod.rs\<close> and \<^verbatim>\<open>process_batch_send_entry\<close> of \<^verbatim>\<open>helpers.rs\<close>).

  \<open>send_to_queue\<close> is the part of \<^verbatim>\<open>send_message\<close> that runs under the queue's lock; its parameters
  are the parsed request. A request that fails may still have pruned the deduplication cache or
  advanced the sequence counter, as the code does.
\<close>

section \<open>Encryption at rest\<close>

definition encryption_context :: "string \<Rightarrow> (string \<times> string) list" where
  "encryption_context queue_arn = [(''aws:sqs:arn'', queue_arn)]"

definition encrypt_message_body ::
  "sqs_env \<Rightarrow> string \<Rightarrow> string \<Rightarrow> string option \<Rightarrow> string \<Rightarrow> service_error + string" where
  "encrypt_message_body env acct queue_arn kms_key_id plaintext =
     (case kms env of
        None \<Rightarrow> Inr plaintext
      | Some hook \<Rightarrow>
          (case opt_filter (\<lambda>k. k \<noteq> []) kms_key_id of
             None \<Rightarrow> Inr plaintext
           | Some key \<Rightarrow>
               (case kms_encrypt hook acct (unwrap_or (region_of queue_arn) (service_region env)) key plaintext
                       ''sqs.amazonaws.com'' (encryption_context queue_arn) of
                  Inr envelope \<Rightarrow> Inr envelope
                | Inl err \<Rightarrow>
                    Inl (aws_error 500 ''KMS.InternalFailureException''
                      (''Failed to encrypt SQS message via KMS: '' @ err)))))"

definition decrypt_message_body :: "sqs_env \<Rightarrow> string \<Rightarrow> string \<Rightarrow> string \<Rightarrow> service_error + string" where
  "decrypt_message_body env acct queue_arn ciphertext =
     (case kms env of
        None \<Rightarrow> Inr ciphertext
      | Some hook \<Rightarrow>
          if \<not> looks_like_fakecloud_envelope env ciphertext then Inr ciphertext
          else
            (case kms_decrypt hook acct ciphertext ''sqs.amazonaws.com'' (encryption_context queue_arn) of
               Inr bytes \<Rightarrow> Inr (utf8_lossy env bytes)
             | Inl err \<Rightarrow>
                 Inl (aws_error 500 ''KMS.InternalFailureException''
                   (''Failed to decrypt SQS message via KMS: '' @ err))))"

section \<open>One message\<close>

record send_params =
  sp_body :: string
  sp_group :: "string option"
  sp_dedup :: "string option"
  sp_attrs :: "message_attribute smap"
  sp_sys :: "string smap"
  sp_delay :: "int option"

text \<open>The parameters a request body or a batch entry carries beside the message body.\<close>

definition parse_send_params :: "sqs_env \<Rightarrow> json \<Rightarrow> string \<Rightarrow> send_params" where
  "parse_send_params env body message_body =
     \<lparr>sp_body = message_body,
      sp_group = as_str (json_index body ''MessageGroupId''),
      sp_dedup = as_str (json_index body ''MessageDeduplicationId''),
      sp_attrs = parse_message_attributes env body,
      sp_sys = parse_message_system_attributes body,
      sp_delay = val_as_i64 (json_index body ''DelaySeconds'')\<rparr>"

definition max_message_size :: "sqs_queue \<Rightarrow> nat" where
  "max_message_size q = unwrap_or (Option.bind (map_of (q_attributes q) ''MaximumMessageSize'') parse_u64) 262144"

definition too_long_message :: "nat \<Rightarrow> string" where
  "too_long_message limit =
     ''One or more parameters are invalid. Reason: Message must be shorter than '' @ show_nat limit @ '' bytes.''"

definition opt_field :: "string \<Rightarrow> string option \<Rightarrow> (string \<times> json) list" where
  "opt_field k v = (case v of Some s \<Rightarrow> [(k, JStr s)] | None \<Rightarrow> [])"

text \<open>The response to a send, for a message just stored and for a replayed one.\<close>

definition send_reply :: "sqs_env \<Rightarrow> string \<Rightarrow> string option \<Rightarrow> send_params \<Rightarrow> (string \<times> json) list" where
  "send_reply env mid seq p =
     [(''MessageId'', JStr mid), (''MD5OfMessageBody'', JStr (md5_hex env (sp_body p)))] @
     opt_field ''SequenceNumber'' seq @
     opt_field ''MD5OfMessageAttributes''
       (if sp_attrs p = [] then None else Some (md5_of_message_attributes env (sp_attrs p))) @
     opt_field ''MD5OfMessageSystemAttributes''
       (if sp_sys p = [] then None else Some (md5_of_message_system_attributes env (sp_sys p)))"

definition effective_dedup_id :: "sqs_env \<Rightarrow> sqs_queue \<Rightarrow> send_params \<Rightarrow> string option" where
  "effective_dedup_id env q p =
     (if q_is_fifo q
      then opt_or (sp_dedup p) (if content_based_dedup q then Some (sha256_hex env (sp_body p)) else None)
      else None)"

definition dedup_key :: "sqs_env \<Rightarrow> sqs_queue \<Rightarrow> send_params \<Rightarrow> string option" where
  "dedup_key env q p = map_option (\<lambda>d. dedup_cache_key q d (sp_group p)) (effective_dedup_id env q p)"

definition prune_dedup :: "int \<Rightarrow> sqs_queue \<Rightarrow> sqs_queue" where
  "prune_dedup t q = q\<lparr>q_dedup_cache := bt_retain (\<lambda>_ e. t < de_expiry e) (q_dedup_cache q)\<rparr>"

text \<open>The duplicate check: expired entries are dropped before the lookup.\<close>

definition dedup_pass :: "int \<Rightarrow> bool \<Rightarrow> string option \<Rightarrow> sqs_queue \<Rightarrow> dedup_entry option \<times> sqs_queue" where
  "dedup_pass t is_fifo key q =
     (case (is_fifo, key) of
        (True, Some k) \<Rightarrow> (let q1 = prune_dedup t q in (map_of (q_dedup_cache q1) k, q1))
      | _ \<Rightarrow> (None, q))"

definition new_message ::
  "sqs_env \<Rightarrow> string \<Rightarrow> send_params \<Rightarrow> string \<Rightarrow> int \<Rightarrow> string option \<Rightarrow> string option \<Rightarrow> sqs_message" where
  "new_message env mid p stored delay dedup seq =
     \<lparr>m_id = mid, m_receipt_handle = None, m_body = stored, m_md5_of_body = md5_hex env (sp_body p),
      m_sent_timestamp = timestamp_millis (now env), m_attributes = sp_sys p,
      m_message_attributes = sp_attrs p,
      m_visible_at = (if 0 < delay then Some (now env + seconds delay) else None),
      m_receive_count = 0, m_first_received_at = None, m_group = sp_group p, m_dedup = dedup,
      m_created_at = now env, m_sequence_number = seq\<rparr>"

text \<open>
  Storing the message: the counter has been advanced; the deduplication entry is written after the
  message.
\<close>

definition commit_message ::
  "sqs_env \<Rightarrow> bool \<Rightarrow> string option \<Rightarrow> sqs_message \<Rightarrow> sqs_queue \<Rightarrow> sqs_queue" where
  "commit_message env is_fifo key msg q =
     (let q' = q\<lparr>q_messages := q_messages q @ [msg]\<rparr>
      in case (is_fifo, key) of
           (True, Some k) \<Rightarrow>
             q'\<lparr>q_dedup_cache := bt_insert k
               \<lparr>de_message_id = m_id msg, de_sequence_number = m_sequence_number msg,
                de_expiry = now env + seconds 300\<rparr> (q_dedup_cache q)\<rparr>
         | _ \<Rightarrow> q')"

definition take_sequence :: "bool \<Rightarrow> sqs_queue \<Rightarrow> string option \<times> sqs_queue" where
  "take_sequence is_fifo q =
     (if is_fifo
      then (Some (format_sequence_number (q_next_sequence_number q)),
            q\<lparr>q_next_sequence_number := q_next_sequence_number q + 1\<rparr>)
      else (None, q))"

definition send_to_queue :: "sqs_env \<Rightarrow> string \<Rightarrow> send_params \<Rightarrow> (sqs_queue, (string \<times> json) list) handler" where
  "send_to_queue env acct p q =
     (case check_fifo_send_constraints q (sp_delay p) (sp_group p) (sp_dedup p) of
        Inl e \<Rightarrow> (Inl e, q)
      | Inr _ \<Rightarrow>
          (let key = dedup_key env q p
           in case dedup_pass (now env) (q_is_fifo q) key q of
                (Some entry, q1) \<Rightarrow> (Inr (send_reply env (de_message_id entry) (de_sequence_number entry) p), q1)
              | (None, q1) \<Rightarrow>
                  if max_message_size q1 < length (sp_body p) + message_attributes_size (sp_attrs p)
                  then (Inl (aws_error 400 ''InvalidParameterValue'' (too_long_message (max_message_size q1))), q1)
                  else
                    (let delay = unwrap_or (opt_or (sp_delay p) (delay_secs q1)) 0;
                         (seq, q2) = take_sequence (q_is_fifo q) q1
                     in case encrypt_message_body env acct (q_arn q2) (effective_kms_key_id (q_attributes q2))
                               (sp_body p) of
                          Inl e \<Rightarrow> (Inl e, q2)
                        | Inr stored \<Rightarrow>
                            (let msg = new_message env (uuid env 0) p stored delay (effective_dedup_id env q p) seq
                             in (Inr (send_reply env (m_id msg) seq p), commit_message env (q_is_fifo q) key msg q2)))))"

definition delay_message :: "int \<Rightarrow> string" where
  "delay_message d =
     ''Value '' @ show_int d @ '' for parameter DelaySeconds is invalid. Reason: Must be between 0 and 900, if provided.''"

definition send_message :: "sqs_env \<Rightarrow> aws_request \<Rightarrow> (sqs_store, aws_response) handler" where
  "send_message env req =
     (let body = parse_body env req;
          attrs = parse_message_attributes env body;
          raw_delay = val_as_i64 (json_index body ''DelaySeconds'');
          str = (\<lambda>k. as_str (json_index body k))
      in h_bind (h_lift (ok_or (str ''QueueUrl'') (missing_param ''QueueUrl''))) (\<lambda>queue_url.
         h_bind (h_lift (ok_or (str ''MessageBody'') (missing_param ''MessageBody''))) (\<lambda>message_body.
         h_bind (with_region (req_account_id req) (req_region req)
                  (\<lambda>st. (ok_or (resolve_queue_url queue_url st) queue_not_found, st))) (\<lambda>_.
         h_bind (h_lift (validate_message_attributes attrs)) (\<lambda>_.
           if is_some_and raw_delay (\<lambda>d. \<not> (0 \<le> d \<and> d \<le> 900))
           then h_err (aws_error 400 ''InvalidParameterValue'' (delay_message (the raw_delay)))
           else
             h_bind (with_region (req_account_id req) (req_region req)
               (on_queue queue_url (send_to_queue env (req_account_id req) (parse_send_params env body message_body)))) (\<lambda>resp.
             h_ok (sqs_response ''SendMessage'' (JObj resp) (req_request_id req) (req_is_query req))))))))"

section \<open>Batches\<close>

record batch_send_config =
  bc_is_fifo :: bool
  bc_content_based_dedup :: bool
  bc_max_message_size :: nat
  bc_queue_delay :: "int option"

definition from_queue :: "sqs_queue \<Rightarrow> batch_send_config" where
  "from_queue q =
     \<lparr>bc_is_fifo = q_is_fifo q, bc_content_based_dedup = content_based_dedup q,
      bc_max_message_size = max_message_size q, bc_queue_delay = delay_secs q\<rparr>"

datatype batch_entry_outcome = Success json | Failure json

definition batch_failure :: "string \<Rightarrow> string \<Rightarrow> string \<Rightarrow> json" where
  "batch_failure eid code msg =
     JObj [(''Id'', JStr eid), (''SenderFault'', JBool True), (''Code'', JStr code), (''Message'', JStr msg)]"

definition process_batch_send_entry ::
  "sqs_env \<Rightarrow> nat \<Rightarrow> json \<Rightarrow> batch_send_config \<Rightarrow> string option \<Rightarrow> (sqs_queue, batch_entry_outcome) handler" where
  "process_batch_send_entry env k entry cfg stored_body_override q =
     (let str = (\<lambda>f. as_str (json_index entry f));
          attrs = parse_message_attributes env entry;
          raw_delay = val_as_i64 (json_index entry ''DelaySeconds'')
      in case str ''Id'' of
           None \<Rightarrow> (Inr (Failure (batch_failure [] ''MissingParameter'' ''Id is required'')), q)
         | Some eid \<Rightarrow>
      (case str ''MessageBody'' of
         None \<Rightarrow> (Inr (Failure (batch_failure eid ''MissingParameter'' ''MessageBody is required'')), q)
       | Some message_body \<Rightarrow>
      if bc_max_message_size cfg < length message_body + message_attributes_size attrs
      then (Inr (Failure (batch_failure eid ''InvalidParameterValue'' (too_long_message (bc_max_message_size cfg)))), q)
      else if is_some_and raw_delay (\<lambda>d. \<not> (0 \<le> d \<and> d \<le> 900))
      then (Inr (Failure (batch_failure eid ''InvalidParameterValue'' (delay_message (the raw_delay)))), q)
      else if bc_is_fifo cfg \<and> str ''MessageGroupId'' = None
      then (Inr (Failure (batch_failure eid ''MissingParameter''
                  ''The request must contain the parameter MessageGroupId.'')), q)
      else if bc_is_fifo cfg \<and> str ''MessageDeduplicationId'' = None \<and> \<not> bc_content_based_dedup cfg
      then (Inr (Failure (batch_failure eid ''InvalidParameterValue'' dedup_required_message)), q)
      else
        (let p = parse_send_params env entry message_body;
             delay = unwrap_or (opt_or raw_delay (bc_queue_delay cfg)) 0;
             eff = (if bc_is_fifo cfg
                    then opt_or (sp_dedup p)
                      (if bc_content_based_dedup cfg then Some (sha256_hex env message_body) else None)
                    else None);
             key = map_option (\<lambda>d. dedup_cache_key q d (sp_group p)) eff;
             reply = (\<lambda>mid seq. Success (JObj ((''Id'', JStr eid) # send_reply env mid seq p)))
         in case dedup_pass (now env) (bc_is_fifo cfg) key q of
              (Some existing, q1) \<Rightarrow> (Inr (reply (de_message_id existing) (de_sequence_number existing)), q1)
            | (None, q1) \<Rightarrow>
                (let (seq, q2) = take_sequence (bc_is_fifo cfg) q1;
                     msg = new_message env (uuid env k) p (unwrap_or stored_body_override message_body) delay eff seq
                 in (Inr (reply (m_id msg) seq), commit_message env (bc_is_fifo cfg) key msg q2)))))"

text \<open>Validating the entry identifiers, in request order; \<open>seen\<close> holds those before.\<close>

fun check_send_ids :: "sqs_env \<Rightarrow> string list \<Rightarrow> json list \<Rightarrow> service_error + unit" where
  "check_send_ids env seen [] = Inr ()"
| "check_send_ids env seen (e # es) =
     (case as_str (json_index e ''Id'') of
        None \<Rightarrow> check_send_ids env seen es
      | Some eid \<Rightarrow>
          if \<not> is_valid_batch_id env eid then
            Inl (aws_error 400 ''AWS.SimpleQueueService.InvalidBatchEntryId''
              ''A batch entry id can only contain alphanumeric characters, hyphens and underscores. It can be at most 80 letters long.'')
          else if eid \<in> set seen then
            Inl (aws_error 400 ''AWS.SimpleQueueService.BatchEntryIdsNotDistinct'' (''Id '' @ eid @ '' repeated.''))
          else check_send_ids env (seen @ [eid]) es)"

definition batch_total_size :: "sqs_env \<Rightarrow> json list \<Rightarrow> nat" where
  "batch_total_size env entries =
     sum_list (map (\<lambda>e. (case as_str (json_index e ''MessageBody'') of Some b \<Rightarrow> length b | None \<Rightarrow> 0) +
       message_attributes_size (parse_message_attributes env e)) entries)"

definition too_many_entries :: "nat \<Rightarrow> service_error" where
  "too_many_entries n =
     aws_error 400 ''AWS.SimpleQueueService.TooManyEntriesInBatchRequest''
       (''Maximum number of entries per request are 10. You have sent '' @ show_nat n @ ''.'')"

definition entry_encryptable :: "sqs_env \<Rightarrow> batch_send_config \<Rightarrow> json \<Rightarrow> bool" where
  "entry_encryptable env cfg e \<longleftrightarrow>
     is_some_and (as_str (json_index e ''MessageBody''))
       (\<lambda>b. length b + message_attributes_size (parse_message_attributes env e) \<le> bc_max_message_size cfg) \<and>
     is_some_and (as_str (json_index e ''Id'')) (is_valid_batch_id env) \<and>
     (case val_as_i64 (json_index e ''DelaySeconds'') of Some d \<Rightarrow> 0 \<le> d \<and> d \<le> 900 | None \<Rightarrow> True)"

fun stored_overrides ::
  "sqs_env \<Rightarrow> string \<Rightarrow> string \<Rightarrow> string option \<Rightarrow> batch_send_config \<Rightarrow> json list \<Rightarrow> service_error + string option list" where
  "stored_overrides env acct queue_arn key cfg [] = Inr []"
| "stored_overrides env acct queue_arn key cfg (e # es) =
     and_then
       (if entry_encryptable env cfg e
        then and_then (encrypt_message_body env acct queue_arn key (the (as_str (json_index e ''MessageBody''))))
               (\<lambda>s. Inr (Some s))
        else Inr None)
       (\<lambda>o1. and_then (stored_overrides env acct queue_arn key cfg es) (\<lambda>os. Inr (o1 # os)))"

fun send_entries ::
  "sqs_env \<Rightarrow> batch_send_config \<Rightarrow> nat \<Rightarrow> (json \<times> string option) list \<Rightarrow> (sqs_queue, json list \<times> json list) handler" where
  "send_entries env cfg k [] = h_ok ([], [])"
| "send_entries env cfg k ((e, ov) # es) =
     h_bind (process_batch_send_entry env k e cfg ov) (\<lambda>outcome.
     h_bind (send_entries env cfg (k + 1) es) (\<lambda>(ss, fs).
       h_ok (case outcome of Success v \<Rightarrow> (v # ss, fs) | Failure v \<Rightarrow> (ss, v # fs))))"

definition send_batch_to_queue ::
  "sqs_env \<Rightarrow> string \<Rightarrow> json list \<Rightarrow> (sqs_queue, json list \<times> json list) handler" where
  "send_batch_to_queue env acct entries q =
     (let cfg = from_queue q; key = effective_kms_key_id (q_attributes q)
      in h_bind
           (h_lift (if key \<noteq> None \<and> kms env \<noteq> None
                    then stored_overrides env acct (q_arn q) key cfg entries
                    else Inr (replicate (length entries) None)))
           (\<lambda>ovs. send_entries env cfg 0 (zip entries ovs)) q)"

definition batch_response :: "json list \<times> json list \<Rightarrow> json" where
  "batch_response r = JObj [(''Successful'', JArr (fst r)), (''Failed'', JArr (snd r))]"

definition batch_entries :: "json \<Rightarrow> json list" where
  "batch_entries body = unwrap_or (as_array (json_index body ''Entries'')) []"

definition empty_batch :: "string \<Rightarrow> service_error" where
  "empty_batch msg = aws_error 400 ''AWS.SimpleQueueService.EmptyBatchRequest'' msg"

definition send_message_batch :: "sqs_env \<Rightarrow> aws_request \<Rightarrow> (sqs_store, aws_response) handler" where
  "send_message_batch env req =
     (let body = parse_body env req; entries = batch_entries body; total = batch_total_size env entries
      in h_bind (h_lift (ok_or (as_str (json_index body ''QueueUrl'')) (missing_param ''QueueUrl''))) (\<lambda>queue_url.
         if entries = [] then
           h_err (empty_batch ''There should be at least one SendMessageBatchRequestEntry in the request.'')
         else if 10 < length entries then h_err (too_many_entries (length entries))
         else
           h_bind (h_lift (check_send_ids env [] entries)) (\<lambda>_.
           if 262144 < total then
             h_err (aws_error 400 ''AWS.SimpleQueueService.BatchRequestTooLong''
               (''Batch requests cannot be longer than 262144 bytes. You have sent '' @ show_nat total @ '' bytes.''))
           else
             h_bind (with_region (req_account_id req) (req_region req)
               (on_queue queue_url (send_batch_to_queue env (req_account_id req) entries))) (\<lambda>r.
             h_ok (sqs_response ''SendMessageBatch'' (batch_response r) (req_request_id req) (req_is_query req))))))"

section \<open>Facts\<close>

lemma prune_dedup_sel [simp]:
  "q_messages (prune_dedup t q) = q_messages q" "q_is_fifo (prune_dedup t q) = q_is_fifo q"
  "q_attributes (prune_dedup t q) = q_attributes q" "q_arn (prune_dedup t q) = q_arn q"
  "q_next_sequence_number (prune_dedup t q) = q_next_sequence_number q"
  "q_inflight (prune_dedup t q) = q_inflight q"
  "q_receipt_handle_map (prune_dedup t q) = q_receipt_handle_map q"
  by (simp_all add: prune_dedup_def)

lemma dedup_pass_sel [simp]:
  "q_messages (snd (dedup_pass t b k q)) = q_messages q" "q_is_fifo (snd (dedup_pass t b k q)) = q_is_fifo q"
  "q_attributes (snd (dedup_pass t b k q)) = q_attributes q" "q_arn (snd (dedup_pass t b k q)) = q_arn q"
  "q_next_sequence_number (snd (dedup_pass t b k q)) = q_next_sequence_number q"
  "q_inflight (snd (dedup_pass t b k q)) = q_inflight q"
  "max_message_size (snd (dedup_pass t b k q)) = max_message_size q"
  "delay_secs (snd (dedup_pass t b k q)) = delay_secs q"
  by (simp_all add: dedup_pass_def Let_def max_message_size_def delay_secs_def split: option.splits bool.splits)

lemma dedup_pass_hit:
  "fst (dedup_pass t b key q) = Some e \<longleftrightarrow>
   b \<and> (\<exists>k. key = Some k \<and> map_of (bt_retain (\<lambda>_ e. t < de_expiry e) (q_dedup_cache q)) k = Some e)"
  by (simp add: dedup_pass_def Let_def prune_dedup_def split: option.splits bool.splits)

lemma take_sequence_sel [simp]:
  "q_messages (snd (take_sequence b q)) = q_messages q" "q_is_fifo (snd (take_sequence b q)) = q_is_fifo q"
  "q_attributes (snd (take_sequence b q)) = q_attributes q" "q_arn (snd (take_sequence b q)) = q_arn q"
  "q_inflight (snd (take_sequence b q)) = q_inflight q"
  "q_dedup_cache (snd (take_sequence b q)) = q_dedup_cache q"
  "q_receipt_handle_map (snd (take_sequence b q)) = q_receipt_handle_map q"
  "q_next_sequence_number (snd (take_sequence b q)) = q_next_sequence_number q + (if b then 1 else 0)"
  "fst (take_sequence b q) = (if b then Some (format_sequence_number (q_next_sequence_number q)) else None)"
  by (simp_all add: take_sequence_def)

lemma commit_message_sel [simp]:
  "q_messages (commit_message env b key msg q) = q_messages q @ [msg]"
  "q_is_fifo (commit_message env b key msg q) = q_is_fifo q"
  "q_attributes (commit_message env b key msg q) = q_attributes q"
  "q_inflight (commit_message env b key msg q) = q_inflight q"
  "q_arn (commit_message env b key msg q) = q_arn q"
  "q_next_sequence_number (commit_message env b key msg q) = q_next_sequence_number q"
  by (simp_all add: commit_message_def Let_def split: option.splits bool.splits)

lemma commit_message_dedup:
  "q_dedup_cache (commit_message env True (Some k) msg q) =
   bt_insert k \<lparr>de_message_id = m_id msg, de_sequence_number = m_sequence_number msg,
     de_expiry = now env + seconds 300\<rparr> (q_dedup_cache q)"
  by (simp add: commit_message_def)

text \<open>The three ways a send ends.\<close>

lemma send_to_queue_cases:
  assumes "send_to_queue env acct p q = (r, q')"
  obtains (error) e where "r = Inl e" "q_messages q' = q_messages q"
      "q_next_sequence_number q \<le> q_next_sequence_number q'" "q_is_fifo q' = q_is_fifo q"
  | (replay) e where "dedup_pass (now env) (q_is_fifo q) (dedup_key env q p) q = (Some e, q')"
      "r = Inr (send_reply env (de_message_id e) (de_sequence_number e) p)"
  | (stored) stored seq q1 where
      "dedup_pass (now env) (q_is_fifo q) (dedup_key env q p) q = (None, q1)"
      "r = Inr (send_reply env (uuid env 0) seq p)"
      "length (sp_body p) + message_attributes_size (sp_attrs p) \<le> max_message_size q"
      "encrypt_message_body env acct (q_arn q) (effective_kms_key_id (q_attributes q)) (sp_body p) = Inr stored"
      "seq = (if q_is_fifo q then Some (format_sequence_number (q_next_sequence_number q)) else None)"
      "q' = commit_message env (q_is_fifo q) (dedup_key env q p)
         (new_message env (uuid env 0) p stored (unwrap_or (opt_or (sp_delay p) (delay_secs q)) 0)
            (effective_dedup_id env q p) seq)
         (snd (take_sequence (q_is_fifo q) q1))"
proof (cases "check_fifo_send_constraints q (sp_delay p) (sp_group p) (sp_dedup p)")
  case (Inl e)
  then show ?thesis using assms error [of e] by (auto simp: send_to_queue_def)
next
  case (Inr u)
  obtain d q1 where d: "dedup_pass (now env) (q_is_fifo q) (dedup_key env q p) q = (d, q1)" by fastforce
  have q1: "q_messages q1 = q_messages q" "q_is_fifo q1 = q_is_fifo q" "q_attributes q1 = q_attributes q"
    "q_arn q1 = q_arn q" "q_next_sequence_number q1 = q_next_sequence_number q"
    "max_message_size q1 = max_message_size q" "delay_secs q1 = delay_secs q"
    using dedup_pass_sel [of "now env" "q_is_fifo q" "dedup_key env q p" q] d by simp_all
  obtain seq q2 where t: "take_sequence (q_is_fifo q) q1 = (seq, q2)" by fastforce
  have q2: "q_messages q2 = q_messages q" "q_is_fifo q2 = q_is_fifo q" "q_attributes q2 = q_attributes q"
    "q_arn q2 = q_arn q" "q_next_sequence_number q \<le> q_next_sequence_number q2"
    "seq = (if q_is_fifo q then Some (format_sequence_number (q_next_sequence_number q)) else None)"
    using take_sequence_sel [of "q_is_fifo q" q1] t q1 by simp_all
  note send = assms [unfolded send_to_queue_def Inr Let_def d, simplified q1 t]
  show ?thesis
  proof (cases d)
    case (Some e)
    then show ?thesis using send replay [of e] d by auto
  next
    case None
    show ?thesis
    proof (cases "encrypt_message_body env acct (q_arn q) (effective_kms_key_id (q_attributes q)) (sp_body p)")
      case (Inl e)
      then show ?thesis using send None q1 q2 t error by (auto split: if_splits)
    next
      case (Inr stored')
      note fin = stored [of q1 seq stored', unfolded t snd_conv]
      show ?thesis
      proof (cases "max_message_size q < length (sp_body p) + message_attributes_size (sp_attrs p)")
        case True
        then show ?thesis using send None q1 error by auto
      next
        case False
        then show ?thesis using send Inr None q1 q2 t d fin by (auto simp: new_message_def)
      qed
    qed
  qed
qed

lemma send_reply_fields:
  "map_of (send_reply env mid seq p) ''MessageId'' = Some (JStr mid)"
  "map_of (send_reply env mid seq p) ''SequenceNumber'' = map_option JStr seq"
  "map_of (send_reply env mid seq p) ''MD5OfMessageBody'' = Some (JStr (md5_hex env (sp_body p)))"
  by (simp_all add: send_reply_def opt_field_def split: option.splits)

lemma constraints_give_key:
  "check_fifo_send_constraints q d (sp_group p) (sp_dedup p) = Inr u \<Longrightarrow> q_is_fifo q \<Longrightarrow>
   \<exists>k. dedup_key env q p = Some k"
  by (cases "sp_dedup p")
    (auto simp: check_fifo_send_constraints_def dedup_key_def effective_dedup_id_def split: if_splits)

text \<open>A deduplication entry that has not expired answers the next send under its key.\<close>

lemma send_replays_entry:
  assumes "q_is_fifo q" "bt_wf (q_dedup_cache q)"
    and "check_fifo_send_constraints q (sp_delay p) (sp_group p) (sp_dedup p) = Inr u"
    and "dedup_key env q p = Some k" "map_of (q_dedup_cache q) k = Some e" "now env < de_expiry e"
  shows "send_to_queue env acct p q =
    (Inr (send_reply env (de_message_id e) (de_sequence_number e) p), prune_dedup (now env) q)"
proof -
  have "map_of (bt_retain (\<lambda>_ e. now env < de_expiry e) (q_dedup_cache q)) k = Some e"
    using assms by (simp add: map_of_bt_retain bt_wf_distinct)
  then have "dedup_pass (now env) True (Some k) q = (Some e, prune_dedup (now env) q)"
    by (simp add: dedup_pass_def prune_dedup_def)
  with assms show ?thesis by (simp add: send_to_queue_def)
qed

lemma send_stored_entry:
  assumes "q_is_fifo q" "bt_wf (q_dedup_cache q)" "dedup_key env q p = Some k"
    and "send_to_queue env acct p q = (Inr r, q')" "q_messages q' \<noteq> q_messages q"
  shows "bt_wf (q_dedup_cache q')" "q_is_fifo q'" "q_attributes q' = q_attributes q"
    "\<exists>mid seq. map_of (q_dedup_cache q') k =
       Some \<lparr>de_message_id = mid, de_sequence_number = seq, de_expiry = now env + seconds 300\<rparr> \<and>
       r = send_reply env mid seq p"
proof -
  have "bt_wf (q_dedup_cache q') \<and> q_is_fifo q' \<and> q_attributes q' = q_attributes q \<and>
    (\<exists>mid seq. map_of (q_dedup_cache q') k =
       Some \<lparr>de_message_id = mid, de_sequence_number = seq, de_expiry = now env + seconds 300\<rparr> \<and>
       r = send_reply env mid seq p)"
    using assms(4)
  proof (cases rule: send_to_queue_cases)
    case (error e)
    then show ?thesis by simp
  next
    case (replay e)
    then show ?thesis using assms(5) dedup_pass_sel(1) by (metis snd_conv)
  next
    case (stored s seq q1)
    then have "q1 = prune_dedup (now env) q"
      using assms by (auto simp: dedup_pass_def Let_def)
    then show ?thesis
      using stored assms
      by (simp add: commit_message_dedup map_of_bt_insert bt_wf_insert bt_wf_retain new_message_def prune_dedup_def)
  qed
  then show "bt_wf (q_dedup_cache q')" "q_is_fifo q'" "q_attributes q' = q_attributes q"
    "\<exists>mid seq. map_of (q_dedup_cache q') k =
       Some \<lparr>de_message_id = mid, de_sequence_number = seq, de_expiry = now env + seconds 300\<rparr> \<and>
       r = send_reply env mid seq p"
    by auto
qed

section \<open>Batches and single sends\<close>

text \<open>A valid entry goes the way of a single send with the same parameters.\<close>

lemma effective_dedup_from_queue:
  "(if bc_is_fifo (from_queue q)
    then opt_or (sp_dedup p) (if bc_content_based_dedup (from_queue q) then Some (sha256_hex env (sp_body p)) else None)
    else None) = effective_dedup_id env q p"
  by (simp add: from_queue_def effective_dedup_id_def)

lemma batch_entry_single:
  assumes "as_str (json_index entry ''Id'') = Some eid" "as_str (json_index entry ''MessageBody'') = Some b"
    and p: "p = parse_send_params env entry b"
    and size_ok: "length b + message_attributes_size (sp_attrs p) \<le> max_message_size q"
    and delay: "\<And>d. sp_delay p = Some d \<Longrightarrow> 0 \<le> d \<and> d \<le> 900"
    and enc: "encrypt_message_body env acct (q_arn q) (effective_kms_key_id (q_attributes q)) b = Inr stored"
    and single: "send_to_queue env acct p q = (Inr r, q')"
  shows "process_batch_send_entry env 0 entry (from_queue q) (Some stored) q =
    (Inr (Success (JObj ((''Id'', JStr eid) # r))), q')"
proof -
  obtain d q1 where d: "dedup_pass (now env) (q_is_fifo q) (dedup_key env q p) q = (d, q1)" by fastforce
  have sel: "sp_body p = b" "sp_attrs p = parse_message_attributes env entry"
    "sp_delay p = val_as_i64 (json_index entry ''DelaySeconds'')"
    "sp_group p = as_str (json_index entry ''MessageGroupId'')"
    "sp_dedup p = as_str (json_index entry ''MessageDeduplicationId'')"
    using p by (simp_all add: parse_send_params_def)
  obtain u where c: "check_fifo_send_constraints q (sp_delay p) (sp_group p) (sp_dedup p) = Inr u"
    using single by (cases "check_fifo_send_constraints q (sp_delay p) (sp_group p) (sp_dedup p)")
      (simp_all add: send_to_queue_def)
  have guards: "\<not> is_some_and (sp_delay p) (\<lambda>d. \<not> (0 \<le> d \<and> d \<le> 900))"
    "\<not> (q_is_fifo q \<and> sp_group p = None)"
    "\<not> (q_is_fifo q \<and> sp_dedup p = None \<and> \<not> content_based_dedup q)"
    using delay c by (cases "sp_delay p"; auto simp: check_fifo_send_constraints_def split: if_splits)+
  have "process_batch_send_entry env 0 entry (from_queue q) (Some stored) q =
    (case dedup_pass (now env) (q_is_fifo q) (dedup_key env q p) q of
       (Some e, q1) \<Rightarrow>
         (Inr (Success (JObj ((''Id'', JStr eid) # send_reply env (de_message_id e) (de_sequence_number e) p))), q1)
     | (None, q1) \<Rightarrow>
         (let (seq, q2) = take_sequence (q_is_fifo q) q1;
              msg = new_message env (uuid env 0) p stored (unwrap_or (opt_or (sp_delay p) (delay_secs q)) 0)
                (effective_dedup_id env q p) seq
          in (Inr (Success (JObj ((''Id'', JStr eid) # send_reply env (m_id msg) seq p))),
              commit_message env (q_is_fifo q) (dedup_key env q p) msg q2)))"
    using assms(1,2) size_ok guards
    by (cases "q_is_fifo q"; cases "sp_group p"; cases "sp_dedup p"; cases "content_based_dedup q")
      (simp_all add: process_batch_send_entry_def Let_def sel(2-) [symmetric] sel(1) p [symmetric] from_queue_def
        effective_dedup_id_def dedup_key_def cong: option.case_cong)
  moreover have "q_next_sequence_number q1 = q_next_sequence_number q"
    using dedup_pass_sel(5) [of "now env" "q_is_fifo q" "dedup_key env q p" q] d by simp
  ultimately show ?thesis
    using d
    by (cases rule: send_to_queue_cases [OF single])
      (auto simp: enc sel(1) new_message_def prod.case_eq_if Let_def)
qed

text \<open>What a send that succeeds has checked, unless it answered from the deduplication cache.\<close>

lemma stored_send_checked:
  assumes "send_to_queue env acct p q = (Inr r, q')" "q_messages q' \<noteq> q_messages q"
  shows "length (sp_body p) + message_attributes_size (sp_attrs p) \<le> max_message_size q"
    "\<exists>s. encrypt_message_body env acct (q_arn q) (effective_kms_key_id (q_attributes q)) (sp_body p) = Inr s"
proof -
  have hit: "q_messages q' = q_messages q" if "dedup_pass (now env) (q_is_fifo q) (dedup_key env q p) q = (d, q')" for d
    using dedup_pass_sel(1) [of "now env" "q_is_fifo q" "dedup_key env q p" q] that by simp
  show "length (sp_body p) + message_attributes_size (sp_attrs p) \<le> max_message_size q"
    "\<exists>s. encrypt_message_body env acct (q_arn q) (effective_kms_key_id (q_attributes q)) (sp_body p) = Inr s"
    using assms hit by (cases rule: send_to_queue_cases [OF assms(1)]; blast)+
qed

lemma batch_of_one:
  assumes id: "as_str (json_index entry ''Id'') = Some eid" "is_valid_batch_id env eid"
    and body: "as_str (json_index entry ''MessageBody'') = Some b" and p: "p = parse_send_params env entry b"
    and delay: "\<And>d. sp_delay p = Some d \<Longrightarrow> 0 \<le> d \<and> d \<le> 900"
    and fits: "length b + message_attributes_size (sp_attrs p) \<le> max_message_size q"
    and enc: "encrypt_message_body env acct (q_arn q) (effective_kms_key_id (q_attributes q)) b = Inr stored"
    and single: "send_to_queue env acct p q = (Inr r, q')"
  shows "send_batch_to_queue env acct [entry] q = (Inr ([JObj ((''Id'', JStr eid) # r)], []), q')"
proof -
  let ?key = "effective_kms_key_id (q_attributes q)"
  note one = batch_entry_single [OF id(1) body p fits delay enc single]
  have fields: "sp_attrs p = parse_message_attributes env entry" "sp_delay p = val_as_i64 (json_index entry ''DelaySeconds'')"
    using p by (simp_all add: parse_send_params_def)
  have able: "entry_encryptable env (from_queue q) entry"
    using id body fits delay fields by (auto simp: entry_encryptable_def from_queue_def split: option.split)
  have "process_batch_send_entry env 0 entry (from_queue q) None q = process_batch_send_entry env 0 entry (from_queue q) (Some b) q"
    unfolding process_batch_send_entry_def Let_def id(1) body option.case unwrap_or_simps ..
  moreover have "stored = b" if "?key = None \<or> kms env = None"
    using enc that by (auto simp: encrypt_message_body_def split: option.splits)
  ultimately show ?thesis
    using one able enc body by (auto simp: send_batch_to_queue_def Let_def h_bind_def h_lift_def)
qed

text \<open>What one entry, and a whole batch, can do to the queue.\<close>

lemma batch_entry_result:
  "\<exists>outcome q'. process_batch_send_entry env k entry cfg ov q = (Inr outcome, q') \<and>
     (case outcome of
        Failure _ \<Rightarrow> q' = q
      | Success _ \<Rightarrow> q_messages q' = q_messages q \<or> (\<exists>m. q_messages q' = q_messages q @ [m] \<and> m_id m = uuid env k))"
proof -
  have msgs: "dedup_pass (now env) (bc_is_fifo cfg) key q = (d, q1) \<Longrightarrow> q_messages q1 = q_messages q" for key d q1
    using dedup_pass_sel(1) by (metis snd_conv)
  show ?thesis
    unfolding process_batch_send_entry_def Let_def
    by (auto simp: prod.case_eq_if new_message_def split: option.splits)
qed

lemma send_entries_result:
  "\<exists>ss fs new. fst (send_entries env cfg k es q) = Inr (ss, fs) \<and> length ss + length fs = length es \<and>
     q_messages (snd (send_entries env cfg k es q)) = q_messages q @ new \<and> length new \<le> length ss"
proof (induction es arbitrary: k q)
  case (Cons x es)
  obtain e ov where x: "x = (e, ov)" by fastforce
  obtain outcome q1 where s: "process_batch_send_entry env k e cfg ov q = (Inr outcome, q1)"
    and o1: "case outcome of Failure _ \<Rightarrow> q1 = q
      | Success _ \<Rightarrow> q_messages q1 = q_messages q \<or> (\<exists>m. q_messages q1 = q_messages q @ [m] \<and> m_id m = uuid env k)"
    using batch_entry_result by blast
  obtain r q2 where t: "send_entries env cfg (k + 1) es q1 = (r, q2)" by fastforce
  obtain ss fs new where ih: "r = Inr (ss, fs)" "length ss + length fs = length es"
    "q_messages q2 = q_messages q1 @ new" "length new \<le> length ss"
    using Cons.IH [of "k + 1" q1] t by auto
  show ?case
  proof (cases outcome)
    case (Success v)
    then have "\<exists>m. q_messages q1 = q_messages q @ m \<and> length m \<le> 1" using o1 by auto
    then obtain m where "q_messages q1 = q_messages q @ m" "length m \<le> 1" by blast
    then show ?thesis
      using Success s t ih x by (intro exI [of _ "v # ss"] exI [of _ fs] exI [of _ "m @ new"]) (auto simp: h_bind_def)
  next
    case (Failure v)
    then show ?thesis
      using o1 s t ih x by (intro exI [of _ ss] exI [of _ "v # fs"] exI [of _ new]) (auto simp: h_bind_def)
  qed
qed simp

section \<open>Encryption round trip\<close>

text \<open>
  What the code relies on of the KMS hook: a ciphertext it issued decrypts, under the same
  context and for the same account, to the plaintext, and is one of its envelopes; and of the
  decoder: text that is UTF-8 is left as it is.
\<close>

definition kms_faithful :: "sqs_env \<Rightarrow> string \<Rightarrow> bool" where
  "kms_faithful env text \<longleftrightarrow>
     utf8_lossy env text = text \<and>
     (\<forall>hook acct rgn key svc ctx c. kms env = Some hook \<longrightarrow> kms_encrypt hook acct rgn key text svc ctx = Inr c \<longrightarrow>
        looks_like_fakecloud_envelope env c \<and> kms_decrypt hook acct c svc ctx = Inr text)"

lemma encrypt_decrypt:
  assumes "kms_faithful env text" "encrypt_message_body env acct queue_arn key text = Inr stored"
    and "stored = text \<longrightarrow> kms env = None \<or> \<not> looks_like_fakecloud_envelope env text \<or> opt_filter (\<lambda>k. k \<noteq> []) key \<noteq> None"
  shows "decrypt_message_body env acct queue_arn stored = Inr text"
  using assms
  by (auto simp: encrypt_message_body_def decrypt_message_body_def kms_faithful_def
      split: option.splits sum.splits if_splits)

end
