(* ===== verification/Sqs_Receive.thy ===== *)
theory Sqs_Receive
  imports Sqs_Send "HOL-Library.Multiset"
begin

text \<open>
  Receiving, deleting and changing the visibility of messages
  (\<^verbatim>\<open>fakecloud-sqs/src/service/messages.rs\<close>).

  \<open>try_receive_messages\<close> runs on the state of one region, because a receive can move messages to a
  dead-letter queue there; \<open>collect_batch\<close> is its part on the source queue. The k-th receipt handle
  a receive mints is \<open>uuid env k\<close>. \<open>receive_message\<close> polls: \<open>env_at i\<close> is the environment of the
  i-th poll, \<open>clock i\<close> the monotonic clock read after it, and \<open>interfere i\<close> what other requests do to
  the state during the sleep that follows.
\<close>

section \<open>Returning and taking messages\<close>

definition retention_seconds :: "sqs_queue \<Rightarrow> int" where
  "retention_seconds q = unwrap_or (Option.bind (map_of (q_attributes q) ''MessageRetentionPeriod'') parse_i64) 345600"

definition retained :: "int \<Rightarrow> sqs_queue \<Rightarrow> sqs_message \<Rightarrow> bool" where
  "retained t q m \<longleftrightarrow> num_seconds (t - m_created_at m) < retention_seconds q"

definition expire_retention :: "int \<Rightarrow> sqs_queue \<Rightarrow> sqs_queue" where
  "expire_retention t q =
     q\<lparr>q_messages := filter (retained t q) (q_messages q), q_inflight := filter (retained t q) (q_inflight q)\<rparr>"

definition clear_receipt :: "sqs_message \<Rightarrow> sqs_message" where
  "clear_receipt m = m\<lparr>m_receipt_handle := None, m_visible_at := None\<rparr>"

definition lapsed :: "int \<Rightarrow> sqs_message \<Rightarrow> bool" where
  "lapsed t m \<longleftrightarrow> is_some_and (m_visible_at m) (\<lambda>v. v \<le> t)"

definition return_expired :: "int \<Rightarrow> sqs_queue \<Rightarrow> sqs_queue" where
  "return_expired t q =
     (let returned = filter (lapsed t) (q_inflight q)
      in q\<lparr>q_inflight := filter (\<lambda>m. \<not> lapsed t m) (q_inflight q),
           q_receipt_handle_map := fold (\<lambda>m. bt_remove (m_id m)) returned (q_receipt_handle_map q),
           q_messages := (if q_is_fifo q then map clear_receipt returned @ q_messages q
                          else q_messages q @ map clear_receipt returned)\<rparr>)"

definition visible :: "int \<Rightarrow> sqs_message \<Rightarrow> bool" where
  "visible t m \<longleftrightarrow> \<not> is_some_and (m_visible_at m) (\<lambda>v. t < v)"

text \<open>The messages taken so far, those bound for the dead-letter queue, and the receipt map.\<close>

type_synonym taken = "sqs_message list \<times> (string \<times> sqs_message) list \<times> string list smap"

definition bump :: "sqs_env \<Rightarrow> sqs_message \<Rightarrow> sqs_message" where
  "bump env m =
     m\<lparr>m_receive_count := m_receive_count m + 1,
       m_first_received_at := Some (unwrap_or (m_first_received_at m) (timestamp_millis (now env)))\<rparr>"

definition take_one :: "sqs_env \<Rightarrow> int \<Rightarrow> redrive_policy option \<Rightarrow> sqs_message \<Rightarrow> taken \<Rightarrow> taken" where
  "take_one env vt rp msg acc =
     (let (received, dlq, hm) = acc; m = bump env msg; handle = uuid env (length received)
      in case opt_filter (\<lambda>r. rd_max_receive_count r < m_receive_count m) rp of
           Some r \<Rightarrow> (received, dlq @ [(rd_target_arn r, m)], hm)
         | None \<Rightarrow>
             (received @ [m\<lparr>m_receipt_handle := Some handle, m_visible_at := Some (now env + seconds vt)\<rparr>], dlq,
              bt_insert (m_id m) (unwrap_or (map_of hm (m_id m)) [] @ [handle]) hm))"

fun fifo_take ::
  "sqs_env \<Rightarrow> (string \<Rightarrow> bool) \<Rightarrow> nat \<Rightarrow> int \<Rightarrow> redrive_policy option \<Rightarrow> sqs_message list \<Rightarrow> taken \<Rightarrow> sqs_message list \<times> taken" where
  "fifo_take env locked max_messages vt rp [] acc = ([], acc)"
| "fifo_take env locked max_messages vt rp (m # ms) acc =
     (if \<not> visible (now env) m \<or> locked (unwrap_or (m_group m) [])
      then (let (remaining, acc') = fifo_take env locked max_messages vt rp ms acc in (m # remaining, acc'))
      else if length (fst acc) < max_messages
      then fifo_take env locked max_messages vt rp ms (take_one env vt rp m acc)
      else (m # ms, acc))"

fun standard_take ::
  "sqs_env \<Rightarrow> nat \<Rightarrow> int \<Rightarrow> redrive_policy option \<Rightarrow> sqs_message list \<Rightarrow> taken \<Rightarrow> sqs_message list \<times> taken" where
  "standard_take env max_messages vt rp [] acc = ([], acc)"
| "standard_take env max_messages vt rp (m # ms) acc =
     (if length (fst acc) < max_messages
      then standard_take env max_messages vt rp ms (take_one env vt rp m acc)
      else (let (remaining, acc') = standard_take env max_messages vt rp ms acc in (m # remaining, acc')))"

definition inflight_group :: "sqs_queue \<Rightarrow> string \<Rightarrow> bool" where
  "inflight_group q g \<longleftrightarrow> list_ex (\<lambda>m. m_group m = Some g) (q_inflight q)"

text \<open>How many messages of a message's group are in flight, the key of the fair order.\<close>

definition group_load :: "sqs_queue \<Rightarrow> sqs_message \<Rightarrow> nat" where
  "group_load q m =
     (case m_group m of None \<Rightarrow> 0 | Some g \<Rightarrow> length (filter (\<lambda>x. m_group x = Some g) (q_inflight q)))"

definition collect_batch ::
  "sqs_env \<Rightarrow> nat \<Rightarrow> int \<Rightarrow> sqs_queue \<Rightarrow> sqs_message list \<times> (string \<times> sqs_message) list \<times> sqs_queue" where
  "collect_batch env max_messages vt q =
     (let q1 = return_expired (now env) (expire_retention (now env) q);
          start = ([], [], q_receipt_handle_map q1);
          (remaining, received, dlq, hm) =
            (if q_is_fifo q
             then fifo_take env (inflight_group q1) max_messages vt (q_redrive_policy q1) (q_messages q1) start
             else
               (let later = filter (\<lambda>m. \<not> visible (now env) m) (q_messages q1);
                    ready = sort_key (group_load q1) (filter (visible (now env)) (q_messages q1));
                    (rest, taken) = standard_take env max_messages vt (q_redrive_policy q1) ready start
                in (later @ rest, taken)))
      in (received, dlq, q1\<lparr>q_messages := remaining, q_receipt_handle_map := hm\<rparr>))"

section \<open>Receiving\<close>

definition encrypted :: "sqs_env \<Rightarrow> sqs_queue \<Rightarrow> bool" where
  "encrypted env q \<longleftrightarrow> effective_kms_key_id (q_attributes q) \<noteq> None \<and> kms env \<noteq> None"

fun decrypt_all :: "sqs_env \<Rightarrow> string \<Rightarrow> string \<Rightarrow> sqs_message list \<Rightarrow> service_error + string list" where
  "decrypt_all env acct queue_arn [] = Inr []"
| "decrypt_all env acct queue_arn (m # ms) =
     and_then (decrypt_message_body env acct queue_arn (m_body m)) (\<lambda>b.
     and_then (decrypt_all env acct queue_arn ms) (\<lambda>bs. Inr (b # bs)))"

definition with_bodies :: "sqs_message list \<Rightarrow> string list \<Rightarrow> sqs_message list" where
  "with_bodies ms bs = map (\<lambda>(m, b). m\<lparr>m_body := b\<rparr>) (zip ms bs)"

text \<open>Undoing a batch whose bodies cannot be decrypted.\<close>

definition restore_batch :: "sqs_message list \<Rightarrow> sqs_queue \<Rightarrow> sqs_queue" where
  "restore_batch received q =
     q\<lparr>q_messages :=
         map (\<lambda>m. m\<lparr>m_visible_at := None, m_receive_count := m_receive_count m - 1, m_receipt_handle := None\<rparr>) received
         @ q_messages q,
       q_receipt_handle_map :=
         fold (\<lambda>m. case m_receipt_handle m of
                     Some h \<Rightarrow> bt_modify (m_id m) (filter (\<lambda>x. x \<noteq> h))
                   | None \<Rightarrow> (\<lambda>hm. hm)) received (q_receipt_handle_map q)\<rparr>"

text \<open>\<^verbatim>\<open>values_mut().find(|q| q.arn == arn)\<close> and a push: the first queue in key order.\<close>

fun push_by_arn :: "string \<Rightarrow> sqs_message \<Rightarrow> sqs_queue smap \<Rightarrow> sqs_queue smap option" where
  "push_by_arn a m [] = None"
| "push_by_arn a m ((url, q) # qs) =
     (if q_arn q = a then Some ((url, q\<lparr>q_messages := q_messages q @ [m]\<rparr>) # qs)
      else map_option (\<lambda>r. (url, q) # r) (push_by_arn a m qs))"

definition redrive :: "string \<Rightarrow> string \<times> sqs_message \<Rightarrow> sqs_state \<Rightarrow> sqs_state" where
  "redrive source_arn e st =
     (let (dlq_arn, msg) = e;
          m = (clear_receipt msg)\<lparr>m_receive_count := 0, m_first_received_at := None\<rparr>
      in case push_by_arn dlq_arn m (ss_queues st) of
           Some qs \<Rightarrow> st\<lparr>ss_queues := qs\<rparr>
         | None \<Rightarrow>
             (case push_by_arn source_arn m (ss_queues st) of
                Some qs \<Rightarrow> st\<lparr>ss_queues := qs\<rparr>
              | None \<Rightarrow> st))"

definition prune_attempts :: "int \<Rightarrow> sqs_queue \<Rightarrow> sqs_queue" where
  "prune_attempts t q =
     q\<lparr>q_receive_attempt_cache := bt_retain (\<lambda>_ e. t < ra_expiry e) (q_receive_attempt_cache q)\<rparr>"

definition replayed :: "string option \<Rightarrow> sqs_queue \<Rightarrow> sqs_message list" where
  "replayed attempt_id q =
     (case Option.bind attempt_id (map_of (q_receive_attempt_cache q)) of
        Some entry \<Rightarrow> List.map_filter (\<lambda>mid. find (\<lambda>m. m_id m = mid) (q_inflight q)) (ra_message_ids entry)
      | None \<Rightarrow> [])"

definition record_attempt :: "string option \<Rightarrow> sqs_message list \<Rightarrow> int \<Rightarrow> sqs_queue \<Rightarrow> sqs_queue" where
  "record_attempt attempt_id received expiry q =
     (case attempt_id of
        Some a \<Rightarrow>
          if q_is_fifo q \<and> received \<noteq> []
          then q\<lparr>q_receive_attempt_cache :=
                 bt_insert a \<lparr>ra_message_ids = map m_id received, ra_expiry = expiry\<rparr> (q_receive_attempt_cache q)\<rparr>
          else q
      | None \<Rightarrow> q)"

definition try_receive_messages ::
  "sqs_env \<Rightarrow> string \<Rightarrow> string \<Rightarrow> nat \<Rightarrow> int option \<Rightarrow> string option \<Rightarrow> (sqs_state, sqs_message list) handler" where
  "try_receive_messages env acct queue_url max_messages req_vt attempt_id st =
     (case resolve_queue_url queue_url st of
        None \<Rightarrow> (Inl queue_not_found, st)
      | Some url \<Rightarrow>
     (case map_of (ss_queues st) url of
        None \<Rightarrow> (Inl queue_not_found, st)
      | Some q \<Rightarrow>
          (let vt = unwrap_or req_vt (visibility_timeout_secs q);
               q0 = (if q_is_fifo q then prune_attempts (now env) q else q);
               again = (if q_is_fifo q then replayed attempt_id q0 else [])
           in if again \<noteq> [] then
                (if encrypted env q0
                 then and_then (decrypt_all env acct (q_arn q0) again) (\<lambda>bs. Inr (with_bodies again bs))
                 else Inr again,
                 set_queue url q0 st)
              else
                (let (received, dlq, q1) = collect_batch env max_messages vt q0
                 in case (if encrypted env q1 then decrypt_all env acct (q_arn q1) received else Inr []) of
                      Inl e \<Rightarrow> (Inl e, set_queue url (restore_batch received q1) st)
                    | Inr bodies \<Rightarrow>
                        (let st1 = set_queue url (q1\<lparr>q_inflight := q_inflight q1 @ received\<rparr>) st;
                             st2 = fold (redrive (q_arn q1)) dlq st1;
                             out = (if bodies = [] then received else with_bodies received bodies)
                         in (Inr out,
                             st2\<lparr>ss_queues := bt_modify url
                               (record_attempt attempt_id out (now env + seconds vt)) (ss_queues st2)\<rparr>))))))"

partial_function (option) poll_loop ::
  "(nat \<Rightarrow> (sqs_store, sqs_message list) handler) \<Rightarrow> (nat \<Rightarrow> int) \<Rightarrow> int option \<Rightarrow> (nat \<Rightarrow> sqs_store \<Rightarrow> sqs_store) \<Rightarrow>
   nat \<Rightarrow> sqs_store \<Rightarrow> ((service_error + sqs_message list) \<times> sqs_store) option" where
  "poll_loop try_once clock deadline interfere i ms =
     (case try_once i ms of
        (Inl e, ms') \<Rightarrow> Some (Inl e, ms')
      | (Inr result, ms') \<Rightarrow>
          if result \<noteq> [] \<or> deadline = None \<or> the deadline \<le> clock i then Some (Inr result, ms')
          else poll_loop try_once clock deadline interfere (i + 1) (interfere i ms'))"

definition str_list :: "json \<Rightarrow> string \<Rightarrow> string list option" where
  "str_list body k = map_option (List.map_filter as_str) (as_array (json_index body k))"

definition range_error :: "string \<Rightarrow> int \<Rightarrow> string \<Rightarrow> service_error" where
  "range_error name v reason =
     aws_error 400 ''InvalidParameterValue''
       (''Value '' @ show_int v @ '' for parameter '' @ name @ '' is invalid. Reason: Must be between '' @ reason)"

definition outside :: "int \<Rightarrow> int \<Rightarrow> int option \<Rightarrow> bool" where
  "outside lo hi v \<longleftrightarrow> is_some_and v (\<lambda>x. \<not> (lo \<le> x \<and> x \<le> hi))"

text \<open>\<open>start\<close> is the monotonic clock when the loop begins; instants are in nanoseconds.\<close>

definition receive_message ::
  "(nat \<Rightarrow> sqs_env) \<Rightarrow> int \<Rightarrow> (nat \<Rightarrow> int) \<Rightarrow> (nat \<Rightarrow> sqs_store \<Rightarrow> sqs_store) \<Rightarrow> aws_request \<Rightarrow>
   sqs_store \<Rightarrow> ((service_error + aws_response) \<times> sqs_store) option" where
  "receive_message env_at start clock interfere req ms =
     (let env = env_at 0; body = parse_body env req;
          acct = req_account_id req; rgn = req_region req;
          st = unwrap_or (regional ms acct rgn) (sqs_new acct rgn []);
          max_raw = val_as_i64 (json_index body ''MaxNumberOfMessages'');
          vt = val_as_i64 (json_index body ''VisibilityTimeout'');
          wait_raw = val_as_i64 (json_index body ''WaitTimeSeconds'');
          attempt_id = opt_filter (\<lambda>s. s \<noteq> []) (as_str (json_index body ''ReceiveRequestAttemptId''))
      in case as_str (json_index body ''QueueUrl'') of
           None \<Rightarrow> Some (Inl (missing_param ''QueueUrl''), ms)
         | Some input \<Rightarrow>
      (case resolve_queue_url input st of
         None \<Rightarrow> Some (Inl queue_not_found, ms)
       | Some url \<Rightarrow>
           if outside 1 10 max_raw
           then Some (Inl (range_error ''MaxNumberOfMessages'' (the max_raw) ''1 and 10, if provided.''), ms)
           else if outside 0 43200 vt
           then Some (Inl (range_error ''VisibilityTimeout'' (the vt) ''0 and 43200 seconds.''), ms)
           else if outside 0 20 wait_raw
           then Some (Inl (range_error ''WaitTimeSeconds'' (the wait_raw) ''0 and 20, if provided.''), ms)
           else
             (let queue_wait = Option.bind (map_of (ss_queues st) url) (\<lambda>q.
                    Option.bind (map_of (q_attributes q) ''ReceiveMessageWaitTimeSeconds'') parse_i64);
                  wait = clamp 0 20 (unwrap_or (opt_or wait_raw queue_wait) 0);
                  deadline = (if 0 < wait then Some (start + seconds wait) else None);
                  max_messages = nat (min (unwrap_or max_raw 1) 10);
                  sys_names = opt_or (str_list body ''MessageSystemAttributeNames'') (str_list body ''AttributeNames'')
              in map_option (\<lambda>(r, ms').
                   (and_then r (\<lambda>result. Inr (format_receive_response env result (req_request_id req)
                      (req_is_query req) sys_names (str_list body ''MessageAttributeNames''))), ms'))
                   (poll_loop
                     (\<lambda>i. with_region acct rgn (try_receive_messages (env_at i) acct url max_messages vt attempt_id))
                     clock deadline interfere 0 ms))))"

section \<open>Deleting\<close>

definition invalid_handle :: service_error where
  "invalid_handle = aws_error 400 ''ReceiptHandleIsInvalid'' ''The input receipt handle is invalid.''"

definition drop_message :: "string \<Rightarrow> sqs_queue \<Rightarrow> sqs_queue" where
  "drop_message mid q =
     q\<lparr>q_inflight := filter (\<lambda>m. m_id m \<noteq> mid) (q_inflight q),
       q_messages := filter (\<lambda>m. m_id m \<noteq> mid) (q_messages q)\<rparr>"

definition delete_from_queue :: "string \<Rightarrow> (sqs_queue, unit) handler" where
  "delete_from_queue handle q =
     (case find_message_id_for_receipt q handle of
        Some mid \<Rightarrow> (Inr (), drop_message mid q)
      | None \<Rightarrow> (Inl invalid_handle, q))"

definition required_str :: "json \<Rightarrow> string \<Rightarrow> service_error + string" where
  "required_str body k = ok_or (as_str (json_index body k)) (missing_param k)"

definition delete_message :: "sqs_env \<Rightarrow> aws_request \<Rightarrow> (sqs_store, aws_response) handler" where
  "delete_message env req =
     (let body = parse_body env req
      in h_bind (h_lift (required_str body ''QueueUrl'')) (\<lambda>queue_url.
         h_bind (h_lift (required_str body ''ReceiptHandle'')) (\<lambda>handle.
         h_bind (with_region (req_account_id req) (req_region req) (on_queue queue_url (delete_from_queue handle))) (\<lambda>_.
         h_ok (sqs_response ''DeleteMessage'' (JObj []) (req_request_id req) (req_is_query req))))))"

section \<open>Changing visibility\<close>

text \<open>The loop with \<^verbatim>\<open>break\<close>: the first message with the identifier, \<open>None\<close> where there is none.\<close>

fun set_visible_at :: "string \<Rightarrow> int \<Rightarrow> sqs_message list \<Rightarrow> sqs_message list option" where
  "set_visible_at mid v [] = None"
| "set_visible_at mid v (m # ms) =
     (if m_id m = mid then Some (m\<lparr>m_visible_at := Some v\<rparr> # ms)
      else map_option (\<lambda>r. m # r) (set_visible_at mid v ms))"

definition change_in_queue :: "sqs_env \<Rightarrow> string \<Rightarrow> int \<Rightarrow> sqs_queue \<Rightarrow> sqs_queue option" where
  "change_in_queue env handle vt q =
     Option.bind (find_message_id_for_receipt q handle) (\<lambda>mid.
       (case set_visible_at mid (now env + seconds vt) (q_inflight q) of
          Some fl \<Rightarrow> Some (q\<lparr>q_inflight := fl\<rparr>)
        | None \<Rightarrow> map_option (\<lambda>ms. q\<lparr>q_messages := ms\<rparr>) (set_visible_at mid (now env + seconds vt) (q_messages q))))"

definition visibility_range_message :: "int \<Rightarrow> string" where
  "visibility_range_message vt =
     ''VisibilityTimeout '' @ show_int vt @ '' is invalid. Reason: Must be between 0 and 43200 seconds.''"

definition change_message_visibility :: "sqs_env \<Rightarrow> aws_request \<Rightarrow> (sqs_store, aws_response) handler" where
  "change_message_visibility env req =
     (let body = parse_body env req
      in h_bind (h_lift (required_str body ''QueueUrl'')) (\<lambda>queue_url.
         h_bind (h_lift (required_str body ''ReceiptHandle'')) (\<lambda>handle.
         h_bind (h_lift (ok_or (val_as_i64 (json_index body ''VisibilityTimeout'')) (missing_param ''VisibilityTimeout''))) (\<lambda>vt.
         if \<not> (0 \<le> vt \<and> vt \<le> 43200)
         then h_err (aws_error 400 ''InvalidParameterValue'' (visibility_range_message vt))
         else
           h_bind (with_region (req_account_id req) (req_region req) (on_queue queue_url
             (\<lambda>q. case change_in_queue env handle vt q of
                    Some q' \<Rightarrow> (Inr (), q')
                  | None \<Rightarrow> (Inl invalid_handle, q)))) (\<lambda>_.
           h_ok (sqs_response ''ChangeMessageVisibility'' (JObj []) (req_request_id req) (req_is_query req)))))))"

section \<open>Batches\<close>

text \<open>\<^verbatim>\<open>seen_ids.insert(..)\<close>: entries without an identifier are passed over.\<close>

fun distinct_ids :: "string list \<Rightarrow> json list \<Rightarrow> bool" where
  "distinct_ids seen [] = True"
| "distinct_ids seen (e # es) =
     (case as_str (json_index e ''Id'') of
        None \<Rightarrow> distinct_ids seen es
      | Some eid \<Rightarrow> eid \<notin> set seen \<and> distinct_ids (eid # seen) es)"

definition ids_not_distinct :: service_error where
  "ids_not_distinct = aws_error 400 ''AWS.SimpleQueueService.BatchEntryIdsNotDistinct''
     ''Two or more batch entries in the operation have the same Id.''"

text \<open>An entry step returns an outcome, or none where the entry is skipped.\<close>

type_synonym entry_step = "json \<Rightarrow> sqs_queue \<Rightarrow> batch_entry_outcome option \<times> sqs_queue"

fun run_entries :: "entry_step \<Rightarrow> json list \<Rightarrow> sqs_queue \<Rightarrow> (json list \<times> json list) \<times> sqs_queue" where
  "run_entries step [] q = (([], []), q)"
| "run_entries step (e # es) q =
     (let (outcome, q1) = step e q; ((ss, fs), q2) = run_entries step es q1
      in (case outcome of
            Some (Success v) \<Rightarrow> (v # ss, fs)
          | Some (Failure v) \<Rightarrow> (ss, v # fs)
          | None \<Rightarrow> (ss, fs), q2))"

definition id_success :: "string \<Rightarrow> batch_entry_outcome" where
  "id_success eid = Success (JObj [(''Id'', JStr eid)])"

definition delete_entry :: entry_step where
  "delete_entry e q =
     (case as_str (json_index e ''Id'') of
        None \<Rightarrow> (None, q)
      | Some eid \<Rightarrow>
     (case as_str (json_index e ''ReceiptHandle'') of
        None \<Rightarrow> (Some (Failure (batch_failure eid ''MissingParameter'' ''ReceiptHandle is required'')), q)
      | Some handle \<Rightarrow>
     (case find_message_id_for_receipt q handle of
        Some mid \<Rightarrow> (Some (id_success eid), drop_message mid q)
      | None \<Rightarrow>
          (Some (Failure (batch_failure eid ''ReceiptHandleIsInvalid''
             (''The input receipt handle '' @ [CHR 0x22] @ handle @ [CHR 0x22] @ '' is not a valid receipt handle.''))), q))))"

definition change_entry :: "sqs_env \<Rightarrow> entry_step" where
  "change_entry env e q =
     (case as_str (json_index e ''Id'') of
        None \<Rightarrow> (None, q)
      | Some eid \<Rightarrow>
     (case as_str (json_index e ''ReceiptHandle'') of
        None \<Rightarrow> (Some (Failure (batch_failure eid ''MissingParameter'' ''ReceiptHandle is required'')), q)
      | Some handle \<Rightarrow>
     (case val_as_i64 (json_index e ''VisibilityTimeout'') of
        None \<Rightarrow> (Some (Failure (batch_failure eid ''MissingParameter'' ''VisibilityTimeout is required'')), q)
      | Some vt \<Rightarrow>
          if \<not> (0 \<le> vt \<and> vt \<le> 43200)
          then (Some (Failure (batch_failure eid ''InvalidParameterValue'' (visibility_range_message vt))), q)
          else
            (case change_in_queue env handle vt q of
               Some q' \<Rightarrow> (Some (id_success eid), q')
             | None \<Rightarrow>
                 (Some (Failure (batch_failure eid ''ReceiptHandleIsInvalid'' ''The input receipt handle is invalid.'')), q)))))"

text \<open>The frame the two batch operations share: \<open>empty_msg\<close> and \<open>step\<close> are what differs.\<close>

definition entry_batch ::
  "sqs_env \<Rightarrow> string \<Rightarrow> string \<Rightarrow> entry_step \<Rightarrow> aws_request \<Rightarrow> (sqs_store, aws_response) handler" where
  "entry_batch env act empty_msg step req =
     (let body = parse_body env req; entries = batch_entries body
      in h_bind (h_lift (required_str body ''QueueUrl'')) (\<lambda>queue_url.
         if entries = [] then h_err (empty_batch empty_msg)
         else if 10 < length entries then h_err (too_many_entries (length entries))
         else if \<not> distinct_ids [] entries then h_err ids_not_distinct
         else
           h_bind (with_region (req_account_id req) (req_region req) (on_queue queue_url
             (\<lambda>q. let (r, q') = run_entries step entries q in (Inr r, q')))) (\<lambda>r.
           h_ok (sqs_response act (batch_response r) (req_request_id req) (req_is_query req)))))"

definition change_message_visibility_batch :: "sqs_env \<Rightarrow> aws_request \<Rightarrow> (sqs_store, aws_response) handler" where
  "change_message_visibility_batch env req =
     entry_batch env ''ChangeMessageVisibilityBatch'' ''There should be at least one entry in the request.''
       (change_entry env) req"

definition delete_message_batch :: "sqs_env \<Rightarrow> aws_request \<Rightarrow> (sqs_store, aws_response) handler" where
  "delete_message_batch env req =
     entry_batch env ''DeleteMessageBatch''
       ''There should be at least one DeleteMessageBatchRequestEntry in the request.'' delete_entry req"

end
