(* ===== verification/Sqs_Receive_Facts.thy ===== *)
theory Sqs_Receive_Facts
  imports Sqs_Receive
begin

text \<open>
  What a receive does, against two specifications: which messages it hands out (\<open>fifo_take_received\<close>,
  \<open>standard_take_received\<close>: the first so many deliverable ones, in order), and where every message of
  the region is afterwards (\<open>region_contents\<close>, the multiset of messages with their delivery state
  forgotten).
\<close>

section \<open>Which messages are handed out\<close>

definition poisoned :: "redrive_policy option \<Rightarrow> sqs_message \<Rightarrow> bool" where
  "poisoned rp m \<longleftrightarrow> is_some_and rp (\<lambda>r. rd_max_receive_count r < m_receive_count m + 1)"

definition delivered :: "sqs_env \<Rightarrow> int \<Rightarrow> nat \<Rightarrow> sqs_message \<Rightarrow> sqs_message" where
  "delivered env vt i m =
     (bump env m)\<lparr>m_receipt_handle := Some (uuid env i), m_visible_at := Some (now env + seconds vt)\<rparr>"

definition deliver_from :: "sqs_env \<Rightarrow> int \<Rightarrow> nat \<Rightarrow> sqs_message list \<Rightarrow> sqs_message list" where
  "deliver_from env vt k ms = map (\<lambda>(i, m). delivered env vt i m) (enumerate k ms)"

lemma deliver_from_simps [simp]:
  "deliver_from env vt k [] = []"
  "deliver_from env vt k (m # ms) = delivered env vt k m # deliver_from env vt (Suc k) ms"
  by (simp_all add: deliver_from_def)

lemma length_deliver_from [simp]: "length (deliver_from env vt k ms) = length ms"
  by (simp add: deliver_from_def)

lemma bump_sel [simp]:
  "m_id (bump env m) = m_id m" "m_receive_count (bump env m) = m_receive_count m + 1"
  "m_group (bump env m) = m_group m" "m_body (bump env m) = m_body m" "m_created_at (bump env m) = m_created_at m"
  by (simp_all add: bump_def)

lemma delivered_sel [simp]:
  "m_id (delivered env vt i m) = m_id m" "m_receive_count (delivered env vt i m) = m_receive_count m + 1"
  "m_group (delivered env vt i m) = m_group m" "m_body (delivered env vt i m) = m_body m"
  "m_receipt_handle (delivered env vt i m) = Some (uuid env i)"
  "m_visible_at (delivered env vt i m) = Some (now env + seconds vt)"
  "m_created_at (delivered env vt i m) = m_created_at m"
  by (simp_all add: delivered_def)

lemma map_deliver_from:
  assumes "\<And>i m. f (delivered env vt i m) = g m"
  shows "map f (deliver_from env vt k ms) = map g ms"
  using assms by (induction ms arbitrary: k) simp_all

lemma take_one_received:
  "fst (take_one env vt rp m acc) =
   (if poisoned rp m then fst acc else fst acc @ [delivered env vt (length (fst acc)) m])"
  by (cases acc; cases rp) (auto simp: take_one_def poisoned_def delivered_def Let_def)

lemma fifo_take_received:
  "fst (snd (fifo_take env locked n vt rp ms acc)) =
   fst acc @ deliver_from env vt (length (fst acc))
     (take (n - length (fst acc))
       (filter (\<lambda>m. visible (now env) m \<and> \<not> locked (unwrap_or (m_group m) []) \<and> \<not> poisoned rp m) ms))"
proof (induction ms arbitrary: acc)
  case (Cons m ms)
  show ?case
  proof (cases "visible (now env) m \<and> \<not> locked (unwrap_or (m_group m) []) \<and> length (fst acc) < n")
    case True
    then have "n - length (fst acc) = Suc (n - Suc (length (fst acc)))" by arith
    with True Cons.IH [of "take_one env vt rp m acc"] show ?thesis by (simp add: take_one_received)
  next
    case False
    then show ?thesis using Cons.IH [of acc] by (auto simp: prod.case_eq_if Let_def)
  qed
qed simp

lemma standard_take_received:
  "fst (snd (standard_take env n vt rp ms acc)) =
   fst acc @ deliver_from env vt (length (fst acc)) (take (n - length (fst acc)) (filter (\<lambda>m. \<not> poisoned rp m) ms))"
proof (induction ms arbitrary: acc)
  case (Cons m ms)
  show ?case
  proof (cases "length (fst acc) < n")
    case True
    then have "n - length (fst acc) = Suc (n - Suc (length (fst acc)))" by arith
    with True Cons.IH [of "take_one env vt rp m acc"] show ?thesis by (simp add: take_one_received)
  next
    case False
    then show ?thesis using Cons.IH [of acc] by (auto simp: prod.case_eq_if Let_def)
  qed
qed simp

text \<open>The queue as a receive finds it, and the messages it may hand out, in order.\<close>

definition refreshed :: "int \<Rightarrow> sqs_queue \<Rightarrow> sqs_queue" where
  "refreshed t q = return_expired t (expire_retention t q)"

definition deliverable :: "int \<Rightarrow> sqs_queue \<Rightarrow> sqs_message list" where
  "deliverable t q =
     (let q1 = refreshed t q; ready = filter (visible t) (q_messages q1)
      in filter (\<lambda>m. \<not> poisoned (q_redrive_policy q) m)
           (if q_is_fifo q then filter (\<lambda>m. \<not> inflight_group q1 (unwrap_or (m_group m) [])) ready
            else sort_key (group_load q1) ready))"

lemma refreshed_sel [simp]:
  "q_is_fifo (refreshed t q) = q_is_fifo q" "q_redrive_policy (refreshed t q) = q_redrive_policy q"
  "q_arn (refreshed t q) = q_arn q" "q_attributes (refreshed t q) = q_attributes q"
  by (simp_all add: refreshed_def return_expired_def expire_retention_def Let_def)

lemma collect_batch_received:
  "fst (collect_batch env n vt q) = deliver_from env vt 0 (take n (deliverable (now env) q))"
proof -
  let ?q1 = "refreshed (now env) q"
  have fifo: "filter (\<lambda>m. visible (now env) m \<and> \<not> inflight_group ?q1 (unwrap_or (m_group m) []) \<and>
        \<not> poisoned (q_redrive_policy q) m) (q_messages ?q1) = deliverable (now env) q" if "q_is_fifo q"
    using that by (simp add: deliverable_def Let_def conj_commute conj_left_commute cong: filter_cong)
  show ?thesis
    using fifo_take_received [of env "inflight_group ?q1" n vt "q_redrive_policy ?q1" "q_messages ?q1"
        "([], [], q_receipt_handle_map ?q1)"]
      standard_take_received [of env n vt "q_redrive_policy ?q1"
        "sort_key (group_load ?q1) (filter (visible (now env)) (q_messages ?q1))" "([], [], q_receipt_handle_map ?q1)"]
    by (simp add: collect_batch_def Let_def refreshed_def [symmetric] fifo prod.case_eq_if)
      (simp add: deliverable_def Let_def)
qed

lemma collect_batch_queue:
  "q_inflight (snd (snd (collect_batch env n vt q))) = q_inflight (refreshed (now env) q)"
  "q_is_fifo (snd (snd (collect_batch env n vt q))) = q_is_fifo q"
  "q_arn (snd (snd (collect_batch env n vt q))) = q_arn q"
  "q_attributes (snd (snd (collect_batch env n vt q))) = q_attributes q"
  by (simp_all add: collect_batch_def Let_def refreshed_def [symmetric] prod.case_eq_if)

section \<open>Where every message is afterwards\<close>

definition payload :: "sqs_message \<Rightarrow> sqs_message" where
  "payload m =
     m\<lparr>m_receipt_handle := None, m_visible_at := None, m_receive_count := 0, m_first_received_at := None\<rparr>"

definition payloads :: "sqs_message list \<Rightarrow> sqs_message multiset" where
  "payloads ms = mset (map payload ms)"

definition contents :: "sqs_queue \<Rightarrow> sqs_message multiset" where
  "contents q = payloads (q_messages q) + payloads (q_inflight q)"

definition past_retention :: "int \<Rightarrow> sqs_queue \<Rightarrow> sqs_message multiset" where
  "past_retention t q = payloads (filter (\<lambda>m. \<not> retained t q m) (q_messages q @ q_inflight q))"

definition region_contents :: "sqs_state \<Rightarrow> sqs_message multiset" where
  "region_contents st = sum_list (map (\<lambda>e. contents (snd e)) (ss_queues st))"

lemma payload_simps [simp]:
  "payload (clear_receipt m) = payload m" "payload (bump env m) = payload m"
  "payload (delivered env vt i m) = payload m"
  "payload (m\<lparr>m_receipt_handle := h\<rparr>) = payload m" "payload (m\<lparr>m_visible_at := v\<rparr>) = payload m"
  "payload (m\<lparr>m_receive_count := n\<rparr>) = payload m" "payload (m\<lparr>m_first_received_at := f\<rparr>) = payload m"
  by (simp_all add: payload_def clear_receipt_def bump_def delivered_def)

lemma payloads_simps [simp]:
  "payloads [] = {#}" "payloads (m # ms) = add_mset (payload m) (payloads ms)"
  "payloads (xs @ ys) = payloads xs + payloads ys" "payloads (map clear_receipt xs) = payloads xs"
  "payloads (sort_key f xs) = payloads xs"
  by (simp_all add: payloads_def comp_def)

lemma payloads_partition: "payloads (filter p xs) + payloads (filter (\<lambda>m. \<not> p m) xs) = payloads xs"
  by (induction xs) simp_all

lemma payloads_cong: "map payload xs = map payload ys \<Longrightarrow> payloads xs = payloads ys"
  by (simp add: payloads_def)

lemma contents_return_expired: "contents (return_expired t q) = contents q"
  using payloads_partition [of "lapsed t" "q_inflight q"]
  by (simp add: contents_def return_expired_def Let_def ac_simps)

lemma contents_expire_retention: "contents (expire_retention t q) + past_retention t q = contents q"
  using payloads_partition [of "retained t q" "q_messages q"] payloads_partition [of "retained t q" "q_inflight q"]
  by (simp add: contents_def expire_retention_def past_retention_def ac_simps)

lemma take_one_payloads:
  "payloads (fst (take_one env vt rp m acc)) + payloads (map snd (fst (snd (take_one env vt rp m acc)))) =
   add_mset (payload m) (payloads (fst acc) + payloads (map snd (fst (snd acc))))"
  by (cases acc) (auto simp: take_one_def Let_def split: option.splits)

lemma fifo_take_payloads:
  "payloads (fst (fifo_take env locked n vt rp ms acc)) + payloads (fst (snd (fifo_take env locked n vt rp ms acc))) +
   payloads (map snd (fst (snd (snd (fifo_take env locked n vt rp ms acc))))) =
   payloads ms + payloads (fst acc) + payloads (map snd (fst (snd acc)))"
proof (induction ms arbitrary: acc)
  case (Cons m ms)
  show ?case
    using Cons.IH [of acc] Cons.IH [of "take_one env vt rp m acc"] take_one_payloads [of env vt rp m acc]
    by (auto simp: prod.case_eq_if Let_def ac_simps)
qed simp

lemma standard_take_payloads:
  "payloads (fst (standard_take env n vt rp ms acc)) + payloads (fst (snd (standard_take env n vt rp ms acc))) +
   payloads (map snd (fst (snd (snd (standard_take env n vt rp ms acc))))) =
   payloads ms + payloads (fst acc) + payloads (map snd (fst (snd acc)))"
proof (induction ms arbitrary: acc)
  case (Cons m ms)
  show ?case
    using Cons.IH [of acc] Cons.IH [of "take_one env vt rp m acc"] take_one_payloads [of env vt rp m acc]
    by (auto simp: prod.case_eq_if Let_def ac_simps)
qed simp

lemma collect_batch_messages:
  "payloads (q_messages (snd (snd (collect_batch env n vt q)))) + payloads (fst (collect_batch env n vt q)) +
   payloads (map snd (fst (snd (collect_batch env n vt q)))) = payloads (q_messages (refreshed (now env) q))"
proof -
  let ?q1 = "refreshed (now env) q"
  show ?thesis
    using fifo_take_payloads [of env "inflight_group ?q1" n vt "q_redrive_policy ?q1" "q_messages ?q1"
        "([], [], q_receipt_handle_map ?q1)"]
      standard_take_payloads [of env n vt "q_redrive_policy ?q1"
        "sort_key (group_load ?q1) (filter (visible (now env)) (q_messages ?q1))" "([], [], q_receipt_handle_map ?q1)"]
      payloads_partition [of "visible (now env)" "q_messages ?q1"]
    by (auto simp: collect_batch_def Let_def refreshed_def [symmetric] prod.case_eq_if ac_simps)
qed

lemma collect_batch_payloads:
  "contents (snd (snd (collect_batch env n vt q))) + payloads (fst (collect_batch env n vt q)) +
   payloads (map snd (fst (snd (collect_batch env n vt q)))) + past_retention (now env) q = contents q"
proof -
  have "contents (refreshed (now env) q) + past_retention (now env) q = contents q"
    using contents_return_expired contents_expire_retention by (simp add: refreshed_def)
  with collect_batch_messages [of env n vt q] show ?thesis
    by (simp add: contents_def collect_batch_queue ac_simps)
qed

lemma bt_modify_absent: "k \<notin> fst ` set m \<Longrightarrow> bt_modify k f m = m"
  by (induction m) (auto simp: bt_modify_def)

lemma contents_modify:
  assumes "distinct (map fst qs)" "map_of qs url = Some q"
  shows "sum_list (map (\<lambda>e. contents (snd e)) (bt_modify url f qs)) + contents q =
    sum_list (map (\<lambda>e. contents (snd e)) qs) + contents (f q)"
  using assms
proof (induction qs)
  case (Cons e qs)
  obtain u q' where e: "e = (u, q')" by fastforce
  show ?case
  proof (cases "u = url")
    case True
    then have "bt_modify url f qs = qs"
      using Cons.prems(1) e by (intro bt_modify_absent) simp
    then show ?thesis using Cons.prems e True by (simp add: bt_modify_def ac_simps)
  next
    case False
    then show ?thesis using Cons e by (simp add: bt_modify_def ac_simps)
  qed
qed simp

lemma region_contents_set_queue:
  assumes "distinct (map fst (ss_queues st))" "map_of (ss_queues st) url = Some q"
  shows "region_contents (set_queue url q' st) + contents q = region_contents st + contents q'"
  using contents_modify [OF assms, of "\<lambda>_. q'"] by (simp add: region_contents_def set_queue_def)

lemma push_by_arn_Some:
  assumes "push_by_arn a m qs = Some qs'"
  shows "sum_list (map (\<lambda>e. contents (snd e)) qs') = add_mset (payload m) (sum_list (map (\<lambda>e. contents (snd e)) qs))"
    "map (\<lambda>e. (fst e, q_arn (snd e))) qs' = map (\<lambda>e. (fst e, q_arn (snd e))) qs"
  using assms by (induction a m qs arbitrary: qs' rule: push_by_arn.induct)
    (auto simp: contents_def split: if_splits)

lemma push_by_arn_None: "push_by_arn a m qs = None \<longleftrightarrow> a \<notin> (\<lambda>e. q_arn (snd e)) ` set qs"
  by (induction a m qs rule: push_by_arn.induct) auto

text \<open>The queues of a region by URL and ARN, which no receive changes.\<close>

definition directory :: "sqs_state \<Rightarrow> (string \<times> string) list" where
  "directory st = map (\<lambda>e. (fst e, q_arn (snd e))) (ss_queues st)"

lemma directory_arns: "(\<lambda>e. q_arn (snd e)) ` set (ss_queues st) = snd ` set (directory st)"
  by (simp add: directory_def image_image)

lemma directory_keys: "map fst (ss_queues st) = map fst (directory st)"
  by (simp add: directory_def comp_def)

lemma redrive_step:
  assumes "source_arn \<in> snd ` set (directory st)"
  shows "region_contents (redrive source_arn (a, m) st) = add_mset (payload m) (region_contents st)"
    "directory (redrive source_arn (a, m) st) = directory st"
proof -
  let ?m = "(clear_receipt m)\<lparr>m_receive_count := 0, m_first_received_at := None\<rparr>"
  obtain qs b where p: "push_by_arn b ?m (ss_queues st) = Some qs"
    and r: "redrive source_arn (a, m) st = st\<lparr>ss_queues := qs\<rparr>"
  proof (cases "push_by_arn a ?m (ss_queues st)")
    case None
    have "push_by_arn source_arn ?m (ss_queues st) \<noteq> None"
      using assms by (simp add: push_by_arn_None directory_arns)
    then show ?thesis using that [of source_arn] None by (auto simp: redrive_def)
  next
    case (Some qs)
    then show ?thesis using that [of a qs] by (simp add: redrive_def)
  qed
  show "region_contents (redrive source_arn (a, m) st) = add_mset (payload m) (region_contents st)"
    "directory (redrive source_arn (a, m) st) = directory st"
    using push_by_arn_Some [OF p] r by (simp_all add: region_contents_def directory_def)
qed

lemma redrive_all:
  assumes "source_arn \<in> snd ` set (directory st)"
  shows "region_contents (fold (redrive source_arn) dlq st) = region_contents st + payloads (map snd dlq)"
    "directory (fold (redrive source_arn) dlq st) = directory st"
proof -
  have "region_contents (fold (redrive source_arn) dlq st) = region_contents st + payloads (map snd dlq) \<and>
    directory (fold (redrive source_arn) dlq st) = directory st"
    using assms
  proof (induction dlq arbitrary: st)
    case (Cons e dlq)
    obtain a m where "e = (a, m)" by fastforce
    with Cons.IH [of "redrive source_arn e st"] redrive_step [OF Cons.prems] Cons.prems show ?case by simp
  qed simp
  then show "region_contents (fold (redrive source_arn) dlq st) = region_contents st + payloads (map snd dlq)"
    "directory (fold (redrive source_arn) dlq st) = directory st" by auto
qed

text \<open>The ways a receive ends.\<close>

definition fresh_queue :: "sqs_env \<Rightarrow> sqs_queue \<Rightarrow> sqs_queue" where
  "fresh_queue env q = (if q_is_fifo q then prune_attempts (now env) q else q)"

lemma try_receive_cases:
  assumes "try_receive_messages env acct input n req_vt att st = (r, st')"
  obtains (missing) "r = Inl queue_not_found" "st' = st"
      "\<And>url q. resolve_queue_url input st = Some url \<Longrightarrow> map_of (ss_queues st) url \<noteq> Some q"
  | (replay) url q where "resolve_queue_url input st = Some url" "map_of (ss_queues st) url = Some q" "q_is_fifo q"
      "replayed att (fresh_queue env q) \<noteq> []" "st' = set_queue url (fresh_queue env q) st"
      "\<not> encrypted env q \<Longrightarrow> r = Inr (replayed att (fresh_queue env q))"
  | (failed) url q received dlq q1 e where
      "resolve_queue_url input st = Some url" "map_of (ss_queues st) url = Some q"
      "collect_batch env n (unwrap_or req_vt (visibility_timeout_secs q)) (fresh_queue env q) = (received, dlq, q1)"
      "encrypted env q" "decrypt_all env acct (q_arn q) received = Inl e"
      "r = Inl e" "st' = set_queue url (restore_batch received q1) st"
      "\<not> q_is_fifo q \<or> replayed att (fresh_queue env q) = []"
  | (fresh) url q received dlq q1 bodies out where
      "resolve_queue_url input st = Some url" "map_of (ss_queues st) url = Some q"
      "collect_batch env n (unwrap_or req_vt (visibility_timeout_secs q)) (fresh_queue env q) = (received, dlq, q1)"
      "bodies = [] \<or> encrypted env q \<and> decrypt_all env acct (q_arn q) received = Inr bodies"
      "out = (if bodies = [] then received else with_bodies received bodies)" "r = Inr out"
      "st' = (let st2 = fold (redrive (q_arn q)) dlq (set_queue url (q1\<lparr>q_inflight := q_inflight q1 @ received\<rparr>) st)
              in st2\<lparr>ss_queues := bt_modify url (record_attempt att out
                   (now env + seconds (unwrap_or req_vt (visibility_timeout_secs q)))) (ss_queues st2)\<rparr>)"
      "\<not> q_is_fifo q \<or> replayed att (fresh_queue env q) = []"
proof (cases "resolve_queue_url input st")
  case None
  then show ?thesis using assms missing by (simp add: try_receive_messages_def)
next
  case (Some url)
  note url = this
  show ?thesis
  proof (cases "map_of (ss_queues st) url")
    case None
    then have "r = Inl queue_not_found" "st' = st" using assms url by (simp_all add: try_receive_messages_def)
    moreover have "map_of (ss_queues st) u \<noteq> Some q" if "resolve_queue_url input st = Some u" for u q
      using that url None by simp
    ultimately show ?thesis by (rule missing)
  next
    case (Some q)
    let ?vt = "unwrap_or req_vt (visibility_timeout_secs q)" and ?q0 = "fresh_queue env q"
    obtain received dlq q1 where b: "collect_batch env n ?vt ?q0 = (received, dlq, q1)" by (metis prod_cases3)
    have q1: "q_arn q1 = q_arn q" "encrypted env q1 = encrypted env q" "encrypted env ?q0 = encrypted env q"
      using collect_batch_queue [of env n ?vt ?q0] b
      by (simp_all add: fresh_queue_def prune_attempts_def encrypted_def split: if_splits)
    note run = assms [unfolded try_receive_messages_def url Some option.case Let_def
        fresh_queue_def [symmetric] b prod.case q1]
    show ?thesis
    proof (cases "q_is_fifo q \<and> replayed att ?q0 \<noteq> []")
      case True
      then show ?thesis using run replay [of url q] url Some by (simp split: if_splits)
    next
      case False
      then have again: "\<not> (if q_is_fifo q then replayed att ?q0 else []) \<noteq> []" by simp
      note run' = run [unfolded if_not_P [OF again]]
      show ?thesis
      proof (cases "if encrypted env q then decrypt_all env acct (q_arn q) received else Inr []")
        case (Inl e)
        then show ?thesis using run' failed [of url q received dlq q1 e] url Some b False by (simp split: if_splits)
      next
        case (Inr bodies)
        then show ?thesis using run' fresh [of url q received dlq q1 bodies] url Some b False
          by (auto simp: Let_def split: if_splits)
      qed
    qed
  qed
qed

lemma fresh_queue_sel [simp]:
  "q_arn (fresh_queue env q) = q_arn q" "q_is_fifo (fresh_queue env q) = q_is_fifo q"
  "q_attributes (fresh_queue env q) = q_attributes q" "q_messages (fresh_queue env q) = q_messages q"
  "q_inflight (fresh_queue env q) = q_inflight q" "q_redrive_policy (fresh_queue env q) = q_redrive_policy q"
  "q_receipt_handle_map (fresh_queue env q) = q_receipt_handle_map q"
  by (simp_all add: fresh_queue_def prune_attempts_def)

lemma contents_fresh_queue [simp]: "contents (fresh_queue env q) = contents q"
  by (simp add: fresh_queue_def prune_attempts_def contents_def)

lemma past_retention_fresh_queue [simp]: "past_retention t (fresh_queue env q) = past_retention t q"
  by (simp add: fresh_queue_def prune_attempts_def past_retention_def retained_def retention_seconds_def)

lemma contents_record_attempt [simp]: "contents (record_attempt a ms e q) = contents q"
  by (simp add: record_attempt_def contents_def split: option.splits)

lemma sum_contents_modify_same:
  "(\<And>q. contents (f q) = contents q) \<Longrightarrow>
   sum_list (map (\<lambda>e. contents (snd e)) (bt_modify url f qs)) = sum_list (map (\<lambda>e. contents (snd e)) qs)"
  by (induction qs) (auto simp: bt_modify_def)

lemma directory_set_queue:
  "map_of (ss_queues st) url = Some q \<Longrightarrow> distinct (map fst (ss_queues st)) \<Longrightarrow> q_arn q' = q_arn q \<Longrightarrow>
   directory (set_queue url q' st) = directory st"
  by (auto simp: directory_def set_queue_def bt_modify_def) (metis eq_key_imp_eq_value)

lemma mset_balance:
  fixes s s' s1 c c1 d p :: "'a multiset"
  assumes "s' = s1 + d" "s1 + c = s + c1" "c1 + d + p = c"
  shows "s' + p = s"
proof (rule multiset_eqI)
  fix a
  show "count (s' + p) a = count s a"
    using arg_cong [OF assms(2), of "\<lambda>m. count m a"] arg_cong [OF assms(3), of "\<lambda>m. count m a"] assms(1)
    by simp
qed

definition replays :: "sqs_env \<Rightarrow> string option \<Rightarrow> sqs_queue \<Rightarrow> bool" where
  "replays env att q \<longleftrightarrow> q_is_fifo q \<and> replayed att (fresh_queue env q) \<noteq> []"

lemma try_receive_conserves:
  assumes "distinct (map fst (ss_queues st))" "resolve_queue_url input st = Some url"
    and "map_of (ss_queues st) url = Some q"
    and run: "try_receive_messages env acct input n req_vt att st = (Inr out, st')"
  shows "region_contents st' + (if replays env att q then {#} else past_retention (now env) q) = region_contents st"
  using run
proof (cases rule: try_receive_cases)
  case (replay u q')
  then show ?thesis using assms region_contents_set_queue [OF assms(1,3), of "fresh_queue env q"] by (simp add: replays_def)
next
  case (fresh u q' received dlq q1 bodies out')
  let ?q2 = "q1\<lparr>q_inflight := q_inflight q1 @ received\<rparr>"
  let ?st1 = "set_queue url ?q2 st"
  have same: "u = url" "q' = q" using fresh assms by simp_all
  have q1: "q_arn q1 = q_arn q"
    using collect_batch_queue(3) [of env n _ "fresh_queue env q"] fresh(3) same
    by (metis fresh_queue_sel(1) snd_conv)
  have d: "directory ?st1 = directory st"
    using directory_set_queue [OF assms(3,1), of ?q2] q1 by simp
  have "(url, q) \<in> set (ss_queues st)" using assms(3) by (rule map_of_SomeD)
  then have src: "q_arn q \<in> snd ` set (directory ?st1)"
    unfolding d by (auto simp: directory_def image_image intro: rev_image_eqI)
  have "region_contents st' = region_contents ?st1 + payloads (map snd dlq)"
    using fresh(7) same redrive_all(1) [OF src, of dlq]
    by (simp add: Let_def region_contents_def sum_contents_modify_same)
  moreover have "region_contents ?st1 + contents q = region_contents st + contents ?q2"
    by (rule region_contents_set_queue [OF assms(1,3)])
  moreover have "contents ?q2 = contents q1 + payloads received"
    by (simp add: contents_def ac_simps)
  moreover have "contents q1 + payloads received + payloads (map snd dlq) + past_retention (now env) q = contents q"
    using collect_batch_payloads [of env n _ "fresh_queue env q"] fresh(3) same by (metis contents_fresh_queue
        fst_conv past_retention_fresh_queue snd_conv)
  ultimately have "region_contents st' + past_retention (now env) q = region_contents st"
    using mset_balance by metis
  then show ?thesis using fresh(8) same by (auto simp: replays_def)
qed (use assms in simp_all)

section \<open>The result of a receive\<close>

lemma deliverable_fresh_queue [simp]: "deliverable t (fresh_queue env q) = deliverable t q"
proof -
  have m: "q_messages (refreshed t (fresh_queue env q)) = q_messages (refreshed t q)"
    and fl: "q_inflight (refreshed t (fresh_queue env q)) = q_inflight (refreshed t q)"
    by (simp_all add: refreshed_def return_expired_def expire_retention_def retained_def [abs_def]
        retention_seconds_def Let_def fresh_queue_def prune_attempts_def)
  have "group_load (refreshed t (fresh_queue env q)) = group_load (refreshed t q)"
    "inflight_group (refreshed t (fresh_queue env q)) = inflight_group (refreshed t q)"
    by (simp_all add: fun_eq_iff group_load_def inflight_group_def fl split: option.splits)
  with m show ?thesis by (simp add: deliverable_def Let_def)
qed

lemma decrypt_all_length: "decrypt_all env acct a ms = Inr bs \<Longrightarrow> length bs = length ms"
proof (induction ms arbitrary: bs)
  case (Cons m ms)
  then show ?case
    by (cases "decrypt_message_body env acct a (m_body m)"; cases "decrypt_all env acct a ms") auto
qed simp

lemma with_bodies_sel:
  assumes "length bs = length ms" "\<And>m b. f (m\<lparr>m_body := b\<rparr>) = f m"
  shows "map f (with_bodies ms bs) = map f ms"
  using assms(1) by (induction ms bs rule: list_induct2') (simp_all add: with_bodies_def assms(2))

text \<open>What is handed out, up to the decrypted bodies, and the source queue afterwards.\<close>

lemma try_receive_result:
  assumes "try_receive_messages env acct input n req_vt att st = (Inr out, st')"
    and "resolve_queue_url input st = Some url" "map_of (ss_queues st) url = Some q"
    and "\<not> q_is_fifo q \<or> replayed att (fresh_queue env q) = []"
    and f: "\<And>m b. f (m\<lparr>m_body := b\<rparr>) = f m"
  shows "map f out = map f (deliver_from env (unwrap_or req_vt (visibility_timeout_secs q)) 0
    (take n (deliverable (now env) q)))"
  using assms(1)
proof (cases rule: try_receive_cases)
  case (fresh u q' received dlq q1 bodies out')
  have same: "u = url" "q' = q" using fresh assms by simp_all
  have "received = deliver_from env (unwrap_or req_vt (visibility_timeout_secs q)) 0 (take n (deliverable (now env) q))"
    using collect_batch_received [of env n "unwrap_or req_vt (visibility_timeout_secs q)" "fresh_queue env q"]
      fresh(3) same by simp
  moreover have "bodies \<noteq> [] \<Longrightarrow> length bodies = length received"
    using fresh(4) decrypt_all_length by blast
  ultimately show ?thesis using fresh(5,6) with_bodies_sel [of bodies received f] f by (auto split: if_splits)
qed (use assms in auto)

text \<open>The batch a receive answers with, before decryption, and what decryption makes of it.\<close>

definition batch_of :: "sqs_env \<Rightarrow> nat \<Rightarrow> int option \<Rightarrow> string option \<Rightarrow> sqs_queue \<Rightarrow> sqs_message list" where
  "batch_of env n req_vt att q =
     (if replays env att q then replayed att (fresh_queue env q)
      else deliver_from env (unwrap_or req_vt (visibility_timeout_secs q)) 0 (take n (deliverable (now env) q)))"

definition readable :: "sqs_env \<Rightarrow> string \<Rightarrow> sqs_queue \<Rightarrow> sqs_message list \<Rightarrow> service_error + sqs_message list" where
  "readable env acct q ms =
     (if encrypted env q then and_then (decrypt_all env acct (q_arn q) ms) (\<lambda>bs. Inr (with_bodies ms bs)) else Inr ms)"

lemma try_receive_answer:
  assumes "resolve_queue_url input st = Some url" "map_of (ss_queues st) url = Some q"
  shows "fst (try_receive_messages env acct input n req_vt att st) = readable env acct q (batch_of env n req_vt att q)"
proof -
  let ?vt = "unwrap_or req_vt (visibility_timeout_secs q)" and ?q0 = "fresh_queue env q"
  obtain received dlq q1 where b: "collect_batch env n ?vt ?q0 = (received, dlq, q1)" by (metis prod_cases3)
  have r: "received = deliver_from env ?vt 0 (take n (deliverable (now env) q))"
    using collect_batch_received [of env n ?vt ?q0] b by simp
  have q1: "q_arn q1 = q_arn q" "encrypted env q1 = encrypted env q" "encrypted env ?q0 = encrypted env q"
    using collect_batch_queue [of env n ?vt ?q0] b by (simp_all add: encrypted_def)
  have empty: "ms = [] \<longleftrightarrow> bs = []" if "decrypt_all env acct a ms = Inr bs" for a ms bs
    using decrypt_all_length [OF that] by auto
  show ?thesis
    unfolding try_receive_messages_def assms option.case Let_def fresh_queue_def [symmetric] b prod.case q1
    using r by (auto simp: batch_of_def readable_def replays_def and_then_def with_bodies_def empty split: sum.split)
qed

lemma receive_replays:
  assumes "try_receive_messages env acct input n req_vt att st = (Inr out, st')"
    and "resolve_queue_url input st = Some url" "map_of (ss_queues st) url = Some q"
    and f: "\<And>m b. f (m\<lparr>m_body := b\<rparr>) = f m" and "replays env att q"
  shows "map f out = map f (replayed att (fresh_queue env q))"
proof -
  let ?ms = "replayed att (fresh_queue env q)"
  have "readable env acct q ?ms = Inr out"
    using try_receive_answer [OF assms(2,3), of env acct n req_vt att] assms(1,5) by (simp add: batch_of_def)
  then show ?thesis
    using with_bodies_sel [of _ ?ms f] f decrypt_all_length [of env acct "q_arn q" ?ms]
    by (auto simp: readable_def and_then_def split: if_splits sum.splits)
qed

lemma replayed_in_flight: "set (replayed att q) \<subseteq> set (q_inflight q)"
proof -
  have "the (find p xs) \<in> set xs" if "find p xs \<noteq> None" for p and xs :: "sqs_message list"
    using that by (induction xs) (auto split: if_splits)
  then show ?thesis by (auto simp: replayed_def map_filter_def split: option.split)
qed

text \<open>A push changes only the messages of a queue.\<close>

lemma push_by_arn_get:
  assumes "push_by_arn a m qs = Some qs'" "map_of qs url = Some q"
  shows "\<exists>q'. map_of qs' url = Some q' \<and> (\<exists>extra. q' = q\<lparr>q_messages := q_messages q @ extra\<rparr>)"
  using assms
proof (induction a m qs arbitrary: qs' rule: push_by_arn.induct)
  case (2 a m u q0 qs)
  have keep: "\<exists>extra. q = q\<lparr>q_messages := q_messages q @ extra\<rparr>" by (rule exI [of _ "[]"]) simp
  from 2 keep show ?case by (auto split: if_splits)
qed simp

lemma redrive_get:
  assumes "map_of (ss_queues st) url = Some q"
  shows "\<exists>q'. map_of (ss_queues (redrive src e st)) url = Some q' \<and> (\<exists>extra. q' = q\<lparr>q_messages := q_messages q @ extra\<rparr>)"
proof -
  have keep: "\<exists>extra. q = q\<lparr>q_messages := q_messages q @ extra\<rparr>" by (rule exI [of _ "[]"]) simp
  obtain a m where e: "e = (a, m)" by fastforce
  show ?thesis
    using push_by_arn_get [OF _ assms] assms keep
    by (simp add: redrive_def Let_def e split: option.splits)
qed

lemma redrive_all_get:
  assumes "map_of (ss_queues st) url = Some q"
  shows "\<exists>q'. map_of (ss_queues (fold (redrive src) dlq st)) url = Some q' \<and>
    (\<exists>extra. q' = q\<lparr>q_messages := q_messages q @ extra\<rparr>)"
  using assms
proof (induction dlq arbitrary: st q)
  case Nil
  then show ?case by (intro exI [of _ q] conjI exI [of _ "[]"]) simp_all
next
  case (Cons e dlq)
  obtain q1 x where q1: "map_of (ss_queues (redrive src e st)) url = Some q1"
    "q1 = q\<lparr>q_messages := q_messages q @ x\<rparr>" using redrive_get [OF Cons.prems] by blast
  obtain q2 y where "map_of (ss_queues (fold (redrive src) dlq (redrive src e st))) url = Some q2"
    "q2 = q1\<lparr>q_messages := q_messages q1 @ y\<rparr>" using Cons.IH [OF q1(1)] by blast
  with q1 show ?case by (intro exI [of _ q2]) (auto intro: exI [of _ "x @ y"])
qed

lemma try_receive_source:
  assumes "try_receive_messages env acct input n req_vt att st = (Inr out, st')"
    and "resolve_queue_url input st = Some url" "map_of (ss_queues st) url = Some q"
    and "\<not> q_is_fifo q \<or> replayed att (fresh_queue env q) = []"
  obtains q' where "map_of (ss_queues st') url = Some q'"
    "q_inflight q' = q_inflight (refreshed (now env) q) @
       deliver_from env (unwrap_or req_vt (visibility_timeout_secs q)) 0 (take n (deliverable (now env) q))"
    "q_is_fifo q' = q_is_fifo q" "q_arn q' = q_arn q" "q_attributes q' = q_attributes q"
    "q_receipt_handle_map q' = q_receipt_handle_map (snd (snd (collect_batch env n
       (unwrap_or req_vt (visibility_timeout_secs q)) (fresh_queue env q))))"
  using assms(1)
proof (cases rule: try_receive_cases)
  case (fresh u q' received dlq q1 bodies out')
  let ?vt = "unwrap_or req_vt (visibility_timeout_secs q)"
  let ?q2 = "q1\<lparr>q_inflight := q_inflight q1 @ received\<rparr>"
  have same: "u = url" "q' = q" using fresh assms by simp_all
  have b: "fst (collect_batch env n ?vt (fresh_queue env q)) = received"
    "snd (snd (collect_batch env n ?vt (fresh_queue env q))) = q1" using fresh(3) same by simp_all
  have "q_inflight (refreshed (now env) (fresh_queue env q)) = q_inflight (refreshed (now env) q)"
    by (simp add: refreshed_def return_expired_def expire_retention_def retained_def [abs_def]
        retention_seconds_def Let_def)
  then have q1: "q_inflight q1 = q_inflight (refreshed (now env) q)" "q_is_fifo q1 = q_is_fifo q"
    "q_arn q1 = q_arn q" "q_attributes q1 = q_attributes q"
    "received = deliver_from env ?vt 0 (take n (deliverable (now env) q))"
    using collect_batch_queue [of env n ?vt "fresh_queue env q"]
      collect_batch_received [of env n ?vt "fresh_queue env q"] b by simp_all
  have "map_of (ss_queues (set_queue url ?q2 st)) url = Some ?q2"
    using assms(3) by (simp add: map_of_set_queue)
  then obtain q3 x where q3: "map_of (ss_queues (fold (redrive (q_arn q)) dlq (set_queue url ?q2 st))) url = Some q3"
    "q3 = ?q2\<lparr>q_messages := q_messages ?q2 @ x\<rparr>" using redrive_all_get by blast
  have "map_of (ss_queues st') url = Some (record_attempt att out' (now env + seconds ?vt) q3)"
    using fresh(7) same q3(1) by (simp add: Let_def map_of_bt_modify)
  then show ?thesis
    using that q1 q3(2) b(2) by (auto simp: record_attempt_def split: option.splits if_splits)
qed (use assms in auto)

lemma try_receive_plain:
  assumes "resolve_queue_url input st = Some url" "map_of (ss_queues st) url = Some q" "\<not> encrypted env q"
  obtains out st' where "try_receive_messages env acct input n req_vt att st = (Inr out, st')"
    "\<not> q_is_fifo q \<or> replayed att (fresh_queue env q) = [] \<Longrightarrow>
       out = deliver_from env (unwrap_or req_vt (visibility_timeout_secs q)) 0 (take n (deliverable (now env) q))"
proof -
  obtain r st' where run: "try_receive_messages env acct input n req_vt att st = (r, st')" by fastforce
  then show ?thesis
  proof (cases rule: try_receive_cases)
    case missing
    then show ?thesis using assms by blast
  next
    case (replay u q')
    then show ?thesis using that run assms by auto
  next
    case (failed u q' received dlq q1 e)
    then show ?thesis using assms by simp
  next
    case (fresh u q' received dlq q1 bodies out)
    then have "received = deliver_from env (unwrap_or req_vt (visibility_timeout_secs q)) 0 (take n (deliverable (now env) q))"
      using collect_batch_received [of env n "unwrap_or req_vt (visibility_timeout_secs q)" "fresh_queue env q"] assms
      by simp
    then show ?thesis using that [of out st'] fresh run assms by simp
  qed
qed

end
