(* ===== verification/Sqs_Visibility.thy ===== *)
theory Sqs_Visibility
  imports Sqs_Receive_Facts
begin

text \<open>
  Consequences for consumers: what is in flight is not deliverable, groups of a FIFO queue are locked
  while one of their messages is in flight and keep their order, a receipt handle names its message
  and nothing else and deletes exactly that one, and a polling receive ends.
\<close>

section \<open>Identifiers\<close>

definition queue_ids :: "sqs_queue \<Rightarrow> string list" where
  "queue_ids q = map m_id (q_messages q @ q_inflight q)"

definition unique_ids :: "sqs_state \<Rightarrow> bool" where
  "unique_ids st \<longleftrightarrow> distinct (concat (map (\<lambda>e. queue_ids (snd e)) (ss_queues st)))"

lemma payload_id [simp]: "m_id (payload m) = m_id m"
  by (simp add: payload_def)

lemma mset_queue_ids: "mset (queue_ids q) = image_mset m_id (contents q)"
  by (simp add: queue_ids_def contents_def payloads_def multiset.map_comp comp_def)

lemma distinct_count_le: "distinct xs \<longleftrightarrow> (\<forall>a. count (mset xs) a \<le> 1)"
proof
  assume "\<forall>a. count (mset xs) a \<le> 1"
  then show "distinct xs"
  proof (induction xs)
    case (Cons x xs)
    from spec [OF Cons.prems, of x] have "x \<notin> set xs" by (simp add: count_mset_0_iff)
    moreover have "\<forall>a. count (mset xs) a \<le> 1"
    proof
      fix a
      have "count (mset xs) a \<le> count (mset (x # xs)) a" by simp
      then show "count (mset xs) a \<le> 1" using spec [OF Cons.prems, of a] by (rule le_trans)
    qed
    ultimately show ?case using Cons.IH by simp
  qed simp
qed (simp add: distinct_count_atmost_1)

lemma unique_ids_contents: "unique_ids st \<longleftrightarrow> (\<forall>a. count (image_mset m_id (region_contents st)) a \<le> 1)"
proof -
  have eq: "mset (concat (map (\<lambda>e. queue_ids (snd e)) qs)) =
      image_mset m_id (sum_list (map (\<lambda>e. contents (snd e)) qs))" for qs
    by (induction qs) (simp_all add: mset_queue_ids)
  show ?thesis unfolding unique_ids_def region_contents_def distinct_count_le eq ..
qed

lemma unique_ids_subset: "unique_ids st \<Longrightarrow> region_contents st' \<subseteq># region_contents st \<Longrightarrow> unique_ids st'"
  unfolding unique_ids_contents using image_mset_subseteq_mono mset_subset_eq_count by (meson order_trans)

lemma unique_ids_queue: "unique_ids st \<Longrightarrow> map_of (ss_queues st) url = Some q \<Longrightarrow> distinct (queue_ids q)"
  by (force simp: unique_ids_def distinct_concat_iff dest!: map_of_SomeD)

section \<open>Names\<close>

text \<open>Two states that resolve queue references alike.\<close>

definition same_names :: "sqs_state \<Rightarrow> sqs_state \<Rightarrow> bool" where
  "same_names st st' \<longleftrightarrow>
     map fst (ss_queues st') = map fst (ss_queues st) \<and> ss_name_to_url st' = ss_name_to_url st \<and>
     ss_region st' = ss_region st \<and> ss_account_id st' = ss_account_id st"

lemma same_names_refl [simp]: "same_names st st"
  by (simp add: same_names_def)

lemma same_names_trans: "same_names a b \<Longrightarrow> same_names b c \<Longrightarrow> same_names a c"
  by (simp add: same_names_def)

lemma same_names_resolve: "same_names st st' \<Longrightarrow> resolve_queue_url input st' = resolve_queue_url input st"
  by (rule resolve_queue_url_cong) (simp_all add: same_names_def)

lemma same_names_set_queue: "same_names st (set_queue url q st)"
  by (simp add: same_names_def)

lemma same_names_redrive: "same_names st (redrive src e st)"
proof -
  obtain a m where e: "e = (a, m)" by fastforce
  have "map fst qs' = map fst qs" if "push_by_arn b x qs = Some qs'" for b x qs qs'
    using arg_cong [OF push_by_arn_Some(2) [OF that], of "map fst"] by (simp add: comp_def)
  then show ?thesis by (auto simp: same_names_def redrive_def Let_def e split: option.splits)
qed

lemma same_names_redrive_all: "same_names st (fold (redrive src) dlq st)"
proof (induction dlq arbitrary: st)
  case (Cons e dlq)
  show ?case using same_names_trans [OF same_names_redrive Cons.IH] by simp
qed simp

lemma try_receive_same_names:
  assumes "try_receive_messages env acct input n req_vt att st = (r, st')"
  shows "same_names st st'"
  using assms
proof (cases rule: try_receive_cases)
  case (fresh url q received dlq q1 bodies out)
  let ?st2 = "fold (redrive (q_arn q)) dlq (set_queue url (q1\<lparr>q_inflight := q_inflight q1 @ received\<rparr>) st)"
  have "same_names st ?st2" by (rule same_names_trans [OF same_names_set_queue same_names_redrive_all])
  then show ?thesis using fresh(7) by (simp add: same_names_def Let_def)
qed (simp_all add: same_names_set_queue)

section \<open>Visibility\<close>

text \<open>A receive hands out no message that is in flight and has not lapsed.\<close>

lemma refreshed_messages:
  "m \<in> set (q_messages (refreshed t q)) \<Longrightarrow>
   m \<in> set (q_messages q) \<or> (\<exists>x \<in> set (q_inflight q). lapsed t x \<and> m_id m = m_id x)"
  by (auto simp: refreshed_def return_expired_def expire_retention_def clear_receipt_def Let_def split: if_splits)

lemma deliverable_messages: "set (deliverable t q) \<subseteq> set (q_messages (refreshed t q))"
  by (auto simp: deliverable_def Let_def)

lemma hidden_not_deliverable:
  assumes "distinct (queue_ids q)" "x \<in> set (q_inflight q)" "\<not> lapsed t x"
  shows "m_id x \<notin> m_id ` set (deliverable t q)"
proof
  assume "m_id x \<in> m_id ` set (deliverable t q)"
  then obtain y where y: "y \<in> set (q_messages (refreshed t q))" "m_id y = m_id x"
    using deliverable_messages by fastforce
  have "inj_on m_id (set (q_inflight q))" "m_id ` set (q_messages q) \<inter> m_id ` set (q_inflight q) = {}"
    using assms(1) by (auto simp: queue_ids_def distinct_map)
  with refreshed_messages [OF y(1)] y(2) assms(2,3) show False by (auto dest: inj_onD)
qed

lemma in_deliver_from: "m \<in> set ms \<Longrightarrow> \<exists>i. delivered env vt i m \<in> set (deliver_from env vt k ms)"
proof (induction ms arbitrary: k)
  case (Cons x ms)
  then show ?case using Cons.IH [of "Suc k"] by auto
qed simp

section \<open>Groups, order and fairness\<close>

lemma fifo_deliverable_unlocked:
  assumes "q_is_fifo q" "m \<in> set (deliverable t q)" "x \<in> set (q_inflight q)" "retained t q x" "\<not> lapsed t x"
  shows "m_group m = None \<or> m_group m \<noteq> m_group x"
proof -
  have "x \<in> set (q_inflight (refreshed t q))"
    using assms(3-5) by (simp add: refreshed_def return_expired_def expire_retention_def Let_def)
  moreover have "\<not> inflight_group (refreshed t q) (unwrap_or (m_group m) [])"
    using assms(1,2) by (simp add: deliverable_def Let_def)
  ultimately show ?thesis by (cases "m_group m") (auto simp: inflight_group_def list_ex_iff)
qed

lemma fifo_deliverable_order:
  assumes "q_is_fifo q"
  shows "\<exists>rest. filter (\<lambda>m. m_group m = Some g)
      (filter (\<lambda>m. visible t m \<and> \<not> poisoned (q_redrive_policy q) m) (q_messages (refreshed t q))) =
    filter (\<lambda>m. m_group m = Some g) (take n (deliverable t q)) @ rest"
proof -
  let ?q1 = "refreshed t q" and ?g = "\<lambda>m. m_group m = Some g"
  let ?ok = "filter (\<lambda>m. visible t m \<and> \<not> poisoned (q_redrive_policy q) m) (q_messages (refreshed t q))"
  let ?free = "\<lambda>m. \<not> inflight_group ?q1 (unwrap_or (m_group m) [])"
  have d: "deliverable t q = filter ?free ?ok"
    using assms by (simp add: deliverable_def Let_def conj_commute conj_left_commute cong: filter_cong)
  show ?thesis
  proof (cases "inflight_group ?q1 g")
    case True
    then have "\<not> ?g m" if "m \<in> set (take n (deliverable t q))" for m
      using in_set_takeD [OF that] unfolding d by auto
    then have "filter ?g (take n (deliverable t q)) = []" by (simp add: filter_empty_conv)
    then show ?thesis by simp
  next
    case False
    then have eq: "filter ?g (filter ?free xs) = filter ?g xs" for xs by (induction xs) auto
    have "filter ?g ?ok = filter ?g (take n (deliverable t q) @ drop n (deliverable t q))"
      unfolding append_take_drop_id d by (rule eq [symmetric])
    then show ?thesis unfolding filter_append by blast
  qed
qed

lemma standard_deliverable_fair:
  assumes "\<not> q_is_fifo q" "m \<in> set (take n (deliverable t q))"
    and "y \<in> set (deliverable t q)" "y \<notin> set (take n (deliverable t q))"
  shows "group_load (refreshed t q) m \<le> group_load (refreshed t q) y"
proof -
  let ?l = "group_load (refreshed t q)"
  have "sorted (map ?l (deliverable t q))"
    using assms(1) by (simp add: deliverable_def Let_def sorted_filter)
  then have "sorted (map ?l (take n (deliverable t q)) @ map ?l (drop n (deliverable t q)))"
    by (simp flip: map_append)
  moreover have "y \<in> set (drop n (deliverable t q))"
    using assms(3,4) by (metis Un_iff append_take_drop_id set_append)
  ultimately show ?thesis using assms(2) by (auto simp: sorted_append)
qed

section \<open>Receipt handles\<close>

definition receipts :: "string list smap \<Rightarrow> (string \<times> string) set" where
  "receipts hm = {(mid, h). \<exists>hs. (mid, hs) \<in> set hm \<and> h \<in> set hs}"

lemma receipts_insert:
  assumes "bt_wf hm"
  shows "receipts (bt_insert k (unwrap_or (map_of hm k) [] @ [h]) hm) = insert (k, h) (receipts hm)"
proof -
  have "(mid, hs) \<in> set hm' \<longleftrightarrow> map_of hm' mid = Some hs" if "bt_wf hm'" for mid hs and hm' :: "string list smap"
    using map_of_eq_Some_iff [OF bt_wf_distinct [OF that]] by simp
  then have r: "(mid, x) \<in> receipts hm' \<longleftrightarrow> x \<in> set (unwrap_or (map_of hm' mid) [])" if "bt_wf hm'"
    for mid x and hm' :: "string list smap"
    using that by (cases "map_of hm' mid") (auto simp: receipts_def)
  have "(mid, x) \<in> receipts (bt_insert k (unwrap_or (map_of hm k) [] @ [h]) hm) \<longleftrightarrow>
      (mid, x) = (k, h) \<or> (mid, x) \<in> receipts hm" for mid x
    using assms by (auto simp: r bt_wf_insert map_of_bt_insert)
  then show ?thesis by auto
qed

lemma receipts_fold_remove: "receipts (fold (\<lambda>m. bt_remove (m_id m)) ms hm) \<subseteq> receipts hm"
proof (induction ms arbitrary: hm)
  case (Cons m ms)
  have "receipts (bt_remove (m_id m) hm) \<subseteq> receipts hm" by (auto simp: receipts_def bt_remove_def)
  with Cons [of "bt_remove (m_id m) hm"] show ?case by simp
qed simp

lemma bt_wf_fold_remove: "bt_wf hm \<Longrightarrow> bt_wf (fold (\<lambda>m. bt_remove (m_id m)) ms hm)"
  by (induction ms arbitrary: hm) (simp_all add: bt_wf_remove)

text \<open>A take adds the receipts of what it hands out, and nothing else.\<close>

definition receipts_ok :: "sqs_env \<Rightarrow> string list smap \<Rightarrow> taken \<Rightarrow> bool" where
  "receipts_ok env hm0 acc \<longleftrightarrow>
     bt_wf (snd (snd acc)) \<and>
     receipts (snd (snd acc)) = receipts hm0 \<union> (\<lambda>i. (m_id (fst acc ! i), uuid env i)) ` {..<length (fst acc)}"

lemma take_one_receipts: "receipts_ok env hm0 acc \<Longrightarrow> receipts_ok env hm0 (take_one env vt rp m acc)"
proof -
  assume ok: "receipts_ok env hm0 acc"
  obtain r d hm where acc: "acc = (r, d, hm)" by (cases acc)
  show ?thesis
  proof (cases "opt_filter (\<lambda>x. rd_max_receive_count x < m_receive_count (bump env m)) rp")
    case None
    let ?m = "(bump env m)\<lparr>m_receipt_handle := Some (uuid env (length r)), m_visible_at := Some (now env + seconds vt)\<rparr>"
    have "(\<lambda>i. (m_id ((r @ [?m]) ! i), uuid env i)) ` {..<length r} = (\<lambda>i. (m_id (r ! i), uuid env i)) ` {..<length r}"
      by (rule image_cong) (simp_all add: nth_append)
    then have "(\<lambda>i. (m_id ((r @ [?m]) ! i), uuid env i)) ` {..<length (r @ [?m])} =
        insert (m_id m, uuid env (length r)) ((\<lambda>i. (m_id (r ! i), uuid env i)) ` {..<length r})"
      by (simp add: lessThan_Suc)
    then show ?thesis
      using ok None by (simp add: acc receipts_ok_def take_one_def Let_def receipts_insert bt_wf_insert)
  next
    case (Some x)
    then show ?thesis using ok by (simp add: acc receipts_ok_def take_one_def Let_def)
  qed
qed

lemma fifo_take_receipts:
  "receipts_ok env hm0 acc \<Longrightarrow> receipts_ok env hm0 (snd (fifo_take env locked n vt rp ms acc))"
  by (induction ms arbitrary: acc) (auto simp: prod.case_eq_if Let_def take_one_receipts)

lemma standard_take_receipts:
  "receipts_ok env hm0 acc \<Longrightarrow> receipts_ok env hm0 (snd (standard_take env n vt rp ms acc))"
  by (induction ms arbitrary: acc) (auto simp: prod.case_eq_if Let_def take_one_receipts)

lemma collect_batch_receipts:
  assumes "bt_wf (q_receipt_handle_map q)"
  shows "receipts (q_receipt_handle_map (snd (snd (collect_batch env n vt q)))) \<subseteq>
      receipts (q_receipt_handle_map q) \<union>
      (\<lambda>i. (m_id (fst (collect_batch env n vt q) ! i), uuid env i)) ` {..<length (fst (collect_batch env n vt q))}"
    and "i < length (fst (collect_batch env n vt q)) \<Longrightarrow>
      (m_id (fst (collect_batch env n vt q) ! i), uuid env i) \<in>
      receipts (q_receipt_handle_map (snd (snd (collect_batch env n vt q))))"
proof -
  let ?q1 = "refreshed (now env) q" and ?b = "collect_batch env n vt q"
  let ?hm = "q_receipt_handle_map (refreshed (now env) q)"
  have hm: "receipts ?hm \<subseteq> receipts (q_receipt_handle_map q)" "bt_wf ?hm"
    using assms receipts_fold_remove bt_wf_fold_remove
    by (simp_all add: refreshed_def return_expired_def expire_retention_def Let_def)
  then have start: "receipts_ok env ?hm ([], [], ?hm)" by (simp add: receipts_ok_def)
  have "receipts_ok env ?hm (fst ?b, fst (snd ?b), q_receipt_handle_map (snd (snd ?b)))"
    using fifo_take_receipts [OF start, of "inflight_group ?q1" n vt "q_redrive_policy ?q1" "q_messages ?q1"]
      standard_take_receipts [OF start, of n vt "q_redrive_policy ?q1"
        "sort_key (group_load ?q1) (filter (visible (now env)) (q_messages ?q1))"]
    by (simp add: collect_batch_def Let_def refreshed_def [symmetric] prod.case_eq_if)
  then have eq: "receipts (q_receipt_handle_map (snd (snd ?b))) =
      receipts ?hm \<union> (\<lambda>i. (m_id (fst ?b ! i), uuid env i)) ` {..<length (fst ?b)}"
    by (simp add: receipts_ok_def)
  with hm(1) show "receipts (q_receipt_handle_map (snd (snd ?b))) \<subseteq> receipts (q_receipt_handle_map q) \<union>
      (\<lambda>i. (m_id (fst ?b ! i), uuid env i)) ` {..<length (fst ?b)}" by blast
  show "i < length (fst ?b) \<Longrightarrow> (m_id (fst ?b ! i), uuid env i) \<in> receipts (q_receipt_handle_map (snd (snd ?b)))"
    unfolding eq by blast
qed

text \<open>A handle that the map holds for one identifier only resolves to it.\<close>

lemma find_message_id_unique:
  assumes "(mid, h) \<in> receipts (q_receipt_handle_map q)"
    and "\<And>mid'. (mid', h) \<in> receipts (q_receipt_handle_map q) \<Longrightarrow> mid' = mid"
  shows "find_message_id_for_receipt q h = Some mid"
proof -
  let ?p = "\<lambda>(mid :: string, handles). h \<in> set handles"
  obtain hs where "(mid, hs) \<in> set (q_receipt_handle_map q)" "h \<in> set hs"
    using assms(1) by (auto simp: receipts_def)
  then have "find ?p (q_receipt_handle_map q) \<noteq> None" by (auto simp: find_None_iff)
  then obtain e where e: "find ?p (q_receipt_handle_map q) = Some e" by blast
  then have "e \<in> set (q_receipt_handle_map q)" "?p e" by (metis find_Some_iff nth_mem)+
  then have "(fst e, h) \<in> receipts (q_receipt_handle_map q)" by (cases e) (auto simp: receipts_def)
  with e assms(2) show ?thesis by (simp add: find_message_id_for_receipt_def)
qed

lemma delete_received:
  assumes "try_receive_messages env acct input n req_vt att st = (Inr out, st')"
    and q: "resolve_queue_url input st = Some url" "map_of (ss_queues st) url = Some q"
    and "\<not> q_is_fifo q \<or> replayed att (fresh_queue env q) = []"
    and "bt_wf (q_receipt_handle_map q)"
    and fresh: "\<And>mid i. (mid, uuid env i) \<notin> receipts (q_receipt_handle_map q)" "inj (uuid env)"
    and "m \<in> set out"
  obtains h q' where "m_receipt_handle m = Some h" "map_of (ss_queues st') url = Some q'"
    "delete_from_queue h q' = (Inr (), drop_message (m_id m) q')" "m_id m \<in> m_id ` set (q_inflight q')"
proof -
  let ?vt = "unwrap_or req_vt (visibility_timeout_secs q)"
  let ?src = "take n (deliverable (now env) q)"
  let ?b = "collect_batch env n ?vt (fresh_queue env q)"
  obtain q' where q': "map_of (ss_queues st') url = Some q'"
    "q_receipt_handle_map q' = q_receipt_handle_map (snd (snd ?b))"
    "q_inflight q' = q_inflight (refreshed (now env) q) @ deliver_from env ?vt 0 ?src"
    using try_receive_source [OF assms(1) q assms(4)] by blast
  have b: "fst ?b = deliver_from env ?vt 0 ?src" by (simp add: collect_batch_received)
  have pairs: "map (\<lambda>m. (m_id m, m_receipt_handle m)) out = map (\<lambda>m. (m_id m, m_receipt_handle m)) (fst ?b)"
    unfolding b by (rule try_receive_result [OF assms(1) q assms(4)]) simp
  from assms(8) obtain i where i: "i < length out" "m = out ! i" by (auto simp: in_set_conv_nth)
  have "length (fst ?b) = length out" using arg_cong [OF pairs, of length] by simp
  then have ib: "i < length (fst ?b)" "m_id m = m_id (fst ?b ! i)" "m_receipt_handle m = m_receipt_handle (fst ?b ! i)"
    using i arg_cong [OF pairs, of "\<lambda>l. l ! i"] by simp_all
  have h: "m_receipt_handle (fst ?b ! i) = Some (uuid env i)"
    using ib(1) unfolding b deliver_from_def by (simp add: nth_enumerate_eq)
  have "(m_id m, uuid env i) \<in> receipts (q_receipt_handle_map q')"
    using collect_batch_receipts(2) [of "fresh_queue env q", OF _ ib(1)] assms(5) ib(2) q'(2) by simp
  moreover have "mid' = m_id m" if "(mid', uuid env i) \<in> receipts (q_receipt_handle_map q')" for mid'
    using collect_batch_receipts(1) [of "fresh_queue env q" env n ?vt] assms(5) that fresh q'(2) ib(2)
    by (auto dest: injD)
  ultimately have "find_message_id_for_receipt q' (uuid env i) = Some (m_id m)" by (rule find_message_id_unique)
  moreover have "m_id m \<in> m_id ` set (q_inflight q')"
    using nth_mem [OF ib(1)] unfolding ib(2) q'(3) b by (intro imageI) simp
  ultimately show ?thesis using that [of "uuid env i" q'] q'(1) ib(3) h by (simp add: delete_from_queue_def)
qed

text \<open>Where identifiers are unique, dropping an in-flight message removes that entry and nothing else.\<close>

lemma drop_in_flight:
  assumes "distinct (queue_ids q)" "mid \<in> m_id ` set (q_inflight q)"
  shows "\<exists>before x after. q_inflight q = before @ x # after \<and> m_id x = mid \<and>
    drop_message mid q = q\<lparr>q_inflight := before @ after\<rparr>"
proof -
  obtain x where x: "x \<in> set (q_inflight q)" "m_id x = mid" using assms(2) by blast
  then obtain before after where split: "q_inflight q = before @ x # after" by (meson split_list)
  have "m_id x \<notin> m_id ` (set before \<union> set after \<union> set (q_messages q))"
    using assms(1) by (auto simp: queue_ids_def split)
  then have "m_id y \<noteq> mid" if "y \<in> set before \<union> set after \<union> set (q_messages q)" for y
    using imageI [OF that, of m_id] x(2) by metis
  then have "filter (\<lambda>m. m_id m \<noteq> mid) before = before" "filter (\<lambda>m. m_id m \<noteq> mid) after = after"
    "filter (\<lambda>m. m_id m \<noteq> mid) (q_messages q) = q_messages q"
    by (simp_all add: filter_id_conv)
  with x(2) split show ?thesis
    by (intro exI [of _ before] exI [of _ x] exI [of _ after]) (simp add: drop_message_def)
qed

section \<open>Polling\<close>

text \<open>The loop ends: every sleep moves the clock on, and the deadline is finite.\<close>

lemma poll_loop_ends:
  assumes "\<And>i. clock i < clock (i + 1)"
  shows "\<exists>r. poll_loop try_once clock deadline interfere i ms = Some r"
proof (cases deadline)
  case None
  then show ?thesis by (subst poll_loop.simps) (auto split: prod.splits sum.splits)
next
  case (Some d)
  show ?thesis
  proof (induction "nat (d - clock i)" arbitrary: i ms rule: less_induct)
    case less
    obtain r ms' where t: "try_once i ms = (r, ms')" by fastforce
    show ?case
    proof (cases "d \<le> clock i")
      case True
      then show ?thesis using Some t by (subst poll_loop.simps) (auto split: sum.splits)
    next
      case False
      then have "nat (d - clock (i + 1)) < nat (d - clock i)" using assms [of i] by linarith
      from less [OF this, of "interfere i ms'"] show ?thesis
        using Some t by (subst poll_loop.simps) (auto split: sum.splits)
    qed
  qed
qed

end
