(* ===== verification/Sqs_Redrive.thy ===== *)
theory Sqs_Redrive
  imports Sqs_Visibility
begin

text \<open>
  Dead letters: which messages a receive sends to the dead-letter queue (\<open>exhausted\<close>: the ready ones
  whose count has reached the limit of the redrive policy), and what that queue holds afterwards.
\<close>

definition eligible :: "int \<Rightarrow> sqs_queue \<Rightarrow> sqs_message list" where
  "eligible t q =
     (let q1 = refreshed t q; ready = filter (visible t) (q_messages q1)
      in if q_is_fifo q then filter (\<lambda>m. \<not> inflight_group q1 (unwrap_or (m_group m) [])) ready
         else sort_key (group_load q1) ready)"

definition exhausted :: "int \<Rightarrow> sqs_queue \<Rightarrow> sqs_message list" where
  "exhausted t q = filter (poisoned (q_redrive_policy q)) (eligible t q)"

lemma deliverable_eligible: "deliverable t q = filter (\<lambda>m. \<not> poisoned (q_redrive_policy q) m) (eligible t q)"
  by (simp add: deliverable_def eligible_def Let_def)

lemma refreshed_fresh_queue:
  "q_messages (refreshed t (fresh_queue env q)) = q_messages (refreshed t q)"
  "q_inflight (refreshed t (fresh_queue env q)) = q_inflight (refreshed t q)"
  by (simp_all add: refreshed_def return_expired_def expire_retention_def retained_def [abs_def]
      retention_seconds_def Let_def)

lemma exhausted_fresh_queue [simp]: "exhausted t (fresh_queue env q) = exhausted t q"
proof -
  have "group_load (refreshed t (fresh_queue env q)) = group_load (refreshed t q)"
    "inflight_group (refreshed t (fresh_queue env q)) = inflight_group (refreshed t q)"
    by (simp_all add: fun_eq_iff group_load_def inflight_group_def refreshed_fresh_queue split: option.splits)
  then show ?thesis by (simp add: exhausted_def eligible_def Let_def refreshed_fresh_queue)
qed

section \<open>What leaves the source queue\<close>

lemma take_one_dead:
  "fst (snd (take_one env vt (Some r) m acc)) =
   (if poisoned (Some r) m then fst (snd acc) @ [(rd_target_arn r, bump env m)] else fst (snd acc))"
  by (cases acc) (simp add: take_one_def poisoned_def Let_def)

lemma fifo_take_dead:
  assumes "length (fst (snd (fifo_take env locked n vt (Some r) ms acc))) < n"
  shows "fst (snd (snd (fifo_take env locked n vt (Some r) ms acc))) = fst (snd acc) @ map (\<lambda>m. (rd_target_arn r, bump env m))
    (filter (poisoned (Some r)) (filter (\<lambda>m. \<not> locked (unwrap_or (m_group m) [])) (filter (visible (now env)) ms)))"
  using assms
proof (induction ms arbitrary: acc)
  case (Cons m ms)
  then show ?case by (auto simp: prod.case_eq_if Let_def take_one_dead split: if_splits)
qed simp

lemma standard_take_dead:
  assumes "length (fst (snd (standard_take env n vt (Some r) ms acc))) < n"
  shows "fst (snd (snd (standard_take env n vt (Some r) ms acc))) =
    fst (snd acc) @ map (\<lambda>m. (rd_target_arn r, bump env m)) (filter (poisoned (Some r)) ms)"
  using assms
proof (induction ms arbitrary: acc)
  case (Cons m ms)
  have "length (fst acc) \<le> length (fst (snd (standard_take env n vt (Some r) ms acc)))" by (simp add: standard_take_received)
  with Cons show ?case by (auto simp: prod.case_eq_if Let_def take_one_dead split: if_splits)
qed simp

lemma collect_batch_dead:
  assumes "q_redrive_policy q = Some r" "length (fst (collect_batch env n vt q)) < n"
  shows "fst (snd (collect_batch env n vt q)) = map (\<lambda>m. (rd_target_arn r, bump env m)) (exhausted (now env) q)"
proof -
  let ?q1 = "refreshed (now env) q"
  show ?thesis
    using fifo_take_dead [of env "inflight_group ?q1" n vt r "q_messages ?q1" "([], [], q_receipt_handle_map ?q1)"]
      standard_take_dead [of env n vt r "sort_key (group_load ?q1) (filter (visible (now env)) (q_messages ?q1))"
        "([], [], q_receipt_handle_map ?q1)"] assms
    by (cases "q_is_fifo q")
      (simp_all add: collect_batch_def Let_def refreshed_def [symmetric] prod.case_eq_if exhausted_def eligible_def)
qed

section \<open>What reaches the dead-letter queue\<close>

lemma push_by_arn_target:
  assumes "map_of qs d = Some dq" "distinct (map fst qs)"
    and "\<And>u. (u, a) \<in> (\<lambda>e. (fst e, q_arn (snd e))) ` set qs \<longleftrightarrow> u = d"
  shows "\<exists>qs'. push_by_arn a m qs = Some qs' \<and> map_of qs' d = Some (dq\<lparr>q_messages := q_messages dq @ [m]\<rparr>)"
  using assms
proof (induction a m qs rule: push_by_arn.induct)
  case (2 a m u q qs)
  show ?case
  proof (cases "u = d")
    case True
    have "d \<notin> fst ` set qs" using "2.prems"(2) True by simp
    then have "(d, a) \<notin> (\<lambda>e. (fst e, q_arn (snd e))) ` set qs" by force
    then have "q_arn q = a" using "2.prems"(3) [of d] by simp
    then show ?thesis using "2.prems"(1) True by simp
  next
    case False
    then have other: "q_arn q \<noteq> a" using "2.prems"(3) [of u] by auto
    have "(u', a) \<in> (\<lambda>e. (fst e, q_arn (snd e))) ` set qs \<longleftrightarrow> u' = d" for u'
      using "2.prems"(3) [of u'] other by auto
    from "2.IH" [OF other _ _ this] "2.prems"(1,2) False other show ?thesis by auto
  qed
qed simp

lemma redrive_target:
  assumes "map_of (ss_queues st) d = Some dq" "distinct (map fst (ss_queues st))"
    and "\<And>u. (u, a) \<in> set (directory st) \<longleftrightarrow> u = d"
  shows "map_of (ss_queues (redrive src (a, bump env m) st)) d = Some (dq\<lparr>q_messages := q_messages dq @ [payload m]\<rparr>)"
    "directory (redrive src (a, bump env m) st) = directory st"
proof -
  have p: "(clear_receipt (bump env m))\<lparr>m_receive_count := 0, m_first_received_at := None\<rparr> = payload m"
    by (simp add: clear_receipt_def bump_def payload_def)
  obtain qs' where qs': "push_by_arn a (payload m) (ss_queues st) = Some qs'"
    "map_of qs' d = Some (dq\<lparr>q_messages := q_messages dq @ [payload m]\<rparr>)"
    using push_by_arn_target [OF assms(1,2), of a "payload m"] assms(3) by (auto simp: directory_def)
  then show "map_of (ss_queues (redrive src (a, bump env m) st)) d = Some (dq\<lparr>q_messages := q_messages dq @ [payload m]\<rparr>)"
    "directory (redrive src (a, bump env m) st) = directory st"
    using push_by_arn_Some(2) [OF qs'(1)] by (simp_all add: redrive_def p directory_def)
qed

lemma redrive_all_target:
  assumes "map_of (ss_queues st) d = Some dq" "distinct (map fst (ss_queues st))"
    and "\<And>u. (u, a) \<in> set (directory st) \<longleftrightarrow> u = d"
  shows "map_of (ss_queues (fold (redrive src) (map (\<lambda>m. (a, bump env m)) ms) st)) d =
    Some (dq\<lparr>q_messages := q_messages dq @ map payload ms\<rparr>)"
  using assms
proof (induction ms arbitrary: st dq)
  case (Cons m ms)
  note step = redrive_target [OF Cons.prems, of src env m]
  have "distinct (map fst (ss_queues (redrive src (a, bump env m) st)))"
    using Cons.prems(2) unfolding directory_keys step(2) .
  from Cons.IH [OF step(1) this] Cons.prems(3) step(2) show ?case by simp
qed simp

lemma receive_feeds_dead_letters:
  assumes keys: "distinct (map fst (ss_queues st))"
    and q: "resolve_queue_url input st = Some url" "map_of (ss_queues st) url = Some q" "q_redrive_policy q = Some rp"
    and d: "map_of (ss_queues st) d = Some dq" "d \<noteq> url" "\<And>u. (u, rd_target_arn rp) \<in> set (directory st) \<longleftrightarrow> u = d"
    and run: "try_receive_messages env acct input n req_vt att st = (Inr out, st')" "\<not> replays env att q"
    and room: "length out < n"
  shows "map_of (ss_queues st') d = Some (dq\<lparr>q_messages := q_messages dq @ map payload (exhausted (now env) q)\<rparr>)"
  using run(1)
proof (cases rule: try_receive_cases)
  case (replay u q')
  then show ?thesis using q run(2) by (simp add: replays_def)
next
  case (fresh u q' received dlq q1 bodies out')
  let ?q2 = "q1\<lparr>q_inflight := q_inflight q1 @ received\<rparr>"
  let ?st1 = "set_queue url ?q2 st"
  have same: "u = url" "q' = q" using fresh q by simp_all
  have "length out = length received"
    using fresh(4-6) decrypt_all_length by (auto simp: with_bodies_def split: if_splits)
  then have dlq: "dlq = map (\<lambda>m. (rd_target_arn rp, bump env m)) (exhausted (now env) q)"
    using collect_batch_dead [of "fresh_queue env q" rp env n "unwrap_or req_vt (visibility_timeout_secs q)"] fresh(3) same q(3) room by simp
  have "q_arn q1 = q_arn q"
    using collect_batch_queue(3) [of env n _ "fresh_queue env q"] fresh(3) same by (metis fresh_queue_sel(1) snd_conv)
  then have dir: "directory ?st1 = directory st"
    using directory_set_queue [OF q(2) keys, of ?q2] by simp
  have "map_of (ss_queues ?st1) d = Some dq" using d(1,2) by (simp add: map_of_set_queue)
  moreover have "distinct (map fst (ss_queues ?st1))" using keys unfolding directory_keys dir .
  ultimately show ?thesis
    using redrive_all_target [of ?st1 d dq "rd_target_arn rp" "q_arn q" env "exhausted (now env) q"] d(2,3) dir fresh(7) same dlq
    by (simp add: Let_def map_of_bt_modify)
qed (use assms in simp_all)

end
