(* ===== verification/Sqs_Queues.thy ===== *)
theory Sqs_Queues
  imports Sqs_Visibility
begin

text \<open>
  Managing queues (\<^verbatim>\<open>fakecloud-sqs/src/service/queues.rs\<close>, \<^verbatim>\<open>tags.rs\<close>, \<^verbatim>\<open>dlq.rs\<close>): creation, deletion,
  listing, attributes, purging and tags. The part of an operation that runs under the lock of the
  region is a definition of its own (\<open>create_in_region\<close>, \<open>apply_attributes\<close>, \<dots>); operations that
  only read take the region's state as an argument and leave the store alone.

  The lemmas show that pages of \<^verbatim>\<open>ListQueues\<close> cover the queues whatever changes in between, that the
  message counts add up, and that the two encryption modes exclude each other.
\<close>

section \<open>Reading\<close>

text \<open>\<^verbatim>\<open>accounts.regional(..).unwrap_or(&empty)\<close>.\<close>

definition read_region :: "aws_request \<Rightarrow> sqs_store \<Rightarrow> sqs_state" where
  "read_region req ms =
     unwrap_or (regional ms (req_account_id req) (req_region req)) (sqs_new (req_account_id req) (req_region req) [])"

definition find_queue :: "string \<Rightarrow> sqs_state \<Rightarrow> service_error + sqs_queue" where
  "find_queue input st =
     (case resolve_queue_url input st of
        None \<Rightarrow> Inl queue_not_found
      | Some url \<Rightarrow> ok_or (map_of (ss_queues st) url) queue_not_found)"

definition reply :: "string \<Rightarrow> aws_request \<Rightarrow> json \<Rightarrow> aws_response" where
  "reply act req body = sqs_response act body (req_request_id req) (req_is_query req)"

section \<open>Creation\<close>

text \<open>The entries of a JSON object whose values are strings, inserted in order.\<close>

definition insert_strings :: "(string \<times> json) list \<Rightarrow> string smap \<Rightarrow> string smap" where
  "insert_strings obj m = fold (\<lambda>(k, v) r. case as_str v of Some s \<Rightarrow> bt_insert k s r | None \<Rightarrow> r) obj m"

definition given_attributes :: "json \<Rightarrow> string smap" where
  "given_attributes body =
     (case as_object (json_index body ''Attributes'') of
        Some attrs \<Rightarrow> insert_strings (map (\<lambda>(k, v). (trim k, v)) attrs) []
      | None \<Rightarrow> [])"

definition given_tags :: "json \<Rightarrow> string smap" where
  "given_tags body =
     (let add = (\<lambda>k m. case as_object (json_index body k) of Some obj \<Rightarrow> insert_strings obj m | None \<Rightarrow> m)
      in add ''Tags'' (add ''tags'' []))"

text \<open>Equality of parsed values: the order of an object's keys does not count.\<close>

definition json_eq :: "json \<Rightarrow> json \<Rightarrow> bool" where
  "json_eq a b \<longleftrightarrow> sort_json_keys a = sort_json_keys b"

definition attribute_conflicts :: "sqs_env \<Rightarrow> sqs_queue \<Rightarrow> string \<times> string \<Rightarrow> bool" where
  "attribute_conflicts env existing e =
     (let (k, v) = e
      in case map_of (q_attributes existing) (trim k) of
           None \<Rightarrow> False
         | Some old \<Rightarrow>
             \<not> (case (from_json env old, from_json env v) of
                   (Some a, Some b) \<Rightarrow> json_eq a b
                 | _ \<Rightarrow> old = v))"

definition default_attributes :: "bool \<Rightarrow> string smap" where
  "default_attributes is_fifo =
     fold (\<lambda>(k, v). bt_insert k v)
       ([(''VisibilityTimeout'', ''30''), (''DelaySeconds'', ''0''), (''MaximumMessageSize'', ''262144''),
         (''MessageRetentionPeriod'', ''345600''), (''ReceiveMessageWaitTimeSeconds'', ''0''),
         (''KmsDataKeyReusePeriodSeconds'', ''300''), (''SqsManagedSseEnabled'', ''true'')] @
        (if is_fifo
         then [(''FifoQueue'', ''true''), (''ContentBasedDeduplication'', ''false''),
               (''DeduplicationScope'', ''queue''), (''FifoThroughputLimit'', ''perQueue'')]
         else [])) []"

definition exclude_modes :: "string smap \<Rightarrow> string smap" where
  "exclude_modes attrs =
     (let a1 = (if is_some_and (map_of attrs ''KmsMasterKeyId'') (\<lambda>k. k \<noteq> [])
                then bt_insert ''SqsManagedSseEnabled'' ''false'' attrs else attrs)
      in if map_of a1 ''SqsManagedSseEnabled'' = Some ''true'' then bt_remove ''KmsMasterKeyId'' a1 else a1)"

definition initial_attributes :: "sqs_env \<Rightarrow> bool \<Rightarrow> string smap \<Rightarrow> string smap" where
  "initial_attributes env is_fifo given =
     exclude_modes
       (fold (\<lambda>(k, v). bt_insert (trim k) (canonicalize_json_attr env (trim k) v)) given (default_attributes is_fifo))"

definition new_queue ::
  "sqs_env \<Rightarrow> string \<Rightarrow> string \<Rightarrow> string \<Rightarrow> string smap \<Rightarrow> redrive_policy option \<Rightarrow> string smap \<Rightarrow> sqs_state \<Rightarrow> sqs_queue" where
  "new_queue env rgn name url attrs rp tags st =
     (let ts = show_int (timestamp_secs (now env))
      in \<lparr>q_name = name, q_url = url,
          q_arn = ''arn:'' @ partition_for rgn @ '':sqs:'' @ rgn @ '':'' @ ss_account_id st @ '':'' @ name,
          q_created_at = now env, q_messages = [], q_inflight = [],
          q_attributes = bt_insert ''LastModifiedTimestamp'' ts (bt_insert ''CreatedTimestamp'' ts attrs),
          q_is_fifo = ends_with name ''.fifo'', q_dedup_cache = [], q_redrive_policy = rp, q_tags = tags,
          q_next_sequence_number = 0, q_permission_labels = [], q_receipt_handle_map = [], q_receive_attempt_cache = []\<rparr>)"

text \<open>The result is the stored URL, which the caller renders.\<close>

definition create_in_region ::
  "sqs_env \<Rightarrow> string \<Rightarrow> string \<Rightarrow> string smap \<Rightarrow> string smap \<Rightarrow> (sqs_state, string) handler" where
  "create_in_region env rgn name given tags st =
     (case map_of (ss_name_to_url st) name of
        Some url \<Rightarrow>
          if is_some_and (map_of (ss_queues st) url) (\<lambda>q. list_ex (attribute_conflicts env q) given)
          then (Inl (aws_error 400 ''QueueAlreadyExists''
                  ''A queue already exists with the same name and a different value for attribute VisibilityTimeout.''), st)
          else (Inr url, st)
      | None \<Rightarrow>
          (let url = ss_endpoint st @ ''/'' @ ss_account_id st @ ''/'' @ name;
               is_fifo = ends_with name ''.fifo''
           in case validate_create_queue_attributes given of
                Inl e \<Rightarrow> (Inl e, st)
              | Inr _ \<Rightarrow>
                  (let attrs = initial_attributes env is_fifo given;
                       rp = Option.bind (map_of attrs ''RedrivePolicy'') (parse_redrive_policy env)
                   in case (case rp of Some p \<Rightarrow> validate_redrive_policy_target st p is_fifo | None \<Rightarrow> Inr ()) of
                        Inl e \<Rightarrow> (Inl e, st)
                      | Inr _ \<Rightarrow>
                          (Inr url,
                           st\<lparr>ss_name_to_url := bt_insert name url (ss_name_to_url st),
                              ss_queues := bt_insert url (new_queue env rgn name url attrs rp tags st) (ss_queues st)\<rparr>))))"

definition base_name :: "string \<Rightarrow> string" where
  "base_name name = (if ends_with name ''.fifo'' then trim_end_matches name ''.fifo'' else name)"

definition create_queue :: "sqs_env \<Rightarrow> aws_request \<Rightarrow> (sqs_store, aws_response) handler" where
  "create_queue env req =
     (let body = parse_body env req
      in h_bind (h_lift (required_str body ''QueueName'')) (\<lambda>name.
         if is_some_and (as_object (json_index body ''Attributes''))
              (\<lambda>attrs. Option.bind (map_of attrs ''FifoQueue'') as_str = Some ''true'') \<and> \<not> ends_with name ''.fifo''
         then h_err (aws_error 400 ''InvalidParameterValue''
                ''The queue name must end with the .fifo suffix for a FIFO queue.'')
         else if \<not> is_valid_queue_name env (base_name name)
         then h_err (aws_error 400 ''InvalidParameterValue''
                ''Can only include alphanumeric characters, hyphens, or underscores. 1 to 80 in length'')
         else
           h_bind (with_region (req_account_id req) (req_region req) (\<lambda>st.
             (let (r, st') = create_in_region env (req_region req) name (given_attributes body) (given_tags body) st
              in (and_then r (\<lambda>url. Inr (render_queue_url url (resolve_endpoint_base env (req_headers req) (ss_endpoint st)))),
                  st')))) (\<lambda>url.
           h_ok (reply ''CreateQueue'' req (JObj [(''QueueUrl'', JStr url)])))))"

section \<open>Deletion and purging\<close>

definition delete_in_region :: "string \<Rightarrow> (sqs_state, unit) handler" where
  "delete_in_region input st =
     (case resolve_queue_url input st of
        None \<Rightarrow> (Inl queue_not_found, st)
      | Some url \<Rightarrow>
          (case map_of (ss_queues st) url of
             None \<Rightarrow> (Inl queue_not_found, st)
           | Some q \<Rightarrow>
               (Inr (), st\<lparr>ss_queues := bt_remove url (ss_queues st),
                           ss_name_to_url := bt_remove (q_name q) (ss_name_to_url st)\<rparr>)))"

definition delete_queue :: "sqs_env \<Rightarrow> aws_request \<Rightarrow> (sqs_store, aws_response) handler" where
  "delete_queue env req =
     h_bind (h_lift (required_str (parse_body env req) ''QueueUrl'')) (\<lambda>queue_url.
     h_bind (with_region (req_account_id req) (req_region req) (delete_in_region queue_url)) (\<lambda>_.
     h_ok (reply ''DeleteQueue'' req (JObj []))))"

definition purge :: "(sqs_queue, unit) handler" where
  "purge q = (Inr (), q\<lparr>q_messages := [], q_inflight := []\<rparr>)"

definition purge_queue :: "sqs_env \<Rightarrow> aws_request \<Rightarrow> (sqs_store, aws_response) handler" where
  "purge_queue env req =
     h_bind (h_lift (required_str (parse_body env req) ''QueueUrl'')) (\<lambda>queue_url.
     h_bind (with_region (req_account_id req) (req_region req) (on_queue queue_url purge)) (\<lambda>_.
     h_ok (reply ''PurgeQueue'' req (JObj []))))"

section \<open>Listing\<close>

definition listed_urls :: "string option \<Rightarrow> sqs_state \<Rightarrow> string list" where
  "listed_urls prefix st =
     sort (map q_url (filter (\<lambda>q. is_none_or prefix (starts_with (q_name q))) (map snd (ss_queues st))))"

text \<open>\<^verbatim>\<open>partition_point\<close> on the sorted list: the number of leading entries up to the marker.\<close>

definition list_page :: "string option \<Rightarrow> nat \<Rightarrow> string option \<Rightarrow> sqs_state \<Rightarrow> string list \<times> string option" where
  "list_page prefix max_results marker st =
     (let urls = listed_urls prefix st;
          start = (case marker of Some m \<Rightarrow> length (takeWhile (\<lambda>u. u \<le> m) urls) | None \<Rightarrow> 0);
          page = take max_results (drop start urls)
      in (page, if start + length page < length urls \<and> page \<noteq> [] then Some (last page) else None))"

definition max_results :: "json \<Rightarrow> nat" where
  "max_results body =
     (case opt_or (as_u64 (json_index body ''MaxResults'')) (Option.bind (as_str (json_index body ''MaxResults'')) parse_u64) of
        Some n \<Rightarrow> min (max n 1) 1000
      | None \<Rightarrow> 1000)"

definition list_queues :: "sqs_env \<Rightarrow> aws_request \<Rightarrow> (sqs_store, aws_response) handler" where
  "list_queues env req =
     (let body = parse_body env req
      in h_read (\<lambda>ms.
           (let st = read_region req ms;
                (page, more) = list_page (as_str (json_index body ''QueueNamePrefix'')) (max_results body)
                  (map_option (decode_list_queues_token env) (as_str (json_index body ''NextToken''))) st;
                base = resolve_endpoint_base env (req_headers req) (ss_endpoint st)
            in Inr (reply ''ListQueues'' req
                 (JObj ((''QueueUrls'', JArr (map (\<lambda>u. JStr (render_queue_url u base)) page)) #
                    opt_field ''NextToken'' (map_option (encode_list_queues_token env) more)))))))"

definition get_queue_url :: "sqs_env \<Rightarrow> aws_request \<Rightarrow> (sqs_store, aws_response) handler" where
  "get_queue_url env req =
     h_bind (h_lift (required_str (parse_body env req) ''QueueName'')) (\<lambda>name.
     h_read (\<lambda>ms.
       (let st = read_region req ms
        in and_then (ok_or (map_of (ss_name_to_url st) name) queue_not_found) (\<lambda>url.
           Inr (reply ''GetQueueUrl'' req
             (JObj [(''QueueUrl'', JStr (render_queue_url url (resolve_endpoint_base env (req_headers req) (ss_endpoint st))))]))))))"

definition list_dead_letter_source_queues :: "sqs_env \<Rightarrow> aws_request \<Rightarrow> (sqs_store, aws_response) handler" where
  "list_dead_letter_source_queues env req =
     h_bind (h_lift (required_str (parse_body env req) ''QueueUrl'')) (\<lambda>queue_url.
     h_read (\<lambda>ms.
       (let st = read_region req ms; base = resolve_endpoint_base env (req_headers req) (ss_endpoint st)
        in and_then (find_queue queue_url st) (\<lambda>dlq.
           Inr (reply ''ListDeadLetterSourceQueues'' req
             (JObj [(''queueUrls'', JArr (map (\<lambda>q. JStr (render_queue_url (q_url q) base))
                (filter (\<lambda>q. is_some_and (q_redrive_policy q) (\<lambda>rp. rd_target_arn rp = q_arn dlq))
                  (map snd (ss_queues st)))))]))))))"

section \<open>Attributes\<close>

definition valid_attribute_names :: "string list" where
  "valid_attribute_names =
     [''All'', ''Policy'', ''VisibilityTimeout'', ''MaximumMessageSize'', ''MessageRetentionPeriod'',
      ''ApproximateNumberOfMessages'', ''ApproximateNumberOfMessagesNotVisible'', ''CreatedTimestamp'',
      ''LastModifiedTimestamp'', ''QueueArn'', ''ApproximateNumberOfMessagesDelayed'', ''DelaySeconds'',
      ''ReceiveMessageWaitTimeSeconds'', ''RedrivePolicy'', ''FifoQueue'', ''ContentBasedDeduplication'',
      ''KmsMasterKeyId'', ''KmsDataKeyReusePeriodSeconds'', ''DeduplicationScope'', ''FifoThroughputLimit'',
      ''RedriveAllowPolicy'', ''SqsManagedSseEnabled'']"

definition visible_count :: "int \<Rightarrow> sqs_queue \<Rightarrow> nat" where
  "visible_count t q = length (filter (\<lambda>m. unwrap_or (map_option (\<lambda>v. v \<le> t) (m_visible_at m)) True) (q_messages q))"

definition expired_inflight :: "int \<Rightarrow> sqs_queue \<Rightarrow> nat" where
  "expired_inflight t q = length (filter (\<lambda>m. unwrap_or (map_option (\<lambda>v. v \<le> t) (m_visible_at m)) False) (q_inflight q))"

definition delayed_count :: "int \<Rightarrow> sqs_queue \<Rightarrow> nat" where
  "delayed_count t q = length (filter (\<lambda>m. unwrap_or (map_option (\<lambda>v. t < v) (m_visible_at m)) False) (q_messages q))"

definition reported_attributes :: "int \<Rightarrow> sqs_queue \<Rightarrow> string smap" where
  "reported_attributes t q =
     fold (\<lambda>(k, v). bt_insert k v)
       [(''QueueArn'', q_arn q),
        (''ApproximateNumberOfMessages'', show_nat (visible_count t q + expired_inflight t q)),
        (''ApproximateNumberOfMessagesNotVisible'', show_nat (length (q_inflight q) - expired_inflight t q)),
        (''ApproximateNumberOfMessagesDelayed'', show_nat (delayed_count t q))]
       (q_attributes q)"

definition attribute_result :: "int \<Rightarrow> string list \<Rightarrow> sqs_queue \<Rightarrow> service_error + json" where
  "attribute_result t names q =
     (case find (\<lambda>n. n \<notin> set valid_attribute_names) names of
        Some name \<Rightarrow> Inl (aws_error 400 ''InvalidAttributeName'' (''Unknown Attribute '' @ name @ ''.''))
      | None \<Rightarrow>
          (let all = reported_attributes t q;
               attrs = (if ''All'' \<in> set names then all else bt_retain (\<lambda>k _. k \<in> set names) all)
           in Inr (JObj (if attrs = [] then [] else [(''Attributes'', JObj (map (\<lambda>(k, v). (k, JStr v)) attrs))]))))"

definition get_queue_attributes :: "sqs_env \<Rightarrow> aws_request \<Rightarrow> (sqs_store, aws_response) handler" where
  "get_queue_attributes env req =
     (let body = parse_body env req; names = unwrap_or (str_list body ''AttributeNames'') []
      in h_bind (h_lift (required_str body ''QueueUrl'')) (\<lambda>queue_url.
         h_read (\<lambda>ms.
           and_then (find_queue queue_url (read_region req ms)) (\<lambda>q.
           if names = [] then Inr (reply ''GetQueueAttributes'' req (JObj []))
           else and_then (attribute_result (now env) names q) (\<lambda>res. Inr (reply ''GetQueueAttributes'' req res))))))"

definition clearable :: "string \<Rightarrow> bool" where
  "clearable k \<longleftrightarrow> k \<in> {''Policy'', ''RedrivePolicy'', ''RedriveAllowPolicy'', ''KmsMasterKeyId''}"

definition set_attribute :: "sqs_env \<Rightarrow> string \<times> json \<Rightarrow> sqs_queue \<Rightarrow> sqs_queue" where
  "set_attribute env e q =
     (let (k, v) = e
      in case as_str v of
           None \<Rightarrow> q
         | Some s \<Rightarrow>
             if s = [] \<and> clearable k
             then (let q1 = q\<lparr>q_attributes := bt_remove k (q_attributes q)\<rparr>
                   in if k = ''RedrivePolicy'' then q1\<lparr>q_redrive_policy := None\<rparr> else q1)
             else q\<lparr>q_attributes := bt_insert k (canonicalize_json_attr env k s) (q_attributes q)\<rparr>)"

definition switch_modes :: "(string \<times> json) list \<Rightarrow> string smap \<Rightarrow> string smap" where
  "switch_modes attrs a =
     (let field = (\<lambda>k. Option.bind (map_of attrs k) as_str);
          a1 = (if field ''SqsManagedSseEnabled'' = Some ''true''
                then (let b = bt_remove ''KmsMasterKeyId'' a
                      in if map_of attrs ''KmsDataKeyReusePeriodSeconds'' = None
                         then bt_insert ''KmsDataKeyReusePeriodSeconds'' ''300'' b else b)
                else a)
      in if is_some_and (field ''KmsMasterKeyId'') (\<lambda>k. k \<noteq> [])
         then bt_insert ''SqsManagedSseEnabled'' ''false'' a1 else a1)"

definition apply_attributes :: "sqs_env \<Rightarrow> (string \<times> json) list \<Rightarrow> sqs_queue \<Rightarrow> sqs_queue" where
  "apply_attributes env attrs q =
     (let q1 = fold (set_attribute env) attrs q;
          q2 = q1\<lparr>q_attributes := switch_modes attrs (q_attributes q1)\<rparr>;
          q3 = (case Option.bind (opt_filter (\<lambda>s. s \<noteq> []) (Option.bind (map_of attrs ''RedrivePolicy'') as_str))
                       (parse_redrive_policy env) of
                  Some rp \<Rightarrow> q2\<lparr>q_redrive_policy := Some rp\<rparr>
                | None \<Rightarrow> q2)
      in if attrs = [] then q3
         else q3\<lparr>q_attributes := bt_insert ''LastModifiedTimestamp'' (show_int (timestamp_secs (now env))) (q_attributes q3)\<rparr>)"

definition check_attributes :: "(string \<times> json) list \<Rightarrow> service_error + unit" where
  "check_attributes attrs =
     (let field = (\<lambda>k. Option.bind (map_of attrs k) as_str)
      in if is_some_and (Option.bind (field ''DelaySeconds'') parse_i64) (\<lambda>d. \<not> (0 \<le> d \<and> d \<le> 900))
         then Inl (invalid_attribute ''DelaySeconds'')
         else validate_visibility_timeout_attr (field ''VisibilityTimeout''))"

definition set_in_region :: "sqs_env \<Rightarrow> string \<Rightarrow> (string \<times> json) list option \<Rightarrow> (sqs_state, unit) handler" where
  "set_in_region env input attrs st =
     (case resolve_queue_url input st of
        None \<Rightarrow> (Inl queue_not_found, st)
      | Some url \<Rightarrow>
          (let rp = Option.bind attrs (\<lambda>a. Option.bind (opt_filter (\<lambda>s. s \<noteq> [])
                      (Option.bind (map_of a ''RedrivePolicy'') as_str)) (parse_redrive_policy env));
               is_fifo = unwrap_or (map_option q_is_fifo (map_of (ss_queues st) url)) False
           in case (case rp of Some p \<Rightarrow> validate_redrive_policy_target st p is_fifo | None \<Rightarrow> Inr ()) of
                Inl e \<Rightarrow> (Inl e, st)
              | Inr _ \<Rightarrow>
                  (case map_of (ss_queues st) url of
                     None \<Rightarrow> (Inl queue_not_found, st)
                   | Some q \<Rightarrow>
                       (case attrs of
                          None \<Rightarrow> (Inr (), st)
                        | Some a \<Rightarrow>
                            (case check_attributes a of
                               Inl e \<Rightarrow> (Inl e, st)
                             | Inr _ \<Rightarrow> (Inr (), set_queue url (apply_attributes env a q) st))))))"

definition set_queue_attributes :: "sqs_env \<Rightarrow> aws_request \<Rightarrow> (sqs_store, aws_response) handler" where
  "set_queue_attributes env req =
     (let body = parse_body env req
      in h_bind (h_lift (required_str body ''QueueUrl'')) (\<lambda>queue_url.
         h_bind (with_region (req_account_id req) (req_region req)
           (set_in_region env queue_url (as_object (json_index body ''Attributes'')))) (\<lambda>_.
         h_ok (reply ''SetQueueAttributes'' req (JObj [])))))"

section \<open>Tags\<close>

definition list_queue_tags :: "sqs_env \<Rightarrow> aws_request \<Rightarrow> (sqs_store, aws_response) handler" where
  "list_queue_tags env req =
     h_bind (h_lift (required_str (parse_body env req) ''QueueUrl'')) (\<lambda>queue_url.
     h_read (\<lambda>ms.
       and_then (find_queue queue_url (read_region req ms)) (\<lambda>q.
       Inr (reply ''ListQueueTags'' req (JObj [(''Tags'', JObj (map (\<lambda>(k, v). (k, JStr v)) (q_tags q)))])))))"

definition add_tags :: "(string \<times> json) list option \<Rightarrow> (sqs_queue, unit) handler" where
  "add_tags tags q =
     (case tags of
        None \<Rightarrow> (Inr (), q)
      | Some obj \<Rightarrow>
          (let merged = insert_strings obj (q_tags q)
           in if 50 < length merged
              then (Inl (aws_error 400 ''InvalidParameterValue'' (''Too many tags added for queue '' @ q_name q @ ''.'')), q)
              else (Inr (), q\<lparr>q_tags := merged\<rparr>)))"

definition tag_queue :: "sqs_env \<Rightarrow> aws_request \<Rightarrow> (sqs_store, aws_response) handler" where
  "tag_queue env req =
     (let body = parse_body env req
      in h_bind (h_lift (required_str body ''QueueUrl'')) (\<lambda>queue_url.
         h_bind (with_region (req_account_id req) (req_region req)
           (on_queue queue_url (add_tags (as_object (json_index body ''Tags''))))) (\<lambda>_.
         h_ok (reply ''TagQueue'' req (JObj [])))))"

definition remove_tags :: "string list \<Rightarrow> (sqs_queue, unit) handler" where
  "remove_tags keys q = (Inr (), q\<lparr>q_tags := fold bt_remove keys (q_tags q)\<rparr>)"

definition untag_queue :: "sqs_env \<Rightarrow> aws_request \<Rightarrow> (sqs_store, aws_response) handler" where
  "untag_queue env req =
     (let body = parse_body env req
      in h_bind (h_lift (required_str body ''QueueUrl'')) (\<lambda>queue_url.
         h_bind (with_region (req_account_id req) (req_region req)
           (on_queue queue_url (remove_tags (unwrap_or (str_list body ''TagKeys'') [])))) (\<lambda>_.
         h_ok (reply ''UntagQueue'' req (JObj [])))))"

section \<open>Pages of a listing\<close>

text \<open>
  A client that follows the tokens: one page per state, since other requests may run between two
  fetches. The listing is over when a page comes without a token.
\<close>

fun list_run :: "string option \<Rightarrow> nat \<Rightarrow> string option \<Rightarrow> sqs_state list \<Rightarrow> string list \<times> bool" where
  "list_run prefix n marker [] = ([], False)"
| "list_run prefix n marker (st # sts) =
     (case list_page prefix n marker st of
        (page, None) \<Rightarrow> (page, True)
      | (page, Some m) \<Rightarrow> (let (rest, over) = list_run prefix n (Some m) sts in (page @ rest, over)))"

definition after :: "string option \<Rightarrow> string \<Rightarrow> bool" where
  "after marker u \<longleftrightarrow> is_none_or marker (\<lambda>m. m < u)"

lemma after_simps [simp]: "after None = (\<lambda>_. True)" "after (Some m) = (\<lambda>u. m < u)"
  by (simp_all add: after_def fun_eq_iff)

lemma after_trans: "after marker m \<Longrightarrow> m < u \<Longrightarrow> after marker u"
  by (cases marker) auto

lemma dropWhile_le_strict:
  fixes xs :: "'a::linorder list"
  shows "sorted_wrt (<) xs \<Longrightarrow> dropWhile (\<lambda>u. u \<le> m) xs = filter (\<lambda>u. m < u) xs"
proof (induction xs)
  case (Cons x xs)
  show ?case
  proof (cases "x \<le> m")
    case False
    then have "filter (\<lambda>u. m < u) xs = xs" using Cons.prems by (auto intro!: filter_True)
    with False show ?thesis by simp
  qed (use Cons in simp)
qed simp

lemma list_page_eq:
  assumes "sorted_wrt (<) (listed_urls prefix st)"
  shows "list_page prefix n marker st =
    (let rest = filter (after marker) (listed_urls prefix st); page = take n rest
     in (page, if n < length rest \<and> page \<noteq> [] then Some (last page) else None))"
proof -
  let ?urls = "listed_urls prefix st"
  let ?start = "case marker of Some m \<Rightarrow> length (takeWhile (\<lambda>u. u \<le> m) ?urls) | None \<Rightarrow> 0"
  have d: "drop ?start ?urls = filter (after marker) ?urls"
    by (cases marker) (simp_all add: dropWhile_eq_drop [symmetric] dropWhile_le_strict [OF assms])
  have "length ?urls = ?start + length (filter (after marker) ?urls)"
    unfolding d [symmetric] by (cases marker) (simp_all add: length_takeWhile_le)
  then have "?start + length (take n (drop ?start ?urls)) < length ?urls \<longleftrightarrow> n < length (filter (after marker) ?urls)"
    unfolding d by auto
  then show ?thesis unfolding list_page_def Let_def d by (simp only:)
qed

lemma list_page_more:
  assumes "sorted_wrt (<) (listed_urls prefix st)" "list_page prefix n marker st = (page, Some m)"
  shows "page \<noteq> []" "m \<in> set page" "sorted_wrt (<) page" "\<And>u. u \<in> set page \<Longrightarrow> after marker u \<and> u \<le> m"
    and "\<And>u. u \<in> set (listed_urls prefix st) \<Longrightarrow> after marker u \<Longrightarrow> u \<le> m \<Longrightarrow> u \<in> set page"
proof -
  let ?rest = "filter (after marker) (listed_urls prefix st)"
  have p: "page = take n ?rest" "page \<noteq> []" "m = last page"
    using assms(2) unfolding list_page_eq [OF assms(1)] by (auto simp: Let_def split: if_splits)
  have s: "sorted_wrt (<) (take n ?rest @ drop n ?rest)"
    using assms(1) by (simp add: sorted_wrt_filter)
  show "page \<noteq> []" "m \<in> set page" using p by auto
  show sp: "sorted_wrt (<) page" using s unfolding sorted_wrt_append p(1) by blast
  have "page = butlast page @ [m]" using p(2,3) by simp
  then have "sorted_wrt (<) (butlast page @ [m])" "set page = set (butlast page) \<union> {m}"
    using sp by (metis, metis Un_insert_right list.set(1) list.simps(15) set_append sup_bot.right_neutral)
  then have le: "u \<in> set page \<Longrightarrow> u \<le> m" for u by (auto simp: sorted_wrt_append)
  show "u \<in> set page \<Longrightarrow> after marker u \<and> u \<le> m" for u using le p(1) by (auto dest: in_set_takeD)
  have "m < u" if "u \<in> set (drop n ?rest)" for u
    using s that \<open>m \<in> set page\<close> unfolding sorted_wrt_append p(1) by blast
  moreover have "set ?rest = set page \<union> set (drop n ?rest)" by (metis append_take_drop_id p(1) set_append)
  moreover have "u \<in> set ?rest" if "u \<in> set (listed_urls prefix st)" "after marker u" for u using that by simp
  ultimately show "u \<in> set (listed_urls prefix st) \<Longrightarrow> after marker u \<Longrightarrow> u \<le> m \<Longrightarrow> u \<in> set page" for u
    using leD by (metis Un_iff)
qed

lemma list_page_last:
  assumes "sorted_wrt (<) (listed_urls prefix st)" "list_page prefix n marker st = (page, None)" "0 < n"
  shows "page = filter (after marker) (listed_urls prefix st)"
  using assms(2,3) unfolding list_page_eq [OF assms(1)] by (auto simp: Let_def split: if_splits)

lemma list_run_props:
  assumes "0 < n" "\<And>st. st \<in> set sts \<Longrightarrow> sorted_wrt (<) (listed_urls prefix st)"
    and "list_run prefix n marker sts = (urls, over)"
  shows "sorted_wrt (<) urls \<and> (\<forall>u \<in> set urls. after marker u) \<and>
    (over \<longrightarrow> (\<forall>u. after marker u \<longrightarrow> (\<forall>st \<in> set sts. u \<in> set (listed_urls prefix st)) \<longrightarrow> u \<in> set urls))"
  using assms
proof (induction prefix n marker sts arbitrary: urls over rule: list_run.induct)
  case (2 prefix n marker st sts)
  have st: "sorted_wrt (<) (listed_urls prefix st)" using 2(3) by simp
  obtain page more where page: "list_page prefix n marker st = (page, more)" by fastforce
  show ?case
  proof (cases more)
    case None
    have "page = filter (after marker) (listed_urls prefix st)"
      using list_page_last [OF st] page None 2(2) by blast
    moreover have "urls = page" using 2(4) page None by simp
    ultimately have "urls = filter (after marker) (listed_urls prefix st)" by simp
    then show ?thesis using st by (auto simp: sorted_wrt_filter)
  next
    case (Some m)
    obtain rest ov where run: "list_run prefix n (Some m) sts = (rest, ov)" by fastforce
    have ih: "sorted_wrt (<) rest" "\<forall>u \<in> set rest. m < u"
      "ov \<Longrightarrow> m < u \<Longrightarrow> \<forall>st \<in> set sts. u \<in> set (listed_urls prefix st) \<Longrightarrow> u \<in> set rest" for u
      using 2(1) [OF page [symmetric] Some 2(2) _ run] 2(3) by simp_all
    note more = list_page_more [OF st page [unfolded Some]]
    have res: "urls = page @ rest" "over = ov" using 2(4) page Some run by auto
    have "after marker u" if "m < u" for u
      using after_trans that more(2,4) by blast
    with more(3,4) ih(1,2) have "sorted_wrt (<) urls \<and> (\<forall>u \<in> set urls. after marker u)"
      unfolding res(1) sorted_wrt_append by force
    moreover have "u \<in> set urls" if "over" "after marker u" "\<forall>st \<in> set (st # sts). u \<in> set (listed_urls prefix st)" for u
      using that more(5) [of u] ih(3) [of u] res by (cases "u \<le> m") auto
    ultimately show ?thesis by blast
  qed
qed simp

text \<open>With an unchanged directory, as many fetches as there are queues, and one more, end the listing.\<close>

lemma list_run_ends:
  assumes "sorted_wrt (<) (listed_urls prefix st)" "0 < n"
  shows "length (filter (after marker) (listed_urls prefix st)) < k \<Longrightarrow>
    snd (list_run prefix n marker (replicate k st))"
proof (induction k arbitrary: marker)
  case (Suc k)
  obtain page more where page: "list_page prefix n marker st = (page, more)" by fastforce
  show ?case
  proof (cases more)
    case (Some m)
    note more = list_page_more [OF assms(1) page [unfolded Some]]
    let ?urls = "listed_urls prefix st"
    have "filter (\<lambda>u. m < u) ?urls = filter (\<lambda>u. m < u) (filter (after marker) ?urls)"
      unfolding filter_filter using more(2,4) after_trans by (intro filter_cong refl) blast
    moreover have "m \<in> set (filter (after marker) ?urls)"
    proof -
      have "page = take n (filter (after marker) ?urls)"
        using page unfolding list_page_eq [OF assms(1)] by (simp add: Let_def)
      then show ?thesis using more(2) by (metis in_set_takeD)
    qed
    ultimately have "length (filter (\<lambda>u. m < u) ?urls) < length (filter (after marker) ?urls)"
      by (simp only: length_filter_less [of m _ "\<lambda>u. m < u"] less_irrefl not_False_eq_True)
    then have "snd (list_run prefix n (Some m) (replicate k st))" using Suc by simp
    then show ?thesis using page Some by (simp add: case_prod_beta Let_def)
  qed (use page in simp)
qed simp

section \<open>Message counts\<close>

lemma counts_add_up:
  "visible_count t q + expired_inflight t q + (length (q_inflight q) - expired_inflight t q) + delayed_count t q =
   length (q_messages q) + length (q_inflight q)"
proof -
  have "visible_count t q + delayed_count t q = length (q_messages q)"
  proof -
    have eq: "(\<lambda>m. unwrap_or (map_option (\<lambda>v. t < v) (m_visible_at m)) False) =
        (\<lambda>m. \<not> unwrap_or (map_option (\<lambda>v. v \<le> t) (m_visible_at m)) True)"
      by (rule ext) (simp add: unwrap_or_def not_le split: option.split)
    show ?thesis unfolding visible_count_def delayed_count_def eq by (rule sum_length_filter_compl)
  qed
  moreover have "expired_inflight t q \<le> length (q_inflight q)" unfolding expired_inflight_def by (rule length_filter_le)
  ultimately show ?thesis by simp
qed

section \<open>Encryption modes\<close>

text \<open>At most one of a KMS key and the managed mode is in force.\<close>

definition modes_exclusive :: "string smap \<Rightarrow> bool" where
  "modes_exclusive attrs \<longleftrightarrow>
     \<not> (is_some_and (map_of attrs ''KmsMasterKeyId'') (\<lambda>k. k \<noteq> []) \<and> map_of attrs ''SqsManagedSseEnabled'' = Some ''true'')"

lemma modes_exclusive_cong:
  "map_of a ''KmsMasterKeyId'' = map_of b ''KmsMasterKeyId'' \<Longrightarrow>
   map_of a ''SqsManagedSseEnabled'' = map_of b ''SqsManagedSseEnabled'' \<Longrightarrow> modes_exclusive a = modes_exclusive b"
  by (simp add: modes_exclusive_def)

lemma exclude_modes_exclusive: "modes_exclusive (exclude_modes attrs)"
  by (auto simp: modes_exclusive_def exclude_modes_def Let_def map_of_bt_insert map_of_bt_remove is_some_and_def
      split: option.splits)

lemma set_attributes_map:
  assumes "distinct (map fst attrs)"
  shows "map_of (q_attributes (fold (set_attribute env) attrs q)) k =
    (case Option.bind (map_of attrs k) as_str of
       None \<Rightarrow> map_of (q_attributes q) k
     | Some s \<Rightarrow> if s = [] \<and> clearable k then None else Some (canonicalize_json_attr env k s))"
  using assms
proof (induction attrs arbitrary: q)
  case (Cons e attrs)
  obtain k' v where e: "e = (k', v)" by fastforce
  have one: "map_of (q_attributes (set_attribute env (k', v) q)) j =
    (if j = k' then (case as_str v of None \<Rightarrow> map_of (q_attributes q) j
       | Some s \<Rightarrow> if s = [] \<and> clearable j then None else Some (canonicalize_json_attr env j s))
     else map_of (q_attributes q) j)" for j
    by (auto simp: set_attribute_def Let_def map_of_bt_insert map_of_bt_remove split: option.splits)
  have "map_of attrs k' = None" using Cons.prems by (simp add: e map_of_eq_None_iff)
  then show ?case using Cons.IH [of "set_attribute env (k', v) q"] Cons.prems
    by (cases "k = k'") (simp_all add: e one split: option.split)
qed simp

lemma apply_attributes_exclusive:
  assumes "modes_exclusive (q_attributes q)" "distinct (map fst attrs)"
  shows "modes_exclusive (q_attributes (apply_attributes env attrs q))"
proof -
  let ?a = "q_attributes (fold (set_attribute env) attrs q)"
  have "modes_exclusive (switch_modes attrs ?a)"
    using assms(1) unfolding modes_exclusive_def switch_modes_def Let_def
    by (auto simp: map_of_bt_insert map_of_bt_remove set_attributes_map [OF assms(2)] canonicalize_json_attr_def
        json_valued_attrs_def clearable_def split: option.splits if_splits)
  then show ?thesis
    by (auto simp: apply_attributes_def Let_def modes_exclusive_def map_of_bt_insert split: option.splits)
qed

end
