(* ===== verification/Sqs_Directory.thy ===== *)
theory Sqs_Directory
  imports Sqs_Queues
begin

text \<open>
  What requests on messages leave alone: the configuration of a region, that is, its queues' names,
  URLs, ARNs and attributes. A property of regions that depends on the configuration only, and that a
  new region has, is a \<open>region_invariant\<close>; the locale shows once that every message handler keeps it.
  It is interpreted on \<open>region_wf\<close>, the consistency of the name directory, and on \<open>modes_exclusive\<close> of
  all queues.
\<close>

section \<open>Configuration\<close>

definition queue_config :: "sqs_queue \<Rightarrow> string \<times> string \<times> string \<times> bool \<times> string smap" where
  "queue_config q = (q_name q, q_url q, q_arn q, q_is_fifo q, q_attributes q)"

definition region_config ::
  "sqs_state \<Rightarrow> (string \<times> string \<times> string \<times> string smap) \<times> (string \<times> string \<times> string \<times> string \<times> bool \<times> string smap) list" where
  "region_config st =
     ((ss_account_id st, ss_region st, ss_endpoint st, ss_name_to_url st),
      map (\<lambda>e. (fst e, queue_config (snd e))) (ss_queues st))"

definition keeps_config :: "(sqs_queue, 'a) handler \<Rightarrow> bool" where
  "keeps_config f \<longleftrightarrow> (\<forall>q. queue_config (snd (f q)) = queue_config q)"

text \<open>A property of every region of the store; each region is filed under its own name.\<close>

definition everywhere :: "(sqs_state \<Rightarrow> bool) \<Rightarrow> sqs_store \<Rightarrow> bool" where
  "everywhere rinv ms \<longleftrightarrow> (\<forall>a r st. regional ms a r = Some st \<longrightarrow> ss_region st = r \<and> rinv st)"

definition keeps :: "(sqs_state \<Rightarrow> bool) \<Rightarrow> (sqs_store, 'a) handler \<Rightarrow> bool" where
  "keeps rinv h \<longleftrightarrow> (\<forall>ms. everywhere rinv ms \<longrightarrow> everywhere rinv (snd (h ms)))"

definition region_keeps :: "string \<Rightarrow> (sqs_state \<Rightarrow> bool) \<Rightarrow> (sqs_state, 'a) handler \<Rightarrow> bool" where
  "region_keeps rgn rinv f \<longleftrightarrow>
     (\<forall>st. ss_region st = rgn \<longrightarrow> rinv st \<longrightarrow> ss_region (snd (f st)) = rgn \<and> rinv (snd (f st)))"

section \<open>Consistency of the directory\<close>

definition queue_url_of :: "sqs_state \<Rightarrow> string \<Rightarrow> string" where
  "queue_url_of st name = ss_endpoint st @ ''/'' @ ss_account_id st @ ''/'' @ name"

definition queue_arn_of :: "sqs_state \<Rightarrow> string \<Rightarrow> string" where
  "queue_arn_of st name =
     ''arn:'' @ partition_for (ss_region st) @ '':sqs:'' @ ss_region st @ '':'' @ ss_account_id st @ '':'' @ name"

text \<open>
  The two maps of a region mirror each other, and a queue's URL, ARN and kind follow from its name.
\<close>

definition queue_wf :: "sqs_state \<Rightarrow> string \<Rightarrow> sqs_queue \<Rightarrow> bool" where
  "queue_wf st url q \<longleftrightarrow>
     q_url q = url \<and> url = queue_url_of st (q_name q) \<and> q_arn q = queue_arn_of st (q_name q) \<and>
     q_is_fifo q = ends_with (q_name q) ''.fifo'' \<and> map_of (ss_name_to_url st) (q_name q) = Some url"

definition region_wf :: "sqs_state \<Rightarrow> bool" where
  "region_wf st \<longleftrightarrow>
     bt_wf (ss_queues st) \<and> bt_wf (ss_name_to_url st) \<and>
     list_all (\<lambda>(url, q). queue_wf st url q) (ss_queues st) \<and>
     list_all (\<lambda>(name, url). is_some_and (map_of (ss_queues st) url) (\<lambda>q. q_name q = name)) (ss_name_to_url st)"

definition region_modes :: "sqs_state \<Rightarrow> bool" where
  "region_modes st \<longleftrightarrow>
     bt_wf (ss_queues st) \<and> list_all (\<lambda>(url, q). modes_exclusive (q_attributes q)) (ss_queues st)"

section \<open>Handlers that keep the configuration of a queue\<close>

lemma queue_config_updates [simp]:
  "queue_config (q\<lparr>q_messages := a\<rparr>) = queue_config q" "queue_config (q\<lparr>q_inflight := a\<rparr>) = queue_config q"
  "queue_config (q\<lparr>q_dedup_cache := d\<rparr>) = queue_config q" "queue_config (q\<lparr>q_next_sequence_number := n\<rparr>) = queue_config q"
  "queue_config (q\<lparr>q_receipt_handle_map := h\<rparr>) = queue_config q" "queue_config (q\<lparr>q_tags := t\<rparr>) = queue_config q"
  "queue_config (q\<lparr>q_receive_attempt_cache := c\<rparr>) = queue_config q"
  "queue_config (q\<lparr>q_permission_labels := l\<rparr>) = queue_config q"
  by (simp_all add: queue_config_def)

lemma queue_config_send [simp]:
  "queue_config (snd (dedup_pass t b k q)) = queue_config q"
  "queue_config (snd (take_sequence b q)) = queue_config q"
  "queue_config (commit_message env b k m q) = queue_config q"
  by (auto simp: dedup_pass_def prune_dedup_def take_sequence_def commit_message_def Let_def
      split: bool.split option.split)

lemma send_keeps_config: "keeps_config (send_to_queue env acct p)"
  unfolding keeps_config_def
proof
  fix q
  show "queue_config (snd (send_to_queue env acct p q)) = queue_config q"
    using queue_config_send(1) [of "now env" "q_is_fifo q" "dedup_key env q p" q]
    by (cases "dedup_pass (now env) (q_is_fifo q) (dedup_key env q p) q")
      (auto simp: send_to_queue_def Let_def prod.case_eq_if split: sum.split option.split)
qed

lemma entry_keeps_config: "keeps_config (process_batch_send_entry env k e cfg ov)"
  unfolding keeps_config_def
proof
  fix q
  show "queue_config (snd (process_batch_send_entry env k e cfg ov q)) = queue_config q"
    unfolding process_batch_send_entry_def Let_def
    by (auto simp: prod.case_eq_if split: option.split)
qed

lemma h_bind_keeps_config:
  "keeps_config m \<Longrightarrow> (\<And>x. keeps_config (f x)) \<Longrightarrow> keeps_config (h_bind m f)"
  unfolding keeps_config_def h_bind_def by (auto split: prod.split sum.split) (metis snd_conv)+

lemma simple_keeps_config: "keeps_config (h_ok x)" "keeps_config (h_lift y)"
  by (simp_all add: keeps_config_def)

lemma send_entries_keep_config: "keeps_config (send_entries env cfg k es)"
proof (induction es arbitrary: k)
  case (Cons e es)
  then show ?case
    by (cases e) (simp add: h_bind_keeps_config entry_keeps_config simple_keeps_config prod.case_eq_if)
qed (simp add: simple_keeps_config)

lemma send_batch_keeps_config: "keeps_config (send_batch_to_queue env acct entries)"
proof -
  have "keeps_config (h_bind (h_lift r) (\<lambda>ovs. send_entries env cfg 0 (zip entries ovs)))" for r cfg
    by (simp add: h_bind_keeps_config simple_keeps_config send_entries_keep_config)
  then show ?thesis unfolding keeps_config_def send_batch_to_queue_def Let_def by blast
qed

lemma drop_message_config [simp]: "queue_config (drop_message mid q) = queue_config q"
  by (simp add: drop_message_def)

lemma change_in_queue_config: "change_in_queue env handle vt q = Some q' \<Longrightarrow> queue_config q' = queue_config q"
  by (auto simp: change_in_queue_def bind_eq_Some_conv split: option.splits)

lemma run_entries_config:
  assumes "\<And>e q. queue_config (snd (step e q)) = queue_config q"
  shows "queue_config (snd (run_entries step es q)) = queue_config q"
  using assms by (induction es arbitrary: q) (auto simp: prod.case_eq_if Let_def)

lemma receipt_keeps_config:
  "keeps_config (delete_from_queue handle)"
  "keeps_config (\<lambda>q. case change_in_queue env handle vt q of Some q' \<Rightarrow> (Inr (), q') | None \<Rightarrow> (Inl e, q))"
  "keeps_config (\<lambda>q. case run_entries delete_entry es q of (r, q') \<Rightarrow> (Inr r, q'))"
  "keeps_config (\<lambda>q. case run_entries (change_entry env) es q of (r, q') \<Rightarrow> (Inr r, q'))"
proof -
  have "queue_config (snd (delete_entry e q)) = queue_config q" for e q
    by (auto simp: delete_entry_def split: option.split)
  then show "keeps_config (\<lambda>q. case run_entries delete_entry es q of (r, q') \<Rightarrow> (Inr r, q'))"
    by (simp add: keeps_config_def prod.case_eq_if Let_def run_entries_config)
  have "queue_config (snd (change_entry env e q)) = queue_config q" for e q
    using change_in_queue_config by (fastforce simp: change_entry_def split: option.split)
  then show "keeps_config (\<lambda>q. case run_entries (change_entry env) es q of (r, q') \<Rightarrow> (Inr r, q'))"
    by (simp add: keeps_config_def prod.case_eq_if Let_def run_entries_config)
qed (auto simp: keeps_config_def delete_from_queue_def change_in_queue_config split: option.split)

lemma upkeep_keeps_config:
  "keeps_config purge" "keeps_config (add_tags tags)" "keeps_config (remove_tags keys)"
  by (auto simp: keeps_config_def purge_def add_tags_def remove_tags_def Let_def split: option.split)

lemmas keeps_config_intros =
  send_keeps_config send_batch_keeps_config receipt_keeps_config upkeep_keeps_config

section \<open>Operations that keep the configuration of a region\<close>

lemma region_config_modify:
  assumes "\<And>q. map_of (ss_queues st) url = Some q \<Longrightarrow> queue_config (f q) = queue_config q"
    and "distinct (map fst (ss_queues st))"
  shows "region_config (st\<lparr>ss_queues := bt_modify url f (ss_queues st)\<rparr>) = region_config st"
proof -
  have "queue_config (f q) = queue_config q" if "(url, q) \<in> set (ss_queues st)" for q
    using assms that by (simp add: map_of_is_SomeI)
  then show ?thesis by (auto simp: region_config_def bt_modify_def prod.case_eq_if)
qed

lemma region_config_set_queue:
  assumes "map_of (ss_queues st) url = Some q" "queue_config q' = queue_config q" "distinct (map fst (ss_queues st))"
  shows "region_config (set_queue url q' st) = region_config st"
  unfolding set_queue_def using assms by (intro region_config_modify) auto

lemma push_by_arn_config:
  assumes "push_by_arn a m qs = Some qs'"
  shows "map (\<lambda>e. (fst e, queue_config (snd e))) qs' = map (\<lambda>e. (fst e, queue_config (snd e))) qs"
  using assms by (induction a m qs arbitrary: qs' rule: push_by_arn.induct) (auto split: if_splits)

lemma redrive_config: "region_config (redrive a e st) = region_config st"
  using push_by_arn_config
  by (auto simp: redrive_def region_config_def Let_def split: prod.split option.split)

lemma redrive_all_config: "region_config (fold (redrive a) es st) = region_config st"
  by (induction es arbitrary: st) (simp_all add: redrive_config)

lemma region_config_keys:
  "region_config st' = region_config st \<Longrightarrow> map fst (ss_queues st') = map fst (ss_queues st)"
  by (drule arg_cong [where f = "\<lambda>c. map fst (snd c)"]) (simp add: region_config_def comp_def)

lemma config_sels:
  "region_config st' = region_config st \<Longrightarrow> ss_region st' = ss_region st"
  by (simp add: region_config_def)

lemma queue_config_receive [simp]:
  "queue_config (refreshed t q) = queue_config q"
  "queue_config (snd (snd (collect_batch env n vt q))) = queue_config q"
  "queue_config (prune_attempts t q) = queue_config q"
  "queue_config (restore_batch ms q) = queue_config q"
  "queue_config (record_attempt a ms x q) = queue_config q"
proof -
  show r: "queue_config (refreshed t q) = queue_config q" for t
    by (simp add: refreshed_def expire_retention_def return_expired_def Let_def)
  show "queue_config (snd (snd (collect_batch env n vt q))) = queue_config q"
    by (simp add: collect_batch_def Let_def prod.case_eq_if r flip: refreshed_def)
qed (simp_all add: prune_attempts_def restore_batch_def record_attempt_def split: option.split)

lemma try_receive_config:
  assumes "distinct (map fst (ss_queues st))"
  shows "region_config (snd (try_receive_messages env acct url n vt attempt st)) = region_config st"
proof (cases "resolve_queue_url url st")
  case (Some u)
  show ?thesis
  proof (cases "map_of (ss_queues st) u")
    case None
    then show ?thesis using Some by (simp add: try_receive_messages_def)
  next
    case (Some q)
    let ?q0 = "if q_is_fifo q then prune_attempts (now env) q else q"
    have set: "region_config (set_queue u q' st) = region_config st" if "queue_config q' = queue_config q" for q'
      using region_config_set_queue Some that assms by blast
    have rec: "region_config (st'\<lparr>ss_queues := bt_modify u (record_attempt a ms x) (ss_queues st')\<rparr>) = region_config st"
      if "region_config st' = region_config st" for st' a ms x
      using that assms region_config_keys [OF that] by (subst region_config_modify) simp_all
    show ?thesis
      unfolding try_receive_messages_def Let_def
      using \<open>resolve_queue_url url st = Some u\<close> Some
      by (auto simp: prod.case_eq_if set rec redrive_all_config split: sum.split)
  qed
qed (simp add: try_receive_messages_def)

text \<open>What every attempt of a long poll keeps, and what runs in between keeps, the poll keeps.\<close>

lemma poll_loop_invariant:
  assumes "poll_loop try_once clock deadline interfere i ms = Some r" "p ms"
    and "\<And>i ms. p ms \<Longrightarrow> p (snd (try_once i ms))" "\<And>i ms. p ms \<Longrightarrow> p (interfere i ms)"
  shows "p (snd r)"
proof -
  have "(\<forall>i ms. p ms \<longrightarrow> p (snd (try_once i ms))) \<longrightarrow> (\<forall>i ms. p ms \<longrightarrow> p (interfere i ms)) \<longrightarrow> p ms \<longrightarrow> p (snd r)"
  proof (rule poll_loop.raw_induct [where P = "\<lambda>try_once _ _ interfere i ms r. (\<forall>i ms. p ms \<longrightarrow> p (snd (try_once i ms))) \<longrightarrow>
      (\<forall>i ms. p ms \<longrightarrow> p (interfere i ms)) \<longrightarrow> p ms \<longrightarrow> p (snd r)", OF _ assms(1)], intro impI)
    fix poll try_once clock deadline interfere i ms r
    assume IH: "\<And>try_once clock deadline interfere i ms r. poll try_once clock deadline interfere i ms = Some r \<Longrightarrow>
        (\<forall>i ms. p ms \<longrightarrow> p (snd (try_once i ms))) \<longrightarrow> (\<forall>i ms. p ms \<longrightarrow> p (interfere i ms)) \<longrightarrow> p ms \<longrightarrow> p (snd r)"
      and run: "(case try_once i ms of (Inl e, ms') \<Rightarrow> Some (Inl e, ms')
        | (Inr result, ms') \<Rightarrow>
            if result \<noteq> [] \<or> deadline = None \<or> the deadline \<le> clock i then Some (Inr result, ms')
            else poll try_once clock deadline interfere (i + 1) (interfere i ms')) = Some r"
      and once: "\<forall>i ms. p ms \<longrightarrow> p (snd (try_once i ms))" and interfere: "\<forall>i ms. p ms \<longrightarrow> p (interfere i ms)"
      and ms: "p ms"
    obtain o' ms' where t: "try_once i ms = (o', ms')" by fastforce
    have kept: "p ms'" using once ms t by (metis snd_conv)
    show "p (snd r)"
    proof (cases "r = (o', ms')")
      case False
      then have "poll try_once clock deadline interfere (i + 1) (interfere i ms') = Some r"
        using run unfolding t by (cases o') (simp_all split: if_splits)
      from IH [OF this] show ?thesis using once interfere kept by simp
    qed (simp add: kept)
  qed
  then show ?thesis using assms by blast
qed

section \<open>Invariants of regions\<close>

lemma fresh_sqs_region: "fresh_region sqs_ops acct rgn ms = sqs_new acct rgn (ms_endpoint ms)"
  by (simp add: fresh_region_def sqs_ops_def Let_def split: option.split)

text \<open>
  The laws an invariant promises: a new region has it, it depends on the configuration only, and it
  makes the queues' URLs distinct.
\<close>

locale region_invariant =
  fixes rinv :: "sqs_state \<Rightarrow> bool"
  assumes rinv_new: "rinv (sqs_new acct rgn endpoint)"
    and rinv_config: "region_config st' = region_config st \<Longrightarrow> rinv st \<Longrightarrow> rinv st'"
    and rinv_distinct: "rinv st \<Longrightarrow> distinct (map fst (ss_queues st))"
begin

lemma keeps_steps: "keeps rinv (h_ok x)" "keeps rinv (h_err e)" "keeps rinv (h_lift y)" "keeps rinv (h_read f)"
  by (simp_all add: keeps_def h_read_def)

lemma keeps_bind: "keeps rinv m \<Longrightarrow> (\<And>x. keeps rinv (f x)) \<Longrightarrow> keeps rinv (h_bind m f)"
  unfolding keeps_def h_bind_def by (auto split: prod.split sum.split dest: arg_cong [where f = snd])

lemma keeps_if:
  "(b \<Longrightarrow> keeps rinv h) \<Longrightarrow> (\<not> b \<Longrightarrow> keeps rinv k) \<Longrightarrow> keeps rinv (if b then h else k)"
  by simp

lemma keeps_with_region:
  assumes "region_keeps rgn rinv f"
  shows "keeps rinv (with_region acct rgn f)"
  unfolding keeps_def everywhere_def
proof (intro allI impI)
  fix ms a r st
  assume ms: "\<forall>a r st. regional ms a r = Some st \<longrightarrow> ss_region st = r \<and> rinv st"
    and st: "regional (snd (with_region acct rgn f ms)) a r = Some st"
  let ?st = "unwrap_or (regional ms acct rgn) (fresh_region sqs_ops acct rgn ms)"
  have "ss_region ?st = rgn \<and> rinv ?st"
    using ms rinv_new by (cases "regional ms acct rgn") (simp_all add: fresh_sqs_region sqs_new_def)
  then have "ss_region (snd (f ?st)) = rgn \<and> rinv (snd (f ?st))"
    using assms by (simp add: region_keeps_def)
  then show "ss_region st = r \<and> rinv st"
    using st ms by (auto simp: with_region_get split: if_splits)
qed

lemma region_keeps_config:
  assumes "\<And>st. distinct (map fst (ss_queues st)) \<Longrightarrow> region_config (snd (f st)) = region_config st"
  shows "region_keeps rgn rinv f"
  unfolding region_keeps_def using assms rinv_config rinv_distinct config_sels by metis

lemma region_keeps_read: "region_keeps rgn rinv (\<lambda>st. (g st, st))"
  by (simp add: region_keeps_def)

lemma region_keeps_on_queue: "keeps_config f \<Longrightarrow> region_keeps rgn rinv (on_queue input f)"
  by (rule region_keeps_config)
    (auto simp: on_queue_def keeps_config_def prod.case_eq_if region_config_set_queue split: option.split)

lemma region_keeps_receive: "region_keeps rgn rinv (try_receive_messages env acct url n vt attempt)"
  by (rule region_keeps_config) (rule try_receive_config)

lemmas keeps_intros =
  keeps_steps keeps_bind keeps_if keeps_with_region region_keeps_read region_keeps_on_queue keeps_config_intros

lemma message_handlers_keep:
  "keeps rinv (send_message env req)" "keeps rinv (send_message_batch env req)"
  "keeps rinv (delete_message env req)" "keeps rinv (delete_message_batch env req)"
  "keeps rinv (change_message_visibility env req)" "keeps rinv (change_message_visibility_batch env req)"
  "keeps rinv (purge_queue env req)" "keeps rinv (tag_queue env req)" "keeps rinv (untag_queue env req)"
  unfolding send_message_def send_message_batch_def delete_message_def delete_message_batch_def entry_batch_def
    change_message_visibility_def change_message_visibility_batch_def purge_queue_def tag_queue_def untag_queue_def Let_def
  by (intro keeps_intros)+

lemma read_handlers_keep:
  "keeps rinv (list_queues env req)" "keeps rinv (get_queue_url env req)" "keeps rinv (get_queue_attributes env req)"
  "keeps rinv (list_queue_tags env req)" "keeps rinv (list_dead_letter_source_queues env req)"
  unfolding list_queues_def get_queue_url_def get_queue_attributes_def list_queue_tags_def
    list_dead_letter_source_queues_def Let_def
  by (intro keeps_intros)+

lemma poll_loop_keeps:
  assumes "poll_loop try_once clock deadline interfere i ms = Some r" "everywhere rinv ms"
    and "\<And>i. keeps rinv (try_once i)" "\<And>i ms. everywhere rinv ms \<Longrightarrow> everywhere rinv (interfere i ms)"
  shows "everywhere rinv (snd r)"
  using poll_loop_invariant [OF assms(1), where p = "everywhere rinv"] assms(2-) by (simp add: keeps_def)

end

section \<open>The directory as an invariant\<close>

lemma region_wf_iff:
  "region_wf st \<longleftrightarrow>
     bt_wf (ss_queues st) \<and> bt_wf (ss_name_to_url st) \<and>
     (\<forall>url q. map_of (ss_queues st) url = Some q \<longrightarrow> queue_wf st url q) \<and>
     (\<forall>name url. map_of (ss_name_to_url st) name = Some url \<longrightarrow>
        (\<exists>q. map_of (ss_queues st) url = Some q \<and> q_name q = name))"
proof -
  have all: "list_all (\<lambda>(k, v). p k v) m \<longleftrightarrow> (\<forall>k v. map_of m k = Some v \<longrightarrow> p k v)"
    if "bt_wf m" for m :: "'v smap" and p
    using map_of_is_SomeI [OF bt_wf_distinct [OF that]] by (auto simp: list_all_iff dest: map_of_SomeD)
  have some: "is_some_and x p \<longleftrightarrow> (\<exists>q. x = Some q \<and> p q)" for x :: "sqs_queue option" and p
    by (cases x) simp_all
  show ?thesis
  proof (cases "bt_wf (ss_queues st) \<and> bt_wf (ss_name_to_url st)")
    case True
    then show ?thesis by (simp add: region_wf_def some all)
  qed (auto simp: region_wf_def)
qed

lemma region_wf_new: "region_wf (sqs_new acct rgn endpoint)"
  by (simp add: region_wf_def sqs_new_def)

lemma region_config_lookup:
  assumes "region_config st' = region_config st"
  shows "map_option queue_config (map_of (ss_queues st') u) = map_option queue_config (map_of (ss_queues st) u)"
proof -
  have m: "map_option queue_config (map_of qs u) = map_of (map (\<lambda>e. (fst e, queue_config (snd e))) qs) u" for qs
    by (induction qs) auto
  show ?thesis using assms by (simp add: m region_config_def)
qed

lemma bt_wf_keys: "map fst m' = map fst m \<Longrightarrow> bt_wf m' = bt_wf m"
  by (simp add: bt_wf_def)

lemma region_wf_config:
  assumes "region_config st' = region_config st" "region_wf st"
  shows "region_wf st'"
proof -
  have same: "ss_name_to_url st' = ss_name_to_url st" "ss_account_id st' = ss_account_id st"
    "ss_region st' = ss_region st" "ss_endpoint st' = ss_endpoint st"
    using assms(1) by (simp_all add: region_config_def)
  have wf: "queue_wf st' u q' = queue_wf st u q" if "queue_config q' = queue_config q" for u q q'
    using that by (simp add: queue_wf_def queue_url_of_def queue_arn_of_def same queue_config_def)
  have look: "map_option queue_config (map_of (ss_queues st') u) = map_option queue_config (map_of (ss_queues st) u)" for u
    by (rule region_config_lookup [OF assms(1)])
  have "queue_wf st' u q'" if "map_of (ss_queues st') u = Some q'" for u q'
  proof -
    have "map_option queue_config (map_of (ss_queues st) u) = Some (queue_config q')"
      using look [of u] by (simp add: that)
    then obtain q where q: "map_of (ss_queues st) u = Some q" "queue_config q' = queue_config q" by auto
    show ?thesis using wf [OF q(2)] q(1) assms(2) by (simp add: region_wf_iff)
  qed
  moreover have "\<exists>q'. map_of (ss_queues st') u = Some q' \<and> q_name q' = n"
    if "map_of (ss_name_to_url st) n = Some u" for n u
    using look [of u] that assms(2) by (fastforce simp: region_wf_iff queue_config_def)
  ultimately show ?thesis
    using assms(2) bt_wf_keys [OF region_config_keys [OF assms(1)]] by (simp add: region_wf_iff same)
qed

interpretation dir: region_invariant region_wf
  by unfold_locales (rule region_wf_new, erule (1) region_wf_config, simp add: region_wf_def bt_wf_distinct)

lemma region_modes_config:
  assumes "region_config st' = region_config st" "region_modes st"
  shows "region_modes st'"
proof -
  have m: "list_all (\<lambda>(url, q). modes_exclusive (q_attributes q)) qs \<longleftrightarrow>
      list_all (\<lambda>(url, n, u, a, f, attrs). modes_exclusive attrs) (map (\<lambda>e. (fst e, queue_config (snd e))) qs)" for qs
    by (auto simp: list_all_iff queue_config_def)
  show ?thesis
    using assms bt_wf_keys [OF region_config_keys [OF assms(1)]] unfolding region_modes_def m
    by (simp add: region_config_def)
qed

interpretation enc: region_invariant region_modes
  by unfold_locales
    (simp add: region_modes_def sqs_new_def, erule (1) region_modes_config, simp add: region_modes_def bt_wf_distinct)

section \<open>Operations on the configuration\<close>

definition queue_card :: "sqs_queue \<Rightarrow> string \<times> string \<times> string \<times> bool" where
  "queue_card q = (q_name q, q_url q, q_arn q, q_is_fifo q)"

lemma queue_url_of_inject: "queue_url_of st a = queue_url_of st b \<longleftrightarrow> a = b"
  by (simp add: queue_url_of_def)

lemma region_wfI:
  assumes "bt_wf (ss_queues st)" "bt_wf (ss_name_to_url st)"
    and "\<And>u q. map_of (ss_queues st) u = Some q \<Longrightarrow> queue_wf st u q"
    and "\<And>n u. map_of (ss_name_to_url st) n = Some u \<Longrightarrow> \<exists>q. map_of (ss_queues st) u = Some q \<and> q_name q = n"
  shows "region_wf st"
  unfolding region_wf_iff using assms by blast

lemmas region_wf_parts = region_wf_iff [THEN iffD1]

lemma region_wf_name:
  assumes "region_wf st" "map_of (ss_name_to_url st) n = Some u"
  obtains q where "map_of (ss_queues st) u = Some q" "q_name q = n" "u = queue_url_of st n"
proof -
  obtain q where q: "map_of (ss_queues st) u = Some q" "q_name q = n"
    using region_wf_parts [OF assms(1)] assms(2) by blast
  then have "queue_wf st u q" using region_wf_parts [OF assms(1)] by blast
  then show ?thesis using that q by (simp add: queue_wf_def)
qed

lemma region_wf_name_eq:
  "region_wf st \<Longrightarrow> map_of (ss_name_to_url st) n = Some u \<Longrightarrow> map_of (ss_queues st) u = Some q \<Longrightarrow> q_name q = n"
  by (erule (1) region_wf_name) simp

lemma region_wf_name_url:
  "region_wf st \<Longrightarrow> map_of (ss_name_to_url st) n = Some u \<Longrightarrow> u = queue_url_of st n"
  by (erule (1) region_wf_name)

lemma region_wf_set_queue:
  assumes "region_wf st" "map_of (ss_queues st) url = Some q" "queue_card q' = queue_card q"
  shows "region_wf (set_queue url q' st)"
proof -
  have wf: "queue_wf (set_queue url q' st) u p = queue_wf st u p" for u p
    by (simp add: queue_wf_def queue_url_of_def queue_arn_of_def set_queue_def)
  have "queue_wf st url q'"
    using assms by (auto simp: region_wf_iff queue_wf_def queue_card_def)
  moreover have "q_name q' = n" if "map_of (ss_name_to_url st) n = Some url" for n
    using region_wf_name_eq [OF assms(1) that assms(2)] assms(3) by (simp add: queue_card_def)
  ultimately show ?thesis
    using assms(1,2) unfolding region_wf_iff wf
    by (auto simp: map_of_set_queue set_queue_def bt_wf_modify map_of_bt_modify split: if_splits)
qed

lemma region_keeps_card:
  assumes "\<And>q. queue_card (snd (f q)) = queue_card q"
  shows "region_keeps rgn region_wf (on_queue input f)"
  unfolding region_keeps_def
proof (intro allI impI)
  fix st
  assume "ss_region st = rgn" "region_wf st"
  then show "ss_region (snd (on_queue input f st)) = rgn \<and> region_wf (snd (on_queue input f st))"
    using assms by (auto simp: on_queue_def prod.case_eq_if region_wf_set_queue split: option.split)
qed

lemma region_wf_put_queue:
  assumes wf: "region_wf st" and new: "map_of (ss_name_to_url st) (q_name q) = None"
    and q: "q_url q = queue_url_of st (q_name q)" "q_arn q = queue_arn_of st (q_name q)"
      "q_is_fifo q = ends_with (q_name q) ''.fifo''"
  shows "region_wf (put_queue (q_url q) q st)"
proof -
  let ?st' = "put_queue (q_url q) q st"
  have look: "map_of (ss_queues ?st') u = (if u = q_url q then Some q else map_of (ss_queues st) u)"
    "map_of (ss_name_to_url ?st') n = (if n = q_name q then Some (q_url q) else map_of (ss_name_to_url st) n)" for u n
    by (simp_all add: put_queue_def map_of_bt_insert)
  have same: "queue_url_of ?st' = queue_url_of st" "queue_arn_of ?st' = queue_arn_of st"
    by (simp_all add: queue_url_of_def queue_arn_of_def put_queue_def fun_eq_iff)
  have old: "queue_wf ?st' u p" if "queue_wf st u p" for u p
    using that new by (auto simp: queue_wf_def same look)
  have added: "queue_wf ?st' (q_url q) q"
    unfolding queue_wf_def same look using q by simp
  have apart: "u \<noteq> q_url q" if "map_of (ss_name_to_url st) n = Some u" for n u
  proof -
    have "n \<noteq> q_name q" using that new by auto
    then show ?thesis unfolding q(1) region_wf_name_url [OF wf that] by (simp add: queue_url_of_inject)
  qed
  show ?thesis
  proof (rule region_wfI)
    fix u p
    assume "map_of (ss_queues ?st') u = Some p"
    then show "queue_wf ?st' u p"
      using added old region_wf_parts [OF wf] unfolding look by (cases "u = q_url q") auto
  next
    fix n u
    assume "map_of (ss_name_to_url ?st') n = Some u"
    then show "\<exists>p. map_of (ss_queues ?st') u = Some p \<and> q_name p = n"
      using apart [of n u] region_wf_parts [OF wf] unfolding look by (cases "n = q_name q") auto
  qed (use region_wf_parts [OF wf] in \<open>simp_all add: put_queue_def bt_wf_insert\<close>)
qed

lemma create_in_region_cases:
  obtains "snd (create_in_region env rgn name given tags st) = st"
  | attrs rp where "map_of (ss_name_to_url st) name = None"
    "attrs = initial_attributes env (ends_with name ''.fifo'') given"
    "snd (create_in_region env rgn name given tags st) =
       put_queue (queue_url_of st name) (new_queue env rgn name (queue_url_of st name) attrs rp tags st) st"
proof (cases "snd (create_in_region env rgn name given tags st) = st")
  case False
  then have new: "map_of (ss_name_to_url st) name = None"
    by (cases "map_of (ss_name_to_url st) name") (simp_all add: create_in_region_def split: if_splits)
  let ?attrs = "initial_attributes env (ends_with name ''.fifo'') given"
  let ?rp = "Option.bind (map_of ?attrs ''RedrivePolicy'') (parse_redrive_policy env)"
  have "snd (create_in_region env rgn name given tags st) \<in>
      {st, put_queue (queue_url_of st name) (new_queue env rgn name (queue_url_of st name) ?attrs ?rp tags st) st}"
    by (simp add: create_in_region_def new Let_def put_queue_def queue_url_of_def new_queue_def split: sum.split)
  then show ?thesis using that(2) new False by simp
qed (rule that(1))

lemma create_keeps_directory: "region_keeps rgn region_wf (create_in_region env rgn name given tags)"
  unfolding region_keeps_def
proof (intro allI impI)
  fix st
  assume st: "ss_region st = rgn" "region_wf st"
  then show "ss_region (snd (create_in_region env rgn name given tags st)) = rgn \<and>
      region_wf (snd (create_in_region env rgn name given tags st))"
  proof (cases rule: create_in_region_cases [of env rgn name given tags st])
    case (2 attrs rp)
    let ?q = "new_queue env rgn name (queue_url_of st name) attrs rp tags st"
    have q: "q_name ?q = name" "q_url ?q = queue_url_of st name" "q_arn ?q = queue_arn_of st name"
      "q_is_fifo ?q = ends_with name ''.fifo''"
      using st(1) by (simp_all add: new_queue_def Let_def queue_arn_of_def)
    have "region_wf (put_queue (q_url ?q) ?q st)"
      by (rule region_wf_put_queue) (simp_all add: q st(2) 2(1))
    moreover have "ss_region (put_queue (q_url ?q) ?q st) = rgn"
      by (simp add: put_queue_def st(1))
    ultimately show ?thesis unfolding 2(3) q(2) by blast
  qed simp
qed

lemma delete_keeps_directory: "region_keeps rgn region_wf (delete_in_region input)"
  unfolding region_keeps_def
proof (intro allI impI)
  fix st
  assume r: "ss_region st = rgn" and wf: "region_wf st"
  let ?st' = "snd (delete_in_region input st)"
  show "ss_region ?st' = rgn \<and> region_wf ?st'"
  proof (cases "?st' = st")
    case False
    then obtain url q where q: "map_of (ss_queues st) url = Some q"
      and st': "?st' = st\<lparr>ss_queues := bt_remove url (ss_queues st),
        ss_name_to_url := bt_remove (q_name q) (ss_name_to_url st)\<rparr>"
      by (auto simp: delete_in_region_def split: option.splits)
    have wfq: "queue_wf st url q" using q wf by (simp add: region_wf_iff)
    have wf': "queue_wf ?st' u p" if "queue_wf st u p" "u \<noteq> url" for u p
      using that wfq by (auto simp: queue_wf_def queue_url_of_def queue_arn_of_def st' map_of_bt_remove)
    have "u \<noteq> url" if "map_of (ss_name_to_url st) n = Some u" "n \<noteq> q_name q" for n u
      using region_wf_name_eq [OF wf that(1)] that(2) q by auto
    then show ?thesis
      using wf wf' r unfolding region_wf_iff st'
      by (auto simp: bt_wf_remove map_of_bt_remove split: if_splits)
  qed (use r wf in simp)
qed

lemma apply_attributes_card: "queue_card (apply_attributes env attrs q) = queue_card q"
proof -
  have "queue_card (set_attribute env e q) = queue_card q" for e q
    by (simp add: set_attribute_def queue_card_def Let_def split: prod.split option.split)
  then have "queue_card (fold (set_attribute env) attrs q) = queue_card q"
    by (induction attrs arbitrary: q) simp_all
  then show ?thesis by (simp add: apply_attributes_def Let_def queue_card_def split: option.split)
qed

lemma set_in_region_cases:
  obtains "snd (set_in_region env input attrs st) = st"
  | url q a where "map_of (ss_queues st) url = Some q" "attrs = Some a"
    "snd (set_in_region env input attrs st) = set_queue url (apply_attributes env a q) st"
proof (cases "snd (set_in_region env input attrs st) = st")
  case False
  then obtain url where url: "resolve_queue_url input st = Some url"
    by (cases "resolve_queue_url input st") (simp_all add: set_in_region_def)
  with False obtain q where q: "map_of (ss_queues st) url = Some q"
    by (cases "map_of (ss_queues st) url") (simp_all add: set_in_region_def Let_def split: sum.split_asm)
  with url False obtain a where a: "attrs = Some a"
    by (cases attrs) (simp_all add: set_in_region_def Let_def split: sum.split_asm)
  have "snd (set_in_region env input attrs st) \<in> {st, set_queue url (apply_attributes env a q) st}"
    by (simp add: set_in_region_def Let_def url q a split: sum.split)
  then show ?thesis using that(2) q a False by simp
qed (rule that(1))

lemma set_keeps_directory: "region_keeps rgn region_wf (set_in_region env input attrs)"
  unfolding region_keeps_def
proof (intro allI impI)
  fix st
  assume st: "ss_region st = rgn" "region_wf st"
  then show "ss_region (snd (set_in_region env input attrs st)) = rgn \<and> region_wf (snd (set_in_region env input attrs st))"
  proof (cases rule: set_in_region_cases [of env input attrs st])
    case (2 url q a)
    then show ?thesis using st by (simp add: region_wf_set_queue apply_attributes_card)
  qed simp
qed

section \<open>Encryption modes as an invariant\<close>

lemma region_modes_put_queue:
  "region_modes st \<Longrightarrow> modes_exclusive (q_attributes q) \<Longrightarrow> region_modes (put_queue u q st)"
proof -
  have "list_all (\<lambda>(url, q). p q) (bt_insert u q m)" if "list_all (\<lambda>(url, q). p q) m" "p q" for p and m :: "sqs_queue smap"
    using that by (induction m) auto
  then show "region_modes st \<Longrightarrow> modes_exclusive (q_attributes q) \<Longrightarrow> region_modes (put_queue u q st)"
    by (simp add: region_modes_def put_queue_def bt_wf_insert)
qed

lemma region_modes_set_queue:
  "region_modes st \<Longrightarrow> modes_exclusive (q_attributes q) \<Longrightarrow> region_modes (set_queue u q st)"
  by (simp add: region_modes_def set_queue_def bt_wf_modify) (auto simp: bt_modify_def list_all_iff)

lemma region_modes_lookup:
  "region_modes st \<Longrightarrow> map_of (ss_queues st) u = Some q \<Longrightarrow> modes_exclusive (q_attributes q)"
  by (auto simp: region_modes_def list_all_iff dest: map_of_SomeD)

lemma create_keeps_modes: "region_keeps rgn region_modes (create_in_region env rgn name given tags)"
  unfolding region_keeps_def
proof (intro allI impI)
  fix st
  assume st: "ss_region st = rgn" "region_modes st"
  then show "ss_region (snd (create_in_region env rgn name given tags st)) = rgn \<and>
      region_modes (snd (create_in_region env rgn name given tags st))"
  proof (cases rule: create_in_region_cases [of env rgn name given tags st])
    case (2 attrs rp)
    have "modes_exclusive attrs" unfolding 2(2) initial_attributes_def by (rule exclude_modes_exclusive)
    then have "modes_exclusive (q_attributes (new_queue env rgn name (queue_url_of st name) attrs rp tags st))"
      by (simp add: new_queue_def Let_def modes_exclusive_def map_of_bt_insert)
    then show ?thesis
      unfolding 2(3) using region_modes_put_queue [OF st(2)] st(1) by (simp add: put_queue_def)
  qed simp
qed

lemma delete_keeps_modes: "region_keeps rgn region_modes (delete_in_region input)"
  by (auto simp: region_keeps_def delete_in_region_def region_modes_def bt_wf_filter bt_remove_def list_all_iff
      split: option.split)

lemma set_keeps_modes:
  assumes "\<And>a. attrs = Some a \<Longrightarrow> distinct (map fst a)"
  shows "region_keeps rgn region_modes (set_in_region env input attrs)"
  unfolding region_keeps_def
proof (intro allI impI)
  fix st
  assume st: "ss_region st = rgn" "region_modes st"
  then show "ss_region (snd (set_in_region env input attrs st)) = rgn \<and> region_modes (snd (set_in_region env input attrs st))"
  proof (cases rule: set_in_region_cases [of env input attrs st])
    case (2 url q a)
    then show ?thesis
      using st assms by (simp add: region_modes_set_queue apply_attributes_exclusive region_modes_lookup)
  qed simp
qed

text \<open>\<^verbatim>\<open>serde_json\<close> keeps one entry per key of an object, so the attributes of a request have distinct names.\<close>

definition json_objects_wf :: "sqs_env \<Rightarrow> bool" where
  "json_objects_wf env \<longleftrightarrow>
     (\<forall>s v k m. from_json env s = Some v \<longrightarrow> as_object (json_index v k) = Some m \<longrightarrow> distinct (map fst m))"

lemma request_attributes_distinct:
  assumes "json_objects_wf env" "as_object (json_index (parse_body env req) ''Attributes'') = Some a"
  shows "distinct (map fst a)"
proof (cases "opt_filter (\<lambda>v. is_some_and (as_object v) (\<lambda>m. m \<noteq> [])) (from_json env (req_body req))")
  case (Some v)
  then have "from_json env (req_body req) = Some v" "parse_body env req = v"
    by (cases "from_json env (req_body req)"; simp add: parse_body_def Let_def split: if_splits)+
  then show ?thesis using assms unfolding json_objects_wf_def by blast
next
  case None
  let ?attrs = "query_attributes (req_query_params req)"
  have d: "distinct (map fst (fold (\<lambda>i m. jmap_insert (f i) (g i) m) is m))" if "distinct (map fst m)"
    for f :: "nat \<Rightarrow> string" and g :: "nat \<Rightarrow> json" and "is" m
    using that by (induction "is" arbitrary: m) (simp_all add: distinct_jmap_insert)
  have strs: "as_object (json_index (JObj (fold (\<lambda>(k, v). jmap_insert k (JStr v)) ps [])) k) = None" for ps k
  proof -
    have "is_none_or (map_of m k) (\<lambda>j. as_object j = None) \<Longrightarrow>
        is_none_or (map_of (fold (\<lambda>(k, v). jmap_insert k (JStr v)) ps m) k) (\<lambda>j. as_object j = None)" for m
      by (induction ps arbitrary: m) (auto split: prod.split)
    from this [of "[]"] show ?thesis
      by (auto simp: json_index_def json_get_def is_none_or_def split: option.splits)
  qed
  have "a = ?attrs"
    using assms(2) None strs [of "req_query_params req" "''Attributes''"]
    by (auto simp: parse_body_def Let_def json_index_def json_get_def split: if_splits)
  then show ?thesis unfolding query_attributes_def Let_def by (simp add: d)
qed

section \<open>Listings of well-formed regions\<close>

lemma region_wf_listed:
  assumes "region_wf st"
  shows "sorted_wrt (<) (listed_urls prefix st)"
proof -
  have "q_url (snd e) = fst e" if "e \<in> set (ss_queues st)" for e
    using that assms by (auto simp: region_wf_def list_all_iff queue_wf_def)
  then have urls: "map q_url (map snd (ss_queues st)) = map fst (ss_queues st)" by simp
  have "distinct (map q_url (filter p (map snd (ss_queues st))))" for p
    using region_wf_parts [OF assms] distinct_map_filter [of q_url "map snd (ss_queues st)" p]
    by (simp only: urls bt_wf_distinct)
  then show ?thesis by (simp add: listed_urls_def strict_sorted_iff)
qed

lemma listed_urls_length: "length (listed_urls prefix st) \<le> length (ss_queues st)"
  unfolding listed_urls_def using length_filter_le [of _ "map snd (ss_queues st)"] by simp

lemma list_run_sound:
  assumes "\<And>st. st \<in> set sts \<Longrightarrow> sorted_wrt (<) (listed_urls prefix st)"
  shows "set (fst (list_run prefix n marker sts)) \<subseteq> (\<Union>st \<in> set sts. set (listed_urls prefix st))"
  using assms
proof (induction prefix n marker sts rule: list_run.induct)
  case (2 prefix n marker st sts)
  have page: "set (fst (list_page prefix n marker st)) \<subseteq> set (listed_urls prefix st)"
    using 2(2) by (auto simp: list_page_eq Let_def dest: in_set_takeD)
  show ?case
  proof (cases "snd (list_page prefix n marker st)")
    case None
    then show ?thesis using page by (auto simp: prod.case_eq_if)
  next
    case (Some m)
    have "set (fst (list_run prefix n (Some m) sts)) \<subseteq> (\<Union>st \<in> set sts. set (listed_urls prefix st))"
      using 2(1) [OF prod.collapse Some] 2(2) by simp
    then show ?thesis using page Some by (auto simp: prod.case_eq_if)
  qed
qed simp

end
