(* ===== verification/Sqs_Moves.thy ===== *)
theory Sqs_Moves
  imports Sqs_Directory
begin

text \<open>
  Message move tasks (\<^verbatim>\<open>fakecloud-sqs/src/service/moves.rs\<close>, \<^verbatim>\<open>run_message_move_task\<close> of
  \<^verbatim>\<open>service/mod.rs\<close> and \<^verbatim>\<open>finalize_move_task\<close> of \<^verbatim>\<open>helpers.rs\<close>).

  A task without a rate drains its queue at once. A task with a rate spawns a worker, whose arguments
  and loop variable are the record \<open>move_worker\<close>; \<open>worker_step\<close> is one iteration of its loop, so that
  other requests may run between two of them. The sleeps that enforce the rate and the writing of
  snapshots are left out. The cancel flag, which the task and its worker share, is an argument.

  The lemmas show that neither way loses or duplicates a message, that a worker whose queue is not
  refilled ends, and that one whose destination is its own source never does.
\<close>

section \<open>Tasks\<close>

definition task_blocks_new_move :: "move_task \<Rightarrow> string \<Rightarrow> nat \<Rightarrow> bool" where
  "task_blocks_new_move t source_arn pid \<longleftrightarrow>
     mt_source_arn t = source_arn \<and> (mt_status t = Running \<or> mt_status t = Cancelling) \<and> mt_driver_pid t = pid"

text \<open>\<^verbatim>\<open>iter_mut().find(..)\<close>: only the first match changes.\<close>

fun modify_first :: "('a \<Rightarrow> bool) \<Rightarrow> ('a \<Rightarrow> 'a) \<Rightarrow> 'a list \<Rightarrow> 'a list" where
  "modify_first p f [] = []"
| "modify_first p f (x # xs) = (if p x then f x # xs else x # modify_first p f xs)"

definition modify_task :: "string \<Rightarrow> (move_task \<Rightarrow> move_task) \<Rightarrow> sqs_state \<Rightarrow> sqs_state" where
  "modify_task handle f st = st\<lparr>ss_move_tasks := modify_first (\<lambda>t. mt_handle t = handle) f (ss_move_tasks st)\<rparr>"

definition queue_by_arn :: "string \<Rightarrow> sqs_state \<Rightarrow> sqs_queue option" where
  "queue_by_arn a st = find (\<lambda>q. q_arn q = a) (map snd (ss_queues st))"

text \<open>The queues that use a queue as their dead-letter queue.\<close>

definition dlq_sources :: "string \<Rightarrow> sqs_state \<Rightarrow> string list" where
  "dlq_sources a st =
     map q_url (filter (\<lambda>q. is_some_and (q_redrive_policy q) (\<lambda>rp. rd_target_arn rp = a)) (map snd (ss_queues st)))"

definition moved_message :: "sqs_message \<Rightarrow> sqs_message" where
  "moved_message m = m\<lparr>m_visible_at := None, m_receive_count := 0\<rparr>"

definition push_messages :: "string \<Rightarrow> sqs_message list \<Rightarrow> sqs_state \<Rightarrow> sqs_state" where
  "push_messages url ms st = st\<lparr>ss_queues := bt_modify url (\<lambda>q. q\<lparr>q_messages := q_messages q @ ms\<rparr>) (ss_queues st)\<rparr>"

section \<open>Draining at once\<close>

text \<open>Round robin over the targets; the count is of messages that found their queue.\<close>

fun spread :: "string list \<Rightarrow> nat \<Rightarrow> sqs_message list \<Rightarrow> nat \<times> sqs_state \<Rightarrow> nat \<times> sqs_state" where
  "spread targets i [] acc = acc"
| "spread targets i (m # ms) (moved, st) =
     (if targets = [] then (moved, st)
      else
        (let target = targets ! (i mod length targets)
         in spread targets (i + 1) ms
              (if map_of (ss_queues st) target \<noteq> None
               then (moved + 1, push_messages target [moved_message m] st) else (moved, st))))"

definition drain_now :: "string \<Rightarrow> string option \<Rightarrow> string list \<Rightarrow> sqs_state \<Rightarrow> nat \<times> sqs_state" where
  "drain_now source_url destination targets st =
     (let ms = (case map_of (ss_queues st) source_url of Some q \<Rightarrow> q_messages q | None \<Rightarrow> []);
          st1 = st\<lparr>ss_queues := bt_modify source_url (\<lambda>q. q\<lparr>q_messages := []\<rparr>) (ss_queues st)\<rparr>
      in case destination of
           Some dest \<Rightarrow>
             (case map_option q_url (queue_by_arn dest st1) of
                Some dest_url \<Rightarrow>
                  if map_of (ss_queues st1) dest_url \<noteq> None
                  then (length ms, push_messages dest_url (map moved_message ms) st1) else (0, st1)
              | None \<Rightarrow> (0, st1))
         | None \<Rightarrow> spread targets 0 ms (0, st1))"

section \<open>Requests\<close>

text \<open>
  The arguments of a worker and its loop variable. \<open>mw_final\<close> is the status it is about to write when it
  has left the loop: \<^verbatim>\<open>finalize_move_task\<close> takes the lock anew.
\<close>

record move_worker =
  mw_account :: string
  mw_region :: string
  mw_handle :: string
  mw_source_url :: string
  mw_destination :: "string option"
  mw_targets :: "string list"
  mw_idx :: nat
  mw_final :: "move_status option"

definition unsupported :: "string \<Rightarrow> service_error" where
  "unsupported msg = aws_error 400 ''AWS.SimpleQueueService.UnsupportedOperation'' msg"

definition no_resource :: "string \<Rightarrow> service_error" where
  "no_resource param =
     aws_error 400 ''ResourceNotFoundException''
       (''The resource that you specified for the '' @ param @ '' parameter doesn'' @ [CHR 0x27] @ ''t exist.'')"

definition check_move :: "sqs_env \<Rightarrow> string \<Rightarrow> string option \<Rightarrow> sqs_state \<Rightarrow> service_error + string" where
  "check_move env source_arn destination st =
     (case queue_by_arn source_arn st of
        None \<Rightarrow> Inl (no_resource ''SourceArn'')
      | Some source \<Rightarrow>
          if dlq_sources source_arn st = []
          then Inl (unsupported ''Source queue must be configured as a dead-letter queue.'')
          else if is_some_and destination (\<lambda>d. \<not> list_ex (\<lambda>q. q_arn q = d) (map snd (ss_queues st)))
          then Inl (no_resource ''DestinationArn'')
          else if list_ex (\<lambda>t. task_blocks_new_move t source_arn (process_id env)) (ss_move_tasks st)
          then Inl (unsupported ''There is already an active message movement task for the specified source queue.'')
          else Inr (q_url source))"

definition new_task ::
  "sqs_env \<Rightarrow> string \<Rightarrow> string \<Rightarrow> string option \<Rightarrow> int option \<Rightarrow> move_status \<Rightarrow> nat \<Rightarrow> nat \<Rightarrow> move_task" where
  "new_task env handle source_arn destination rate status moved to_move =
     \<lparr>mt_handle = handle, mt_source_arn = source_arn, mt_destination_arn = destination, mt_max_per_second = rate,
      mt_status = status, mt_moved = moved, mt_to_move = to_move, mt_started = timestamp_millis (now env),
      mt_failure_reason = None, mt_driver_pid = process_id env, mt_cancel = False\<rparr>"

definition push_task :: "move_task \<Rightarrow> sqs_state \<Rightarrow> sqs_state" where
  "push_task t st = st\<lparr>ss_move_tasks := ss_move_tasks st @ [t]\<rparr>"

definition start_in_region ::
  "sqs_env \<Rightarrow> string \<Rightarrow> string \<Rightarrow> string \<Rightarrow> string option \<Rightarrow> int option \<Rightarrow> (sqs_state, string \<times> move_worker option) handler" where
  "start_in_region env acct rgn source_arn destination rate st =
     (case check_move env source_arn destination st of
        Inl e \<Rightarrow> (Inl e, st)
      | Inr source_url \<Rightarrow>
          (let to_move = (case map_of (ss_queues st) source_url of Some q \<Rightarrow> length (q_messages q) | None \<Rightarrow> 0);
               handle = ''FakeCloudMessageMoveTask-'' @ filter (\<lambda>c. c \<noteq> CHR ''-'') (uuid env 0);
               targets = dlq_sources source_arn st
           in if rate = None
              then (let (moved, st1) = drain_now source_url destination targets st
                    in (Inr (handle, None),
                        push_task (new_task env handle source_arn destination rate Completed moved to_move) st1))
              else (Inr (handle, Some \<lparr>mw_account = acct, mw_region = rgn, mw_handle = handle, mw_source_url = source_url,
                         mw_destination = destination, mw_targets = targets, mw_idx = 0, mw_final = None\<rparr>),
                    push_task (new_task env handle source_arn destination rate Running 0 to_move) st)))"

definition start_message_move_task ::
  "sqs_env \<Rightarrow> aws_request \<Rightarrow> (sqs_store, aws_response \<times> move_worker option) handler" where
  "start_message_move_task env req =
     (let body = parse_body env req;
          destination = as_str (json_index body ''DestinationArn'');
          rate = val_as_i64 (json_index body ''MaxNumberOfMessagesPerSecond'')
      in h_bind (h_lift (required_str body ''SourceArn'')) (\<lambda>source_arn.
         if outside (- (2 ^ 31)) (2 ^ 31 - 1) rate
         then h_err (unsupported ''MaxNumberOfMessagesPerSecond is out of range.'')
         else
           h_bind (with_region (req_account_id req) (req_region req)
             (start_in_region env (req_account_id req) (req_region req) source_arn destination
                (map_option (clamp 1 500) rate))) (\<lambda>(handle, worker).
           h_ok (reply ''StartMessageMoveTask'' req (JObj [(''TaskHandle'', JStr handle)]), worker))))"

definition cancel_in_region :: "string \<Rightarrow> (sqs_state, nat) handler" where
  "cancel_in_region handle st =
     (case find (\<lambda>t. mt_handle t = handle) (ss_move_tasks st) of
        None \<Rightarrow> (Inl (aws_error 400 ''ResourceNotFoundException''
                   (''The specified task handle doesn'' @ [CHR 0x27] @ ''t exist.'')), st)
      | Some task \<Rightarrow>
          if mt_status task = Running
          then (Inr (mt_moved task), modify_task handle (\<lambda>t. t\<lparr>mt_cancel := True, mt_status := Cancelling\<rparr>) st)
          else (Inl (unsupported (''The message movement task isn'' @ [CHR 0x27] @ ''t in RUNNING status.'')), st))"

definition cancel_message_move_task :: "sqs_env \<Rightarrow> aws_request \<Rightarrow> (sqs_store, aws_response) handler" where
  "cancel_message_move_task env req =
     h_bind (h_lift (required_str (parse_body env req) ''TaskHandle'')) (\<lambda>handle.
     h_bind (with_region (req_account_id req) (req_region req) (cancel_in_region handle)) (\<lambda>moved.
     h_ok (reply ''CancelMessageMoveTask'' req (JObj [(''ApproximateNumberOfMessagesMoved'', JNum (PosInt moved))]))))"

definition json_int :: "int \<Rightarrow> json" where
  "json_int i = JNum (if i < 0 then NegInt i else PosInt (nat i))"

definition task_json :: "move_task \<Rightarrow> json" where
  "task_json t =
     JObj
       ((if mt_status t = Running then [(''TaskHandle'', JStr (mt_handle t))] else []) @
        [(''Status'', JStr (move_status_as_str (mt_status t))), (''SourceArn'', JStr (mt_source_arn t))] @
        opt_field ''DestinationArn'' (mt_destination_arn t) @
        (case mt_max_per_second t of Some m \<Rightarrow> [(''MaxNumberOfMessagesPerSecond'', json_int m)] | None \<Rightarrow> []) @
        [(''ApproximateNumberOfMessagesMoved'', JNum (PosInt (mt_moved t))),
         (''ApproximateNumberOfMessagesToMove'', JNum (PosInt (mt_to_move t)))] @
        opt_field ''FailureReason'' (mt_failure_reason t) @
        [(''StartedTimestamp'', json_int (mt_started t))])"

definition list_message_move_tasks :: "sqs_env \<Rightarrow> aws_request \<Rightarrow> (sqs_store, aws_response) handler" where
  "list_message_move_tasks env req =
     (let body = parse_body env req;
          limit = (case val_as_i64 (json_index body ''MaxResults'') of Some n \<Rightarrow> nat (clamp 1 10 n) | None \<Rightarrow> 1)
      in h_bind (h_lift (required_str body ''SourceArn'')) (\<lambda>source_arn.
         h_read (\<lambda>ms.
           (let st = read_region req ms
            in if \<not> list_ex (\<lambda>q. q_arn q = source_arn) (map snd (ss_queues st))
               then Inl (no_resource ''SourceArn'')
               else Inr (reply ''ListMessageMoveTasks'' req
                 (JObj [(''Results'', JArr (map task_json (take limit (sort_key (\<lambda>t. - mt_started t)
                    (filter (\<lambda>t. mt_source_arn t = source_arn) (ss_move_tasks st))))))]))))))"

section \<open>Workers\<close>

definition finalize_move_task :: "string \<Rightarrow> string \<Rightarrow> string \<Rightarrow> move_status \<Rightarrow> sqs_store \<Rightarrow> sqs_store" where
  "finalize_move_task acct rgn handle status =
     regional_get_modify acct rgn (modify_task handle (\<lambda>t. t\<lparr>mt_status := status\<rparr>))"

datatype move_step = Moved | SourceDrained | StepFailed

definition move_target :: "move_worker \<Rightarrow> sqs_state \<Rightarrow> string option" where
  "move_target w st =
     opt_filter (\<lambda>u. map_of (ss_queues st) u \<noteq> None)
       (case mw_destination w of
          Some dest \<Rightarrow> map_option q_url (queue_by_arn dest st)
        | None \<Rightarrow> if mw_targets w = [] then None else Some (mw_targets w ! (mw_idx w mod length (mw_targets w))))"

definition pop_message :: "string \<Rightarrow> sqs_state \<Rightarrow> sqs_state" where
  "pop_message url st = st\<lparr>ss_queues := bt_modify url (\<lambda>q. q\<lparr>q_messages := tl (q_messages q)\<rparr>) (ss_queues st)\<rparr>"

text \<open>
  What the worker does under one lock. The target was looked up under the same lock, so the code's branch
  for a target that vanished in between is not reached.
\<close>

definition move_one :: "move_worker \<Rightarrow> sqs_state \<Rightarrow> move_step \<times> sqs_state" where
  "move_one w st =
     (case map_of (ss_queues st) (mw_source_url w) of
        None \<Rightarrow> (StepFailed, st)
      | Some source \<Rightarrow>
          (case move_target w st of
             None \<Rightarrow> (StepFailed, st)
           | Some target \<Rightarrow>
               (case q_messages source of
                  [] \<Rightarrow> (SourceDrained, st)
                | m # _ \<Rightarrow>
                    (Moved,
                     modify_task (mw_handle w) (\<lambda>t. t\<lparr>mt_moved := mt_moved t + 1\<rparr>)
                       (push_messages target [moved_message m] (pop_message (mw_source_url w) st))))))"

definition advance :: "move_worker \<Rightarrow> move_worker" where
  "advance w = (if mw_destination w = None then w\<lparr>mw_idx := mw_idx w + 1\<rparr> else w)"

definition worker_step :: "bool \<Rightarrow> move_worker \<Rightarrow> sqs_store \<Rightarrow> move_worker option \<times> sqs_store" where
  "worker_step cancelled w ms =
     (case mw_final w of
        Some status \<Rightarrow> (None, finalize_move_task (mw_account w) (mw_region w) (mw_handle w) status ms)
      | None \<Rightarrow>
          if cancelled then (Some (w\<lparr>mw_final := Some Cancelled\<rparr>), ms)
          else
            (let (step, st) = move_one w (unwrap_or (regional ms (mw_account w) (mw_region w))
                                (fresh_region sqs_ops (mw_account w) (mw_region w) ms));
                 ms' = regional_modify sqs_ops (mw_account w) (mw_region w) (\<lambda>_. st) ms
             in case step of
                  Moved \<Rightarrow> (Some (advance w), ms')
                | SourceDrained \<Rightarrow> (Some (w\<lparr>mw_final := Some Completed\<rparr>), ms')
                | StepFailed \<Rightarrow> (Some (w\<lparr>mw_final := Some Failed\<rparr>), ms')))"

text \<open>A worker that runs with nothing in between; it reads the flag of its own task.\<close>

definition cancel_flag :: "move_worker \<Rightarrow> sqs_store \<Rightarrow> bool" where
  "cancel_flag w ms =
     is_some_and (regional ms (mw_account w) (mw_region w)) (\<lambda>st.
       is_some_and (find (\<lambda>t. mt_handle t = mw_handle w) (ss_move_tasks st)) mt_cancel)"

partial_function (option) run_message_move_task :: "move_worker \<Rightarrow> sqs_store \<Rightarrow> sqs_store option" where
  "run_message_move_task w ms =
     (case worker_step (cancel_flag w ms) w ms of
        (None, ms') \<Rightarrow> Some ms'
      | (Some w', ms') \<Rightarrow> run_message_move_task w' ms')"

section \<open>Resuming after a restart\<close>

definition orphaned :: "nat \<Rightarrow> move_task \<Rightarrow> bool" where
  "orphaned pid t \<longleftrightarrow> (mt_status t = Running \<or> mt_status t = Cancelling) \<and> mt_driver_pid t \<noteq> pid"

definition resume_task :: "nat \<Rightarrow> string \<Rightarrow> move_task \<Rightarrow> move_worker list \<times> sqs_state \<Rightarrow> move_worker list \<times> sqs_state" where
  "resume_task pid acct t = (\<lambda>(workers, st).
     (case map_option q_url (queue_by_arn (mt_source_arn t) st) of
        None \<Rightarrow>
          (workers, modify_task (mt_handle t) (\<lambda>t'. t'\<lparr>mt_driver_pid := pid, mt_status := Failed,
             mt_failure_reason := Some ''Source queue no longer exists after restart.''\<rparr>) st)
      | Some source_url \<Rightarrow>
          (workers @ [\<lparr>mw_account = acct, mw_region = ss_region st, mw_handle = mt_handle t, mw_source_url = source_url,
             mw_destination = mt_destination_arn t, mw_targets = dlq_sources (mt_source_arn t) st, mw_idx = 0,
             mw_final = None\<rparr>],
           modify_task (mt_handle t)
             (\<lambda>t'. t'\<lparr>mt_driver_pid := pid, mt_cancel := (mt_status t = Cancelling)\<rparr>) st)))"

definition resume_region :: "nat \<Rightarrow> string \<Rightarrow> sqs_state \<Rightarrow> move_worker list \<times> sqs_state" where
  "resume_region pid acct st = fold (resume_task pid acct) (filter (orphaned pid) (ss_move_tasks st)) ([], st)"

definition resume_message_move_tasks :: "nat \<Rightarrow> sqs_store \<Rightarrow> move_worker list \<times> sqs_store" where
  "resume_message_move_tasks pid ms =
     (concat (map (\<lambda>(acct, rgn, st). fst (resume_region pid acct st)) (iter_regional ms)),
      iter_regional_mut (\<lambda>acct rgn st. snd (resume_region pid acct st)) ms)"

section \<open>What a move keeps\<close>

lemma region_config_tasks [simp]:
  "region_config (modify_task h f st) = region_config st" "region_config (push_task t st) = region_config st"
  by (simp_all add: region_config_def modify_task_def push_task_def)

lemma region_config_push [simp]: "region_config (push_messages u ms st) = region_config st"
  by (auto simp: push_messages_def region_config_def bt_modify_def)

lemma region_config_pop [simp]: "region_config (pop_message u st) = region_config st"
  by (auto simp: pop_message_def region_config_def bt_modify_def)

definition drained :: "string \<Rightarrow> sqs_state \<Rightarrow> sqs_state" where
  "drained u st = st\<lparr>ss_queues := bt_modify u (\<lambda>q. q\<lparr>q_messages := []\<rparr>) (ss_queues st)\<rparr>"

lemma region_config_drained [simp]: "region_config (drained u st) = region_config st"
  by (auto simp: drained_def region_config_def bt_modify_def)

lemma region_config_spread: "region_config (snd (spread targets i ms acc)) = region_config (snd acc)"
  by (induction targets i ms acc rule: spread.induct) (simp_all add: Let_def)

lemma drain_now_drained:
  "drain_now u dest targets st =
     (let ms = (case map_of (ss_queues st) u of Some q \<Rightarrow> q_messages q | None \<Rightarrow> [])
      in case dest of
           Some d \<Rightarrow>
             (case map_option q_url (queue_by_arn d (drained u st)) of
                Some v \<Rightarrow>
                  if map_of (ss_queues (drained u st)) v \<noteq> None
                  then (length ms, push_messages v (map moved_message ms) (drained u st)) else (0, drained u st)
              | None \<Rightarrow> (0, drained u st))
         | None \<Rightarrow> spread targets 0 ms (0, drained u st))"
  unfolding drain_now_def drained_def Let_def ..

lemma region_config_drain: "region_config (snd (drain_now u dest targets st)) = region_config st"
  by (simp add: drain_now_drained Let_def region_config_spread split: option.split)

lemma region_config_start: "region_config (snd (start_in_region env a r src dest rate st)) = region_config st"
  using region_config_drain by (simp add: start_in_region_def Let_def prod.case_eq_if split: sum.split)

lemma region_config_cancel: "region_config (snd (cancel_in_region h st)) = region_config st"
  by (simp add: cancel_in_region_def split: option.split)

lemma region_config_move_one: "region_config (snd (move_one w st)) = region_config st"
  by (simp add: move_one_def split: option.split list.split)

text \<open>What a lookup by ARN finds, and so where a worker moves to, depends on the configuration only.\<close>

lemma queue_by_arn_config:
  assumes "region_config st' = region_config st"
  shows "map_option q_url (queue_by_arn a st') = map_option q_url (queue_by_arn a st)"
proof -
  have f: "map_option q_url (find (\<lambda>q. q_arn q = a) (map snd qs)) =
      map_option (\<lambda>(k, n, u, r, f). u) (find (\<lambda>(k, n, u, r, f). r = a) (map (\<lambda>e. (fst e, queue_config (snd e))) qs))" for qs
    by (induction qs) (auto simp: queue_config_def)
  show ?thesis using assms unfolding queue_by_arn_def f by (simp add: region_config_def)
qed

lemma known_url_config:
  assumes "region_config st' = region_config st"
  shows "map_of (ss_queues st') u = None \<longleftrightarrow> map_of (ss_queues st) u = None"
  using region_config_lookup [OF assms, of u] by (metis option.map_disc_iff)

lemma move_target_config:
  assumes "region_config st' = region_config st"
  shows "move_target w st' = move_target w st"
  unfolding move_target_def queue_by_arn_config [OF assms] known_url_config [OF assms] ..

section \<open>Where the messages are\<close>

lemma payload_moved [simp]: "payload (moved_message m) = payload m"
  by (simp add: moved_message_def)

lemma payloads_moved [simp]: "payloads (map moved_message ms) = payloads ms"
  by (induction ms) simp_all

lemma contents_update:
  assumes "distinct (map fst (ss_queues st))" "map_of (ss_queues st) u = Some q"
  shows "region_contents (st\<lparr>ss_queues := bt_modify u f (ss_queues st)\<rparr>) + contents q = region_contents st + contents (f q)"
  using contents_modify [OF assms] by (simp add: region_contents_def)

lemma region_contents_tasks [simp]:
  "region_contents (modify_task h f st) = region_contents st" "region_contents (push_task t st) = region_contents st"
  by (simp_all add: region_contents_def modify_task_def push_task_def)

lemma region_contents_push:
  assumes "distinct (map fst (ss_queues st))" "map_of (ss_queues st) u \<noteq> None"
  shows "region_contents (push_messages u ms st) = region_contents st + payloads ms"
proof -
  obtain q where "map_of (ss_queues st) u = Some q" using assms(2) by blast
  from contents_update [OF assms(1) this, of "\<lambda>q. q\<lparr>q_messages := q_messages q @ ms\<rparr>"] show ?thesis
    by (simp add: push_messages_def contents_def ac_simps)
qed

lemma region_contents_drained:
  assumes "distinct (map fst (ss_queues st))" "map_of (ss_queues st) u = Some q"
  shows "region_contents (drained u st) + payloads (q_messages q) = region_contents st"
  using contents_update [OF assms, of "\<lambda>q. q\<lparr>q_messages := []\<rparr>"] by (simp add: drained_def contents_def ac_simps)

lemma region_contents_pop:
  assumes "distinct (map fst (ss_queues st))" "map_of (ss_queues st) u = Some q" "q_messages q = m # ms"
  shows "add_mset (payload m) (region_contents (pop_message u st)) = region_contents st"
  using contents_update [OF assms(1,2), of "\<lambda>q. q\<lparr>q_messages := tl (q_messages q)\<rparr>"] assms(3)
  by (simp add: pop_message_def contents_def ac_simps)

lemma keys_config: "region_config st' = region_config st \<Longrightarrow> distinct (map fst (ss_queues st')) = distinct (map fst (ss_queues st))"
  by (drule region_config_keys) simp

lemma move_one_conserves:
  assumes "distinct (map fst (ss_queues st))"
  shows "region_contents (snd (move_one w st)) = region_contents st"
proof (cases "fst (move_one w st) = Moved")
  case True
  then obtain q t m ms where q: "map_of (ss_queues st) (mw_source_url w) = Some q" "q_messages q = m # ms"
    and t: "move_target w st = Some t"
    by (auto simp: move_one_def split: option.splits list.splits)
  let ?st = "pop_message (mw_source_url w) st"
  have "map_of (ss_queues st) t \<noteq> None"
    using t by (auto simp: move_target_def opt_filter_def split: option.splits if_splits)
  then have "region_contents (push_messages t [moved_message m] ?st) = region_contents ?st + payloads [moved_message m]"
    using assms keys_config [OF region_config_pop] known_url_config [OF region_config_pop]
    by (intro region_contents_push) simp_all
  then have "region_contents (push_messages t [moved_message m] ?st) = region_contents st"
    using region_contents_pop [OF assms q] by simp
  then show ?thesis by (simp add: move_one_def q t)
qed (auto simp: move_one_def split: option.splits list.splits)

lemma spread_conserves:
  assumes "distinct (map fst (ss_queues (snd acc)))" "targets \<noteq> []" "\<And>t. t \<in> set targets \<Longrightarrow> map_of (ss_queues (snd acc)) t \<noteq> None"
  shows "region_contents (snd (spread targets i ms acc)) = region_contents (snd acc) + payloads ms \<and>
    fst (spread targets i ms acc) = fst acc + length ms"
  using assms
proof (induction targets i ms acc rule: spread.induct)
  case (2 targets i m ms moved st)
  let ?t = "targets ! (i mod length targets)" let ?st = "push_messages ?t [moved_message m] st"
  have t: "map_of (ss_queues st) ?t \<noteq> None" using 2(2-) by simp
  have "region_contents (snd (spread targets (i + 1) ms (moved + 1, ?st))) = region_contents ?st + payloads ms \<and>
      fst (spread targets (i + 1) ms (moved + 1, ?st)) = moved + 1 + length ms"
    using "2.IH" [OF "2.prems"(2) refl] t 2(2-) keys_config [of ?st st] known_url_config [of ?st st] by simp
  then show ?case
    using t 2(2-) region_contents_push [of st ?t "[moved_message m]"] by (simp add: Let_def)
qed simp

lemma queue_known:
  assumes "region_wf st" "q \<in> set (map snd (ss_queues st))"
  shows "map_of (ss_queues st) (q_url q) = Some q"
proof -
  obtain u where u: "(u, q) \<in> set (ss_queues st)" using assms(2) by auto
  then have "map_of (ss_queues st) u = Some q"
    using region_wf_parts [OF assms(1)] by (simp add: bt_wf_distinct)
  then show ?thesis using region_wf_parts [OF assms(1)] by (auto simp: queue_wf_def)
qed

lemma find_Some_mem: "find p xs = Some x \<Longrightarrow> x \<in> set xs \<and> p x"
  by (induction xs) (auto split: if_splits)

lemma queue_by_arn_known:
  assumes "region_wf st" "queue_by_arn a st = Some q"
  shows "map_of (ss_queues st) (q_url q) = Some q" "q_arn q = a"
  using queue_known [OF assms(1)] find_Some_mem [OF assms(2) [unfolded queue_by_arn_def]] by blast+

lemma dlq_sources_known:
  assumes "region_wf st" "u \<in> set (dlq_sources a st)"
  shows "map_of (ss_queues st) u \<noteq> None"
  using assms queue_known [OF assms(1)] by (auto simp: dlq_sources_def)

text \<open>The targets a move may use: the destination exists, or else there are sources and all exist.\<close>

definition targets_known :: "string option \<Rightarrow> string list \<Rightarrow> sqs_state \<Rightarrow> bool" where
  "targets_known dest targets st \<longleftrightarrow>
     (case dest of
        Some d \<Rightarrow> queue_by_arn d st \<noteq> None
      | None \<Rightarrow> targets \<noteq> [] \<and> list_all (\<lambda>t. map_of (ss_queues st) t \<noteq> None) targets)"

lemma check_move_source:
  assumes "check_move env src dest st = Inr u"
  obtains q where "queue_by_arn src st = Some q" "u = q_url q"
  using assms by (auto simp: check_move_def split: option.splits if_splits)

lemma check_move_targets:
  assumes "region_wf st" "check_move env src dest st = Inr u"
  shows "map_of (ss_queues st) u \<noteq> None" "targets_known dest (dlq_sources src st) st"
proof -
  obtain q where q: "queue_by_arn src st = Some q" "u = q_url q" using check_move_source [OF assms(2)] .
  show "map_of (ss_queues st) u \<noteq> None" using queue_by_arn_known [OF assms(1) q(1)] q(2) by simp
  have "queue_by_arn d st \<noteq> None" if "dest = Some d" for d
    using assms(2) that by (auto simp: check_move_def queue_by_arn_def find_None_iff list_ex_iff split: option.splits if_splits)
  moreover have "dlq_sources src st \<noteq> []"
    using assms(2) by (auto simp: check_move_def split: option.splits if_splits)
  ultimately show "targets_known dest (dlq_sources src st) st"
    using dlq_sources_known [OF assms(1)] by (auto simp: targets_known_def list_all_iff split: option.split)
qed

lemma drain_now_conserves:
  assumes "region_wf st" "map_of (ss_queues st) u = Some q" "targets_known dest targets st"
  shows "region_contents (snd (drain_now u dest targets st)) = region_contents st"
    "fst (drain_now u dest targets st) = length (q_messages q)"
proof -
  let ?st = "drained u st"
  have keys: "distinct (map fst (ss_queues st))" "distinct (map fst (ss_queues ?st))"
    using region_wf_parts [OF assms(1)] keys_config [OF region_config_drained] by (simp_all add: bt_wf_distinct)
  note known = known_url_config [OF region_config_drained [of u st]]
  have all: "region_contents ?st + payloads (q_messages q) = region_contents st"
    by (rule region_contents_drained [OF keys(1) assms(2)])
  have "region_contents (snd (drain_now u dest targets st)) = region_contents st \<and>
      fst (drain_now u dest targets st) = length (q_messages q)"
  proof (cases dest)
    case None
    then show ?thesis
      using spread_conserves [of "(0, ?st)" targets 0 "q_messages q"] keys(2) known assms(3) all
      by (auto simp: drain_now_drained assms(2) targets_known_def list_all_iff)
  next
    case (Some d)
    then obtain p where p: "queue_by_arn d st = Some p" using assms(3) by (auto simp: targets_known_def)
    have v: "map_option q_url (queue_by_arn d ?st) = Some (q_url p)"
      using queue_by_arn_config [OF region_config_drained [of u st], of d] p by simp
    have "map_of (ss_queues ?st) (q_url p) \<noteq> None"
      using known queue_by_arn_known(1) [OF assms(1) p] by simp
    then show ?thesis
      using region_contents_push [OF keys(2), of "q_url p" "map moved_message (q_messages q)"] all
      by (simp add: drain_now_drained assms(2) Some v Let_def)
  qed
  then show "region_contents (snd (drain_now u dest targets st)) = region_contents st"
    "fst (drain_now u dest targets st) = length (q_messages q)" by blast+
qed

lemma start_conserves:
  assumes "region_wf st"
  shows "region_contents (snd (start_in_region env acct rgn src dest rate st)) = region_contents st"
proof (cases "check_move env src dest st")
  case (Inr u)
  then obtain q where "map_of (ss_queues st) u = Some q" using check_move_targets(1) [OF assms] by blast
  from drain_now_conserves(1) [OF assms this check_move_targets(2) [OF assms Inr]] show ?thesis
    by (simp add: start_in_region_def Inr Let_def prod.case_eq_if)
qed (simp add: start_in_region_def)

section \<open>A worker against the immediate move\<close>

text \<open>What a worker leaves: every message of the source pushed to its target, in order.\<close>

fun deliver_all :: "move_worker \<Rightarrow> sqs_message list \<Rightarrow> sqs_state \<Rightarrow> sqs_state" where
  "deliver_all w [] st = st"
| "deliver_all w (m # ms) st =
     deliver_all (advance w) ms (push_messages (the (move_target w st)) [moved_message m] st)"

text \<open>Every target the worker may come to exists and is not its source.\<close>

definition moves_away :: "move_worker \<Rightarrow> sqs_state \<Rightarrow> bool" where
  "moves_away w st \<longleftrightarrow> (\<forall>i. is_some_and (move_target (w\<lparr>mw_idx := i\<rparr>) st) (\<lambda>t. t \<noteq> mw_source_url w))"

definition not_cancelled :: "move_worker \<Rightarrow> sqs_state \<Rightarrow> bool" where
  "not_cancelled w st \<longleftrightarrow> \<not> is_some_and (find (\<lambda>t. mt_handle t = mw_handle w) (ss_move_tasks st)) mt_cancel"

lemma find_modify_first:
  assumes "\<And>x. p (f x) = p x"
  shows "find p (modify_first p f xs) = map_option f (find p xs)"
  by (induction xs) (simp_all add: assms)

lemma modify_first_compose:
  assumes "\<And>x. p (g x) = p x"
  shows "modify_first p f (modify_first p g xs) = modify_first p (\<lambda>x. f (g x)) xs"
  by (induction xs) (simp_all add: assms)

lemma advance_sel [simp]:
  "mw_source_url (advance w) = mw_source_url w" "mw_handle (advance w) = mw_handle w" "mw_final (advance w) = mw_final w"
  "mw_account (advance w) = mw_account w" "mw_region (advance w) = mw_region w"
  "mw_destination (advance w) = mw_destination w" "mw_targets (advance w) = mw_targets w"
  "(advance w)\<lparr>mw_idx := i\<rparr> = w\<lparr>mw_idx := i\<rparr>"
  by (simp_all add: advance_def)

lemma moves_away_config:
  "region_config st' = region_config st \<Longrightarrow> moves_away (advance w) st' = moves_away w st"
  by (simp add: moves_away_def move_target_config [of st' st])

lemma moves_away_target:
  assumes "moves_away w st"
  obtains t where "move_target w st = Some t" "t \<noteq> mw_source_url w"
proof -
  have "is_some_and (move_target (w\<lparr>mw_idx := mw_idx w\<rparr>) st) (\<lambda>t. t \<noteq> mw_source_url w)"
    using assms unfolding moves_away_def by blast
  then show ?thesis using that by (cases "move_target w st") simp_all
qed

lemma deliver_all_queues:
  "ss_queues st = ss_queues st' \<Longrightarrow> ss_queues (deliver_all w ms st) = ss_queues (deliver_all w ms st')"
proof (induction w ms st arbitrary: st' rule: deliver_all.induct)
  case (2 w m ms st)
  have "move_target w st = move_target w st'"
    unfolding move_target_def queue_by_arn_def 2(2) ..
  moreover have "ss_queues (push_messages u ns st) = ss_queues (push_messages u ns st')" for u ns
    unfolding push_messages_def 2(2) by simp
  ultimately show ?case using "2.IH" by simp
qed simp

lemma drained_move:
  assumes "t \<noteq> u"
  shows "ss_queues (drained u (push_messages t ms (pop_message u st))) = ss_queues (push_messages t ms (drained u st))"
  using assms by (auto simp: drained_def push_messages_def pop_message_def bt_modify_def)

lemma run_unfold:
  assumes "regional ms (mw_account w) (mw_region w) = Some st" "not_cancelled w st" "mw_final w = None"
    and "move_one w st = (Moved, st')"
  obtains ms' where "run_message_move_task w ms = run_message_move_task (advance w) ms'"
    "\<And>a r. regional ms' a r = (if a = mw_account w \<and> r = mw_region w then Some st' else regional ms a r)"
proof -
  let ?ms = "regional_modify sqs_ops (mw_account w) (mw_region w) (\<lambda>_. st') ms"
  have "worker_step (cancel_flag w ms) w ms = (Some (advance w), ?ms)"
    using assms by (simp add: worker_step_def cancel_flag_def not_cancelled_def)
  then have "run_message_move_task w ms = run_message_move_task (advance w) ?ms"
    by (subst run_message_move_task.simps) simp
  then show ?thesis using that by (simp add: regional_regional_modify)
qed

lemma run_ends:
  assumes "regional ms (mw_account w) (mw_region w) = Some st" "not_cancelled w st" "mw_final w = None"
    and "move_one w st = (SourceDrained, st)"
  obtains ms' where "run_message_move_task w ms = Some ms'"
    "\<And>a r. regional ms' a r = (if a = mw_account w \<and> r = mw_region w
       then Some (modify_task (mw_handle w) (\<lambda>t. t\<lparr>mt_status := Completed\<rparr>) st) else regional ms a r)"
proof -
  let ?w = "w\<lparr>mw_final := Some Completed\<rparr>"
  let ?ms = "regional_modify sqs_ops (mw_account w) (mw_region w) (\<lambda>_. st) ms"
  let ?ms' = "finalize_move_task (mw_account w) (mw_region w) (mw_handle w) Completed ?ms"
  have "worker_step (cancel_flag w ms) w ms = (Some ?w, ?ms)"
    using assms by (simp add: worker_step_def cancel_flag_def not_cancelled_def)
  moreover have "worker_step (cancel_flag ?w ?ms) ?w ?ms = (None, ?ms')"
    by (simp add: worker_step_def)
  ultimately have "run_message_move_task w ms = Some ?ms'"
    by (simp add: run_message_move_task.simps [of w] run_message_move_task.simps [of ?w])
  then show ?thesis
    using that by (simp add: finalize_move_task_def regional_regional_get_modify regional_regional_modify)
qed

lemma move_one_Moved:
  assumes "map_of (ss_queues st) (mw_source_url w) = Some q" "q_messages q = m # ms" "move_target w st = Some t"
  shows "move_one w st = (Moved, modify_task (mw_handle w) (\<lambda>t. t\<lparr>mt_moved := mt_moved t + 1\<rparr>)
    (push_messages t [moved_message m] (pop_message (mw_source_url w) st)))"
  using assms by (simp add: move_one_def)

definition moved_state :: "move_worker \<Rightarrow> string \<Rightarrow> sqs_message \<Rightarrow> sqs_state \<Rightarrow> sqs_state" where
  "moved_state w t m st = modify_task (mw_handle w) (\<lambda>t. t\<lparr>mt_moved := mt_moved t + 1\<rparr>)
     (push_messages t [moved_message m] (pop_message (mw_source_url w) st))"

lemma moved_state_config [simp]: "region_config (moved_state w t m st) = region_config st"
  by (simp add: moved_state_def)

lemma moved_state_tasks:
  "ss_move_tasks (moved_state w t m st) =
     modify_first (\<lambda>t. mt_handle t = mw_handle w) (\<lambda>t. t\<lparr>mt_moved := mt_moved t + 1\<rparr>) (ss_move_tasks st)"
  by (simp add: moved_state_def modify_task_def push_messages_def pop_message_def)

lemma moved_state_queues: "ss_queues (moved_state w t m st) = ss_queues (push_messages t [moved_message m] (pop_message (mw_source_url w) st))"
  by (simp add: moved_state_def modify_task_def)

lemma moved_state_source:
  assumes "map_of (ss_queues st) (mw_source_url w) = Some q" "t \<noteq> mw_source_url w"
  shows "map_of (ss_queues (moved_state w t m st)) (mw_source_url w) = Some (q\<lparr>q_messages := tl (q_messages q)\<rparr>)"
  using assms by (simp add: moved_state_queues push_messages_def pop_message_def map_of_bt_modify)

lemma bt_modify_same:
  assumes "distinct (map fst m)" "map_of m u = Some v" "f v = v"
  shows "bt_modify u f m = m"
proof -
  have "f v' = v'" if "(u, v') \<in> set m" for v'
    using map_of_is_SomeI [OF assms(1) that] assms(2,3) by simp
  then show ?thesis by (auto simp: bt_modify_def intro!: map_idI)
qed

lemma run_drains:
  assumes "regional ms (mw_account w) (mw_region w) = Some st" "not_cancelled w st" "mw_final w = None"
    and "moves_away w st" "map_of (ss_queues st) (mw_source_url w) = Some q" "distinct (map fst (ss_queues st))"
  shows "\<exists>ms' st'. run_message_move_task w ms = Some ms' \<and> regional ms' (mw_account w) (mw_region w) = Some st' \<and>
    ss_queues st' = ss_queues (deliver_all w (q_messages q) (drained (mw_source_url w) st)) \<and>
    ss_move_tasks st' = modify_first (\<lambda>t. mt_handle t = mw_handle w)
      (\<lambda>t. t\<lparr>mt_moved := mt_moved t + length (q_messages q), mt_status := Completed\<rparr>) (ss_move_tasks st)"
  using assms
proof (induction "q_messages q" arbitrary: w ms st q)
  case Nil
  obtain t where "move_target w st = Some t" using moves_away_target [OF Nil(5)] .
  then have "move_one w st = (SourceDrained, st)" using Nil(1,6) by (simp add: move_one_def)
  then obtain ms' where r: "run_message_move_task w ms = Some ms'"
    and g: "\<And>a r. regional ms' a r = (if a = mw_account w \<and> r = mw_region w
       then Some (modify_task (mw_handle w) (\<lambda>t. t\<lparr>mt_status := Completed\<rparr>) st) else regional ms a r)"
    using run_ends [OF Nil(2-4)] by blast
  have "ss_queues (drained (mw_source_url w) st) = ss_queues st"
    using bt_modify_same [OF Nil(7,6), of "\<lambda>q. q\<lparr>q_messages := []\<rparr>"] Nil(1) by (simp add: drained_def)
  then show ?case
    using r g by (simp add: modify_task_def flip: Nil(1))
next
  case (Cons m msgs)
  obtain t where t: "move_target w st = Some t" "t \<noteq> mw_source_url w" using moves_away_target [OF Cons(6)] .
  let ?st = "moved_state w t m st" and ?q = "q\<lparr>q_messages := tl (q_messages q)\<rparr>"
  have "move_one w st = (Moved, ?st)"
    using move_one_Moved [OF Cons(7) _ t(1)] Cons(2) by (metis moved_state_def)
  then obtain ms' where r: "run_message_move_task w ms = run_message_move_task (advance w) ms'"
    and g: "\<And>a r. regional ms' a r = (if a = mw_account w \<and> r = mw_region w then Some ?st else regional ms a r)"
    using run_unfold [OF Cons(3-5)] by blast
  have live: "not_cancelled (advance w) ?st"
    using Cons(4) by (simp add: not_cancelled_def moved_state_tasks find_modify_first)
      (cases "find (\<lambda>t. mt_handle t = mw_handle w) (ss_move_tasks st)"; simp)
  note qm = Cons(2) [symmetric]
  have tail: "msgs = q_messages ?q" by (simp add: qm)
  have away: "moves_away (advance w) ?st" using Cons(6) moves_away_config [of ?st st w] by simp
  have keys: "distinct (map fst (ss_queues ?st))" using keys_config [of ?st st] Cons(8) by simp
  have reg: "regional ms' (mw_account (advance w)) (mw_region (advance w)) = Some ?st" by (simp add: g)
  have src: "map_of (ss_queues ?st) (mw_source_url (advance w)) = Some ?q"
    using moved_state_source [OF Cons(7) t(2)] by simp
  have fin: "mw_final (advance w) = None" using Cons(5) by simp
  obtain ms'' st' where run: "run_message_move_task (advance w) ms' = Some ms''"
      "regional ms'' (mw_account w) (mw_region w) = Some st'"
    and st': "ss_queues st' = ss_queues (deliver_all (advance w) msgs (drained (mw_source_url w) ?st))"
      "ss_move_tasks st' = modify_first (\<lambda>t. mt_handle t = mw_handle w)
        (\<lambda>t. t\<lparr>mt_moved := mt_moved t + length msgs, mt_status := Completed\<rparr>) (ss_move_tasks ?st)"
    using Cons(1) [OF tail reg live fin away src keys, unfolded advance_sel, folded tail] by blast
  have "ss_queues (drained (mw_source_url w) ?st) =
      ss_queues (push_messages t [moved_message m] (drained (mw_source_url w) st))"
    unfolding drained_move [OF t(2), symmetric] by (simp add: drained_def moved_state_queues)
  from deliver_all_queues [OF this] have "ss_queues st' = ss_queues (deliver_all w (q_messages q) (drained (mw_source_url w) st))"
    unfolding st'(1) qm by (simp add: move_target_config [OF region_config_drained] t(1))
  moreover have "ss_move_tasks st' = modify_first (\<lambda>t. mt_handle t = mw_handle w)
      (\<lambda>t. t\<lparr>mt_moved := mt_moved t + length (q_messages q), mt_status := Completed\<rparr>) (ss_move_tasks st)"
    unfolding st'(2) qm by (simp add: moved_state_tasks modify_first_compose)
  ultimately show ?case unfolding r using run by blast
qed

lemma push_messages_twice: "push_messages u ns (push_messages u ms st) = push_messages u (ms @ ns) st"
proof -
  have "bt_modify u f (bt_modify u g m) = bt_modify u (\<lambda>v. f (g v)) m" for f g and m :: "sqs_queue smap"
    by (simp add: bt_modify_def prod.case_eq_if)
  then show ?thesis by (simp add: push_messages_def)
qed

lemma push_messages_Nil: "push_messages u [] st = st"
  by (simp add: push_messages_def bt_modify_def)

lemma deliver_all_direct:
  assumes "mw_destination w = Some d" "move_target w st = Some u"
  shows "deliver_all w ms st = push_messages u (map moved_message ms) st"
  using assms(2)
proof (induction ms arbitrary: st)
  case (Cons m ms)
  have "advance w = w" using assms(1) by (simp add: advance_def)
  moreover have "move_target w (push_messages u [moved_message m] st) = Some u"
    using move_target_config [OF region_config_push] Cons(2) by simp
  ultimately show ?case using Cons by (simp add: push_messages_twice)
qed (simp add: push_messages_Nil)

lemma deliver_all_spread:
  assumes "mw_destination w = None" "targets_known None (mw_targets w) st"
  shows "deliver_all w ms st = snd (spread (mw_targets w) (mw_idx w) ms (n, st))"
  using assms
proof (induction ms arbitrary: w st n)
  case (Cons m ms)
  let ?t = "mw_targets w ! (mw_idx w mod length (mw_targets w))" let ?st = "push_messages ?t [moved_message m] st"
  have t: "map_of (ss_queues st) ?t \<noteq> None" "mw_targets w \<noteq> []"
    using Cons(3) by (auto simp: targets_known_def list_all_iff)
  have "targets_known None (mw_targets (advance w)) ?st"
    using Cons(3) known_url_config [of ?st st] by (simp add: targets_known_def)
  then have "deliver_all (advance w) ms ?st = snd (spread (mw_targets w) (mw_idx w + 1) ms (n + 1, ?st))"
    using Cons(1) [of "advance w" ?st "n + 1"] Cons(2) by (simp add: advance_def)
  then show ?case using t Cons(2) by (simp add: move_target_def Let_def)
qed simp

lemma deliver_all_drain:
  assumes "region_wf st" "map_of (ss_queues st) (mw_source_url w) = Some q" "mw_idx w = 0"
    and "targets_known (mw_destination w) (mw_targets w) st"
  shows "deliver_all w (q_messages q) (drained (mw_source_url w) st) =
    snd (drain_now (mw_source_url w) (mw_destination w) (mw_targets w) st)"
proof (cases "mw_destination w")
  case None
  have "targets_known None (mw_targets w) (drained (mw_source_url w) st)"
    using assms(4) None known_url_config [OF region_config_drained] by (simp add: targets_known_def)
  from deliver_all_spread [OF None this] show ?thesis
    using None assms(2,3) by (simp add: drain_now_drained)
next
  case (Some d)
  let ?st = "drained (mw_source_url w) st"
  obtain p where p: "queue_by_arn d st = Some p" using assms(4) Some by (auto simp: targets_known_def)
  have v: "map_option q_url (queue_by_arn d ?st) = Some (q_url p)"
    using queue_by_arn_config [OF region_config_drained [of "mw_source_url w" st], of d] p by simp
  have k: "map_of (ss_queues ?st) (q_url p) \<noteq> None"
    using known_url_config [OF region_config_drained] queue_by_arn_known(1) [OF assms(1) p] by simp
  have "move_target w ?st = Some (q_url p)" using k Some by (simp only: move_target_def option.case v) simp
  from deliver_all_direct [OF Some this] show ?thesis
    using k Some assms(2) by (simp add: drain_now_drained v Let_def)
qed

text \<open>A move away from the source: neither the destination nor a queue it would spread over is the source.\<close>

definition leaves_source :: "string \<Rightarrow> string option \<Rightarrow> sqs_state \<Rightarrow> bool" where
  "leaves_source src dest st \<longleftrightarrow>
     (case dest of Some d \<Rightarrow> d \<noteq> src | None \<Rightarrow> map_option q_url (queue_by_arn src st) \<notin> Some ` set (dlq_sources src st))"

lemma leaves_source_away:
  assumes "region_wf st" "queue_by_arn src st = Some q" "leaves_source src dest st"
    and "targets_known dest (dlq_sources src st) st"
    and "mw_destination w = dest" "mw_targets w = dlq_sources src st" "mw_source_url w = q_url q"
  shows "moves_away w st"
proof (cases dest)
  case None
  have "is_some_and (move_target (w\<lparr>mw_idx := i\<rparr>) st) (\<lambda>t. t \<noteq> mw_source_url w)" for i
  proof -
    let ?t = "dlq_sources src st ! (i mod length (dlq_sources src st))"
    have ne: "dlq_sources src st \<noteq> []" using assms(4) None by (simp add: targets_known_def)
    then have t: "?t \<in> set (dlq_sources src st)" by simp
    moreover have "map_of (ss_queues st) ?t \<noteq> None"
      using assms(4) None t unfolding targets_known_def list_all_iff by simp
    moreover have "?t \<noteq> q_url q" using assms(2,3) None t by (force simp: leaves_source_def)
    ultimately show ?thesis using assms(5-7) None ne by (simp add: move_target_def)
  qed
  then show ?thesis unfolding moves_away_def by blast
next
  case (Some d)
  then obtain p where p: "queue_by_arn d st = Some p" using assms(4) by (auto simp: targets_known_def)
  have "q_url p \<noteq> q_url q"
  proof
    assume eq: "q_url p = q_url q"
    have "Some p = Some q"
      using queue_by_arn_known(1) [OF assms(1) p] unfolding eq queue_by_arn_known(1) [OF assms(1,2)] by (rule sym)
    then have "d = src"
      using queue_by_arn_known(2) [OF assms(1) p] queue_by_arn_known(2) [OF assms(1,2)] by blast
    then show False using assms(3) Some by (simp add: leaves_source_def)
  qed
  then show ?thesis
    using queue_by_arn_known(1) [OF assms(1) p] p Some assms(5,7) by (simp add: moves_away_def move_target_def)
qed

lemma modify_first_last:
  assumes "\<forall>x\<in>set xs. \<not> p x" "p y"
  shows "modify_first p f (xs @ [y]) = xs @ [f y]"
  using assms by (induction xs) simp_all

lemma find_append_none: "\<forall>x\<in>set xs. \<not> p x \<Longrightarrow> find p (xs @ ys) = find p ys"
  by (induction xs) simp_all

lemma drain_now_tasks: "ss_move_tasks (snd (drain_now u dest targets st)) = ss_move_tasks st"
proof -
  have "ss_move_tasks (snd (spread targets i ms acc)) = ss_move_tasks (snd acc)" for i ms acc
    by (induction targets i ms acc rule: spread.induct) (simp_all add: Let_def push_messages_def)
  then show ?thesis by (simp add: drain_now_drained Let_def drained_def push_messages_def split: option.split)
qed

lemma start_throttled:
  assumes "start_in_region env acct rgn src dest (Some n) st = (Inr (h, Some w), st1)"
  obtains q where "queue_by_arn src st = Some q" "check_move env src dest st = Inr (q_url q)"
    "w = \<lparr>mw_account = acct, mw_region = rgn, mw_handle = h, mw_source_url = q_url q, mw_destination = dest,
       mw_targets = dlq_sources src st, mw_idx = 0, mw_final = None\<rparr>"
    "h = ''FakeCloudMessageMoveTask-'' @ filter (\<lambda>c. c \<noteq> CHR ''-'') (uuid env 0)"
    "st1 = push_task (new_task env h src dest (Some n) Running 0
       (case map_of (ss_queues st) (q_url q) of Some q \<Rightarrow> length (q_messages q) | None \<Rightarrow> 0)) st"
proof -
  obtain u where u: "check_move env src dest st = Inr u"
    using assms by (cases "check_move env src dest st") (simp_all add: start_in_region_def)
  obtain q where q: "queue_by_arn src st = Some q" "u = q_url q" using check_move_source [OF u] .
  show ?thesis
    by (rule that [OF q(1) u [unfolded q(2)]]) (use assms in \<open>auto simp: start_in_region_def u q(2) Let_def\<close>)
qed

lemma throttled_equals_immediate:
  assumes wf: "region_wf st" and start: "start_in_region env acct rgn src dest (Some n) st = (Inr (h, Some w), st1)"
    and ms: "regional ms acct rgn = Some st1" and fresh: "\<forall>t\<in>set (ss_move_tasks st). mt_handle t \<noteq> h"
    and leaves: "leaves_source src dest st"
  shows "\<exists>ms' st' st2. run_message_move_task w ms = Some ms' \<and> regional ms' acct rgn = Some st' \<and>
    start_in_region env acct rgn src dest None st = (Inr (h, None), st2) \<and> ss_queues st' = ss_queues st2 \<and>
    ss_move_tasks st' = map (\<lambda>t. if mt_handle t = h then t\<lparr>mt_max_per_second := Some n\<rparr> else t) (ss_move_tasks st2)"
proof -
  obtain q where arn: "queue_by_arn src st = Some q" and check: "check_move env src dest st = Inr (q_url q)"
    and w: "w = \<lparr>mw_account = acct, mw_region = rgn, mw_handle = h, mw_source_url = q_url q, mw_destination = dest,
       mw_targets = dlq_sources src st, mw_idx = 0, mw_final = None\<rparr>"
    and h: "h = ''FakeCloudMessageMoveTask-'' @ filter (\<lambda>c. c \<noteq> CHR ''-'') (uuid env 0)"
    and st1: "st1 = push_task (new_task env h src dest (Some n) Running 0
       (case map_of (ss_queues st) (q_url q) of Some q \<Rightarrow> length (q_messages q) | None \<Rightarrow> 0)) st"
    using start_throttled [OF start] .
  have q: "map_of (ss_queues st) (q_url q) = Some q" by (rule queue_by_arn_known [OF wf arn])
  have known: "targets_known dest (dlq_sources src st) st" by (rule check_move_targets [OF wf check])
  have conf: "region_config st1 = region_config st" by (simp add: st1)
  have away: "moves_away w st1"
    using leaves_source_away [OF wf arn leaves known, of w] move_target_config [OF conf]
    by (simp add: w moves_away_def)
  have qs: "ss_queues st1 = ss_queues st" by (simp add: st1 push_task_def)
  have live: "not_cancelled w st1"
  proof -
    have "find (\<lambda>t. mt_handle t = h) (ss_move_tasks st @ [t]) = find (\<lambda>t. mt_handle t = h) [t]" for t
      using fresh by (rule find_append_none)
    then show ?thesis by (simp add: not_cancelled_def w st1 push_task_def new_task_def)
  qed
  have sel: "mw_account w = acct" "mw_region w = rgn" "mw_handle w = h" "mw_source_url w = q_url q" "mw_final w = None"
    by (simp_all add: w)
  have keys: "distinct (map fst (ss_queues st1))"
    using region_wf_parts [OF wf] by (simp add: qs bt_wf_distinct)
  obtain ms' st' where run: "run_message_move_task w ms = Some ms'" "regional ms' acct rgn = Some st'"
    and st': "ss_queues st' = ss_queues (deliver_all w (q_messages q) (drained (q_url q) st1))"
      "ss_move_tasks st' = modify_first (\<lambda>t. mt_handle t = h)
         (\<lambda>t. t\<lparr>mt_moved := mt_moved t + length (q_messages q), mt_status := Completed\<rparr>) (ss_move_tasks st1)"
    using run_drains [OF _ live _ away _ keys, unfolded sel] ms q [folded qs] by blast
  let ?d = "drain_now (q_url q) dest (dlq_sources src st) st"
  have "ss_queues st' = ss_queues (snd ?d)"
    using deliver_all_drain [OF wf, of w q] q known deliver_all_queues [of "drained (q_url q) st1" "drained (q_url q) st" w]
    by (simp add: st'(1) w drained_def qs)
  moreover have "start_in_region env acct rgn src dest None st =
      (Inr (h, None), push_task (new_task env h src dest None Completed (length (q_messages q)) (length (q_messages q))) (snd ?d))"
    using drain_now_conserves(2) [OF wf q known] by (simp add: start_in_region_def check q h Let_def prod.case_eq_if)
  moreover have "ss_move_tasks (snd ?d) = ss_move_tasks st" by (rule drain_now_tasks)
  ultimately show ?thesis using run fresh
    by (auto simp: push_task_def st'(2) st1 q modify_first_last new_task_def intro!: map_idI [symmetric])
qed

section \<open>A worker whose destination is its source\<close>

definition chases_itself :: "move_worker \<Rightarrow> sqs_store \<Rightarrow> bool" where
  "chases_itself w ms \<longleftrightarrow>
     mw_final w = None \<and> mw_destination w \<noteq> None \<and>
     is_some_and (regional ms (mw_account w) (mw_region w)) (\<lambda>st.
       not_cancelled w st \<and> move_target w st = Some (mw_source_url w) \<and>
       is_some_and (map_of (ss_queues st) (mw_source_url w)) (\<lambda>q. q_messages q \<noteq> []))"

lemma chase_goes_on:
  assumes "chases_itself w ms"
  obtains ms' where "worker_step (cancel_flag w ms) w ms = (Some w, ms')" "chases_itself w ms'"
proof -
  let ?u = "mw_source_url w"
  obtain st where st: "regional ms (mw_account w) (mw_region w) = Some st" "not_cancelled w st"
    "move_target w st = Some ?u"
    and "is_some_and (map_of (ss_queues st) ?u) (\<lambda>q. q_messages q \<noteq> [])"
    using assms unfolding chases_itself_def by (cases "regional ms (mw_account w) (mw_region w)") simp_all
  then obtain q m ns where q: "map_of (ss_queues st) ?u = Some q" "q_messages q = m # ns"
    by (cases "map_of (ss_queues st) ?u") (auto simp: neq_Nil_conv)
  have w: "mw_final w = None" "mw_destination w \<noteq> None" "advance w = w"
    using assms by (auto simp: chases_itself_def advance_def)
  let ?st = "moved_state w ?u m st"
  let ?ms = "regional_modify sqs_ops (mw_account w) (mw_region w) (\<lambda>_. ?st) ms"
  have "move_one w st = (Moved, ?st)" using move_one_Moved [OF q st(3)] by (simp add: moved_state_def)
  then have step: "worker_step (cancel_flag w ms) w ms = (Some w, ?ms)"
    using st w by (simp add: worker_step_def cancel_flag_def not_cancelled_def)
  have "not_cancelled w ?st"
    using st(2) by (simp add: not_cancelled_def moved_state_tasks find_modify_first)
      (cases "find (\<lambda>t. mt_handle t = mw_handle w) (ss_move_tasks st)"; simp)
  moreover have "move_target w ?st = Some ?u" using move_target_config [OF moved_state_config] st(3) by simp
  moreover have "map_of (ss_queues ?st) ?u = Some (q\<lparr>q_messages := ns @ [moved_message m]\<rparr>)"
    using q by (simp add: moved_state_queues push_messages_def pop_message_def map_of_bt_modify)
  ultimately have "chases_itself w ?ms"
    using w by (simp add: chases_itself_def regional_regional_modify)
  then show ?thesis using that step by blast
qed

lemma chase_never_ends:
  assumes "chases_itself w ms"
  shows "run_message_move_task w ms = None"
proof (rule ccontr)
  assume "run_message_move_task w ms \<noteq> None"
  then obtain r where r: "run_message_move_task w ms = Some r" by blast
  have "\<not> chases_itself w ms"
  proof (rule run_message_move_task.raw_induct [where P = "\<lambda>w ms r. \<not> chases_itself w ms", OF _ r], rule notI)
    fix run w ms r
    assume IH: "\<And>w ms r. run w ms = Some r \<Longrightarrow> \<not> chases_itself w ms"
      and body: "(case worker_step (cancel_flag w ms) w ms of (None, ms') \<Rightarrow> Some ms' | (Some w', ms') \<Rightarrow> run w' ms') = Some r"
      and chase: "chases_itself w ms"
    obtain ms' where "worker_step (cancel_flag w ms) w ms = (Some w, ms')" "chases_itself w ms'"
      using chase_goes_on [OF chase] .
    then show False using IH [of w ms' r] body by simp
  qed
  then show False using assms by blast
qed

end
