(* ===== verification/Sqs_Delivery.thy ===== *)
theory Sqs_Delivery
  imports Sqs_Moves
begin

text \<open>
  Changes to queues that no queue request makes: messages other services deliver
  (\<^verbatim>\<open>fakecloud-sqs/src/delivery.rs\<close>) and the simulation endpoints that expire messages and force them
  to the dead-letter queue (\<^verbatim>\<open>simulation.rs\<close>). The flag that asks for a snapshot after a delivery is in
  \<open>Sqs_Service\<close>; the log lines are left out.

  The lemmas show that none of them touches the configuration of a region, what each does to the
  messages, and that a queue's URL is resolved back to its ARN.
\<close>

section \<open>Deliveries\<close>

record delivery_attribute =
  da_data_type :: string
  da_string_value :: "string option"
  da_binary_value :: "string option"

datatype delivery_error =
  QueueNotFound string | InvalidArn string | InvalidParameter string | DeliveryDenied string | TargetUnavailable string

definition arn_in :: "string \<Rightarrow> sqs_state \<Rightarrow> string option" where
  "arn_in name st =
     Option.bind (map_of (ss_name_to_url st) name) (\<lambda>url. map_option q_arn (map_of (ss_queues st) url))"

definition queue_arn_for_url :: "sqs_store \<Rightarrow> string \<Rightarrow> string \<Rightarrow> string option" where
  "queue_arn_for_url ms rgn queue_url =
     (case rev (split_char (trim_end_matches queue_url ''/'') (CHR ''/'')) of
        name # account # _ \<Rightarrow>
          if name = [] \<or> account = [] then None
          else
            (case Option.bind (regional ms account rgn) (arn_in name) of
               Some a \<Rightarrow> Some a
             | None \<Rightarrow>
                 Option.bind (multi_get ms account) (\<lambda>rs.
                   (case List.map_filter (\<lambda>(_, st). arn_in name st) (regions rs) of
                      [only] \<Rightarrow> Some only
                    | _ \<Rightarrow> None)))
      | _ \<Rightarrow> None)"

definition delivered_attributes :: "sqs_env \<Rightarrow> (string \<times> delivery_attribute) list \<Rightarrow> message_attribute smap" where
  "delivered_attributes env attrs =
     fold (\<lambda>(k, v). bt_insert k
       \<lparr>ma_data_type = da_data_type v, ma_string_value = da_string_value v,
        ma_binary_value = Option.bind (da_binary_value v) (b64_decode env)\<rparr>) attrs []"

definition delivery_body :: "sqs_env \<Rightarrow> string \<Rightarrow> string \<Rightarrow> sqs_queue \<Rightarrow> string \<Rightarrow> delivery_error + string" where
  "delivery_body env acct rgn q body =
     (case (map_of (q_attributes q) ''KmsMasterKeyId'', kms env) of
        (Some key, Some hook) \<Rightarrow>
          if key \<noteq> []
          then (case kms_encrypt hook acct rgn key body ''sqs.amazonaws.com'' (encryption_context (q_arn q)) of
                  Inr envelope \<Rightarrow> Inr envelope
                | Inl e \<Rightarrow> Inl (InvalidParameter (''SQS SSE-KMS encrypt failed for '' @ q_arn q @ '': '' @ e)))
          else Inr body
      | _ \<Rightarrow> Inr body)"

text \<open>The sequence counter is taken before the body is encrypted, and stays taken where that fails.\<close>

definition deliver_into ::
  "sqs_env \<Rightarrow> string \<Rightarrow> string \<Rightarrow> string \<Rightarrow> (string \<times> delivery_attribute) list \<Rightarrow> string option \<Rightarrow> string option \<Rightarrow>
   sqs_queue \<Rightarrow> (delivery_error + unit) \<times> sqs_queue" where
  "deliver_into env acct rgn body attrs grp dedup q =
     (if q_is_fifo q \<and> dedup = None \<and> \<not> content_based_dedup q
      then (Inl (InvalidParameter
             (''FIFO queue '' @ q_arn q @ '' requires MessageDeduplicationId or ContentBasedDeduplication=true'')), q)
      else
        (let eff = (if dedup \<noteq> None then dedup else if q_is_fifo q then Some (sha256_hex env body) else None);
             seq = (if q_is_fifo q then Some (format_sequence_number (q_next_sequence_number q)) else None);
             q1 = (if q_is_fifo q
                   then q\<lparr>q_next_sequence_number := min (2 ^ 64 - 1) (q_next_sequence_number q + 1)\<rparr> else q)
         in case delivery_body env acct rgn q body of
              Inl e \<Rightarrow> (Inl e, q1)
            | Inr stored \<Rightarrow>
                (Inr (), q1\<lparr>q_messages := q_messages q1 @
                   [\<lparr>m_id = uuid env 0, m_receipt_handle = None, m_body = stored, m_md5_of_body = md5_hex env body,
                     m_sent_timestamp = timestamp_millis (now env), m_attributes = [],
                     m_message_attributes = delivered_attributes env attrs, m_visible_at = None, m_receive_count = 0,
                     m_first_received_at = None, m_group = grp, m_dedup = eff, m_created_at = now env,
                     m_sequence_number = seq\<rparr>]\<rparr>)))"

text \<open>\<^verbatim>\<open>values_mut().find(|q| q.arn == arn)\<close> and a write through it.\<close>

definition modify_by_arn :: "string \<Rightarrow> (sqs_queue \<Rightarrow> sqs_queue) \<Rightarrow> sqs_state \<Rightarrow> sqs_state" where
  "modify_by_arn a f st =
     st\<lparr>ss_queues := modify_first (\<lambda>e. q_arn (snd e) = a) (\<lambda>e. (fst e, f (snd e))) (ss_queues st)\<rparr>"

definition try_deliver_to_queue_with_attrs ::
  "sqs_env \<Rightarrow> string \<Rightarrow> string \<Rightarrow> (string \<times> delivery_attribute) list \<Rightarrow> string option \<Rightarrow> string option \<Rightarrow>
   sqs_store \<Rightarrow> (delivery_error + unit) \<times> sqs_store" where
  "try_deliver_to_queue_with_attrs env queue_arn body attrs grp dedup ms =
     (case (account_of queue_arn, region_of queue_arn) of
        (Some acct, Some rgn) \<Rightarrow>
          (case Option.bind (regional ms acct rgn) (queue_by_arn queue_arn) of
             None \<Rightarrow> (Inl (QueueNotFound queue_arn), ms)
           | Some q \<Rightarrow>
               (let (r, q') = deliver_into env acct rgn body attrs grp dedup q
                in (r, regional_get_modify acct rgn (modify_by_arn queue_arn (\<lambda>_. q')) ms)))
      | _ \<Rightarrow> (Inl (InvalidArn queue_arn), ms))"

definition deliver_to_queue_with_attrs ::
  "sqs_env \<Rightarrow> string \<Rightarrow> string \<Rightarrow> (string \<times> delivery_attribute) list \<Rightarrow> string option \<Rightarrow> string option \<Rightarrow>
   sqs_store \<Rightarrow> sqs_store" where
  "deliver_to_queue_with_attrs env queue_arn body attrs grp dedup ms =
     snd (try_deliver_to_queue_with_attrs env queue_arn body attrs grp dedup ms)"

definition deliver_to_queue :: "sqs_env \<Rightarrow> string \<Rightarrow> string \<Rightarrow> (string \<times> string) list \<Rightarrow> sqs_store \<Rightarrow> sqs_store" where
  "deliver_to_queue env queue_arn body attributes ms =
     deliver_to_queue_with_attrs env queue_arn body [] None None ms"

section \<open>Simulation\<close>

definition message_count :: "sqs_queue \<Rightarrow> nat" where
  "message_count q = length (q_messages q) + length (q_inflight q)"

definition expire_region :: "int \<Rightarrow> sqs_state \<Rightarrow> nat \<times> sqs_state" where
  "expire_region t st =
     (let qs = map (\<lambda>(url, q). (url, expire_retention t q)) (ss_queues st)
      in (sum_list (map (\<lambda>(url, q). message_count q - message_count (expire_retention t q)) (ss_queues st)),
          st\<lparr>ss_queues := qs\<rparr>))"

definition tick_expiration :: "int \<Rightarrow> sqs_store \<Rightarrow> nat \<times> sqs_store" where
  "tick_expiration t ms =
     (sum_list (map (\<lambda>(acct, rgn, st). fst (expire_region t st)) (iter_regional ms)),
      iter_regional_mut (\<lambda>acct rgn st. snd (expire_region t st)) ms)"

text \<open>
  The dead-letter queue is written through its own URL; \<open>region_wf\<close> is what makes the code's
  \<^verbatim>\<open>unwrap\<close> of that lookup safe.
\<close>

definition force_dlq_in :: "string \<Rightarrow> sqs_state \<Rightarrow> nat \<times> sqs_state" where
  "force_dlq_in queue_name st =
     (case map_of (ss_name_to_url st) queue_name of
        None \<Rightarrow> (0, st)
      | Some url \<Rightarrow>
     (case map_of (ss_queues st) url of
        None \<Rightarrow> (0, st)
      | Some q \<Rightarrow>
     (case q_redrive_policy q of
        None \<Rightarrow> (0, st)
      | Some rp \<Rightarrow>
     (case map_option q_url (queue_by_arn (rd_target_arn rp) st) of
        None \<Rightarrow> (0, st)
      | Some dlq_url \<Rightarrow>
          (let spent = (\<lambda>m. rd_max_receive_count rp \<le> m_receive_count m);
               to_move = filter spent (q_messages q) @ filter spent (q_inflight q);
               q' = q\<lparr>q_messages := filter (\<lambda>m. \<not> spent m) (q_messages q),
                      q_inflight := filter (\<lambda>m. \<not> spent m) (q_inflight q)\<rparr>
           in (length to_move, push_messages dlq_url (map clear_receipt to_move) (set_queue url q' st)))))))"

definition force_dlq :: "string \<Rightarrow> string \<Rightarrow> string \<Rightarrow> sqs_store \<Rightarrow> nat \<times> sqs_store" where
  "force_dlq acct rgn queue_name ms =
     (case regional ms acct rgn of
        None \<Rightarrow> (0, ms)
      | Some st \<Rightarrow>
          (fst (force_dlq_in queue_name st), regional_get_modify acct rgn (\<lambda>st. snd (force_dlq_in queue_name st)) ms))"

section \<open>What deliveries and the simulation keep\<close>

lemma region_config_modify_by_arn:
  assumes "queue_by_arn a st = Some q" "queue_config q' = queue_config q"
  shows "region_config (modify_by_arn a (\<lambda>_. q') st) = region_config st"
proof -
  have "find (\<lambda>q. q_arn q = a) (map snd qs) = Some q \<Longrightarrow>
      map (\<lambda>e. (fst e, queue_config (snd e))) (modify_first (\<lambda>e. q_arn (snd e) = a) (\<lambda>e. (fst e, q')) qs) =
      map (\<lambda>e. (fst e, queue_config (snd e))) qs" for qs
    using assms(2) by (induction qs) (auto split: if_splits)
  then show ?thesis using assms(1) by (simp add: region_config_def modify_by_arn_def queue_by_arn_def)
qed

lemma deliver_into_config: "queue_config (snd (deliver_into env acct rgn body attrs grp dedup q)) = queue_config q"
  by (simp add: deliver_into_def Let_def split: sum.split)

lemma region_config_expire: "region_config (snd (expire_region t st)) = region_config st"
  by (auto simp: region_config_def expire_region_def Let_def expire_retention_def)

lemma force_dlq_in_cases:
  obtains "force_dlq_in name st = (0, st)"
  | url q rp p where "map_of (ss_name_to_url st) name = Some url" "map_of (ss_queues st) url = Some q"
    "q_redrive_policy q = Some rp" "queue_by_arn (rd_target_arn rp) st = Some p"
    "force_dlq_in name st =
       (let spent = (\<lambda>m. rd_max_receive_count rp \<le> m_receive_count m);
            to_move = filter spent (q_messages q) @ filter spent (q_inflight q)
        in (length to_move, push_messages (q_url p) (map clear_receipt to_move) (set_queue url
             (q\<lparr>q_messages := filter (\<lambda>m. \<not> spent m) (q_messages q),
                q_inflight := filter (\<lambda>m. \<not> spent m) (q_inflight q)\<rparr>) st)))"
proof (cases "map_of (ss_name_to_url st) name")
  case (Some url)
  note url = this
  show ?thesis
  proof (cases "map_of (ss_queues st) url")
    case (Some q)
    note q = this
    show ?thesis
    proof (cases "q_redrive_policy q")
      case (Some rp)
      note rp = this
      show ?thesis
      proof (cases "queue_by_arn (rd_target_arn rp) st")
        case (Some p)
        show ?thesis by (rule that(2) [OF url q rp Some]) (simp add: force_dlq_in_def url q rp Some Let_def)
      qed (rule that(1), simp add: force_dlq_in_def url q rp)
    qed (rule that(1), simp add: force_dlq_in_def url q)
  qed (rule that(1), simp add: force_dlq_in_def url)
qed (rule that(1), simp add: force_dlq_in_def)

lemma region_config_force:
  assumes "distinct (map fst (ss_queues st))"
  shows "region_config (snd (force_dlq_in name st)) = region_config st"
proof (cases rule: force_dlq_in_cases [of name st])
  case (2 url q rp p)
  then show ?thesis using assms by (simp add: Let_def region_config_set_queue)
qed simp

lemma region_config_resume_task:
  "region_config (snd (resume_task pid acct t (ws, st))) = region_config st"
  by (simp add: resume_task_def split: option.split)

lemma region_config_resume: "region_config (snd (resume_region pid acct st)) = region_config st"
proof -
  have "region_config (snd (fold (resume_task pid acct) ts acc)) = region_config (snd acc)" for ts acc
  proof (induction ts arbitrary: acc)
    case (Cons t ts)
    then show ?case using region_config_resume_task [of pid acct t "fst acc" "snd acc"] by simp
  qed simp
  from this [of _ "([], st)"] show ?thesis by (simp add: resume_region_def)
qed

context region_invariant
begin

lemma everywhere_map:
  assumes "everywhere rinv ms" "\<And>a r st. rinv st \<Longrightarrow> region_config (f a r st) = region_config st"
  shows "everywhere rinv (iter_regional_mut f ms)"
  unfolding everywhere_def regional_iter_regional_mut
proof (intro allI impI)
  fix a r st'
  assume "map_option (f a r) (regional ms a r) = Some st'"
  then obtain st where st: "regional ms a r = Some st" "st' = f a r st" by blast
  then have "rinv st" "ss_region st = r" using assms(1) by (auto simp: everywhere_def)
  then show "ss_region st' = r \<and> rinv st'"
    using assms(2) rinv_config config_sels st(2) by metis
qed

lemma everywhere_get_modify:
  assumes "everywhere rinv ms"
    and "\<And>st. regional ms a r = Some st \<Longrightarrow> rinv st \<Longrightarrow> region_config (f st) = region_config st"
  shows "everywhere rinv (regional_get_modify a r f ms)"
  unfolding everywhere_def regional_regional_get_modify
proof (intro allI impI)
  fix a' r' st'
  assume st': "(if a' = a \<and> r' = r then map_option f (regional ms a r) else regional ms a' r') = Some st'"
  show "ss_region st' = r' \<and> rinv st'"
  proof (cases "a' = a \<and> r' = r")
    case True
    then obtain st where st: "regional ms a r = Some st" "st' = f st" using st' by auto
    then have "rinv st" "ss_region st = r" using assms(1) by (auto simp: everywhere_def)
    then show ?thesis using assms(2) [OF st(1)] rinv_config config_sels st(2) True by metis
  next
    case False
    then show ?thesis using st' assms(1) by (auto simp: everywhere_def)
  qed
qed

lemma deliver_keeps:
  assumes "everywhere rinv ms"
  shows "everywhere rinv (snd (try_deliver_to_queue_with_attrs env a body attrs grp dedup ms))"
proof -
  have "everywhere rinv (regional_get_modify acct rgn (modify_by_arn a (\<lambda>_. snd (deliver_into env acct rgn body attrs grp dedup q))) ms)"
    if "Option.bind (regional ms acct rgn) (queue_by_arn a) = Some q" for acct rgn q
    using that region_config_modify_by_arn [OF _ deliver_into_config]
    by (intro everywhere_get_modify assms) (auto simp: bind_eq_Some_conv)
  then show ?thesis
    using assms by (auto simp: try_deliver_to_queue_with_attrs_def prod.case_eq_if split: option.split)
qed

lemma tick_keeps: "everywhere rinv ms \<Longrightarrow> everywhere rinv (snd (tick_expiration t ms))"
  unfolding tick_expiration_def snd_conv by (rule everywhere_map) (auto simp: region_config_expire)

lemma force_keeps: "everywhere rinv ms \<Longrightarrow> everywhere rinv (snd (force_dlq acct rgn name ms))"
  using everywhere_get_modify [of ms acct rgn "\<lambda>st. snd (force_dlq_in name st)"] rinv_distinct
  by (auto simp: force_dlq_def region_config_force split: option.split)

lemma resume_keeps: "everywhere rinv ms \<Longrightarrow> everywhere rinv (snd (resume_message_move_tasks pid ms))"
  unfolding resume_message_move_tasks_def snd_conv by (rule everywhere_map) (auto simp: region_config_resume)

lemma finalize_keeps: "everywhere rinv ms \<Longrightarrow> everywhere rinv (finalize_move_task acct rgn h status ms)"
  unfolding finalize_move_task_def by (rule everywhere_get_modify) simp_all

lemma everywhere_update:
  assumes "everywhere rinv ms" "\<And>st. rinv st \<Longrightarrow> region_config (f st) = region_config st"
  shows "everywhere rinv (regional_modify sqs_ops a r (\<lambda>_. f (unwrap_or (regional ms a r) (fresh_region sqs_ops a r ms))) ms)"
proof -
  have "keeps rinv (with_region a r (\<lambda>st. (Inr (), f st)))"
  proof (rule keeps_with_region)
    show "region_keeps r rinv (\<lambda>st. (Inr (), f st))"
      unfolding region_keeps_def using assms(2) rinv_config config_sels by (metis snd_conv)
  qed
  then show ?thesis using assms(1) by (simp add: keeps_def with_region_def)
qed

lemma worker_keeps: "everywhere rinv ms \<Longrightarrow> everywhere rinv (snd (worker_step cancelled w ms))"
  using everywhere_update [of ms "\<lambda>st. snd (move_one w st)"] finalize_keeps
  by (auto simp: worker_step_def Let_def prod.case_eq_if region_config_move_one split: option.split move_step.split)

end

section \<open>What they do to the messages\<close>

lemma force_dlq_conserves:
  assumes "region_wf st"
  shows "region_contents (snd (force_dlq_in name st)) = region_contents st"
proof (cases rule: force_dlq_in_cases [of name st])
  case (2 url q rp p)
  let ?s = "\<lambda>m. rd_max_receive_count rp \<le> m_receive_count m"
  let ?q = "q\<lparr>q_messages := filter (\<lambda>m. \<not> ?s m) (q_messages q), q_inflight := filter (\<lambda>m. \<not> ?s m) (q_inflight q)\<rparr>"
  let ?st = "set_queue url ?q st" and ?ms = "filter ?s (q_messages q) @ filter ?s (q_inflight q)"
  have keys: "distinct (map fst (ss_queues st))" using region_wf_parts [OF assms] by (simp add: bt_wf_distinct)
  have "map_of (ss_queues ?st) (q_url p) \<noteq> None"
    using queue_by_arn_known(1) [OF assms 2(4)] 2(2) by (simp add: map_of_set_queue)
  then have pushed: "region_contents (push_messages (q_url p) (map clear_receipt ?ms) ?st) = region_contents ?st + payloads ?ms"
    using region_contents_push [of ?st "q_url p" "map clear_receipt ?ms"] keys by simp
  have "contents ?q + payloads ?ms + {#} = contents q"
    using payloads_partition [of ?s "q_messages q"] payloads_partition [of ?s "q_inflight q"]
    by (simp add: contents_def ac_simps)
  from mset_balance [OF pushed region_contents_set_queue [OF keys 2(2)] this] show ?thesis
    by (simp add: 2(5) Let_def)
qed simp

lemma size_payloads: "size (payloads ms) = length ms"
  by (simp add: payloads_def)

lemma expire_region_contents:
  "region_contents (snd (expire_region t st)) + sum_list (map (\<lambda>e. past_retention t (snd e)) (ss_queues st)) =
     region_contents st"
  "fst (expire_region t st) = size (sum_list (map (\<lambda>e. past_retention t (snd e)) (ss_queues st)))"
proof -
  have "sum_list (map (\<lambda>e. contents (snd e)) (map (\<lambda>(url, q). (url, expire_retention t q)) qs)) +
      sum_list (map (\<lambda>e. past_retention t (snd e)) qs) = sum_list (map (\<lambda>e. contents (snd e)) qs)" for qs :: "sqs_queue smap"
  proof (induction qs)
    case (Cons e qs)
    have swap: "(a + as) + (b + bs) = (a + b) + (as + bs)" for a as b bs :: "sqs_message multiset"
      by (simp add: ac_simps)
    show ?case using Cons by (simp add: prod.case_eq_if comp_def swap contents_expire_retention)
  qed simp
  then show "region_contents (snd (expire_region t st)) + sum_list (map (\<lambda>e. past_retention t (snd e)) (ss_queues st)) =
      region_contents st"
    by (simp add: region_contents_def expire_region_def Let_def)
  have one: "message_count q - message_count (expire_retention t q) = size (past_retention t q)" for q
    using sum_length_filter_compl [of "retained t q" "q_messages q"] sum_length_filter_compl [of "retained t q" "q_inflight q"]
    by (simp add: message_count_def expire_retention_def past_retention_def size_payloads)
  have "sum_list (map (\<lambda>(url, q). message_count q - message_count (expire_retention t q)) qs) =
      size (sum_list (map (\<lambda>e. past_retention t (snd e)) qs))" for qs :: "sqs_queue smap"
    by (induction qs) (auto simp: one)
  then show "fst (expire_region t st) = size (sum_list (map (\<lambda>e. past_retention t (snd e)) (ss_queues st)))"
    by (simp add: expire_region_def Let_def)
qed

section \<open>Resolving the URL of a queue\<close>

lemma split_char_last: "c \<notin> set b \<Longrightarrow> split_char (a @ c # b) c = split_char a c @ [b]"
proof (induction a)
  case Nil
  have "c \<notin> set b \<Longrightarrow> split_char b c = [b]" by (induction b) auto
  then show ?case using Nil by simp
next
  case (Cons d a)
  then show ?case by (cases "split_char a c") auto
qed

lemma queue_arn_for_url_known:
  assumes "regional ms (ss_account_id st) rgn = Some st" "region_wf st" "map_of (ss_queues st) url = Some q"
    and "CHR ''/'' \<notin> set (q_name q)" "q_name q \<noteq> []" "CHR ''/'' \<notin> set (ss_account_id st)" "ss_account_id st \<noteq> []"
  shows "queue_arn_for_url ms rgn url = Some (q_arn q)"
proof -
  have wf: "queue_wf st url q" using region_wf_parts [OF assms(2)] assms(3) by blast
  then have url: "url = (ss_endpoint st @ CHR ''/'' # ss_account_id st) @ CHR ''/'' # q_name q"
    by (simp add: queue_wf_def queue_url_of_def)
  have "\<not> ends_with url ''/''"
    using assms(4,5) unfolding url by (cases "q_name q" rule: rev_cases) (auto simp: ends_with_iff)
  then have trim: "trim_end_matches url ''/'' = url" by (simp add: trim_end_matches.simps)
  have split: "split_char url (CHR ''/'') = split_char (ss_endpoint st) (CHR ''/'') @ [ss_account_id st, q_name q]"
    unfolding url split_char_last [OF assms(4)] split_char_last [OF assms(6)] by simp
  have "arn_in (q_name q) st = Some (q_arn q)" using wf assms(3) by (simp add: arn_in_def queue_wf_def)
  then show ?thesis using assms(1,5,7) by (simp add: queue_arn_for_url_def trim split)
qed

text \<open>
  A delivery looks at the customer's key only: a queue with the managed mode, which a direct send
  encrypts, stores what other services deliver in the clear.
\<close>

lemma delivery_ignores_managed_mode:
  assumes "map_of (q_attributes q) ''KmsMasterKeyId'' = None" "map_of (q_attributes q) ''SqsManagedSseEnabled'' = Some ''true''"
  shows "effective_kms_key_id (q_attributes q) = Some ''alias/aws/sqs'' \<and> delivery_body env acct rgn q body = Inr body"
  using assms by (simp add: effective_kms_key_id_def delivery_body_def)

section \<open>Deliveries arrive\<close>

lemma region_wf_arn_unique:
  assumes "region_wf st" "map_of (ss_queues st) u = Some q" "map_of (ss_queues st) u' = Some q'" "q_arn q = q_arn q'"
  shows "u = u'"
proof -
  have wf: "queue_wf st u q" "queue_wf st u' q'" using region_wf_parts [OF assms(1)] assms(2,3) by blast+
  then have "queue_arn_of st (q_name q) = queue_arn_of st (q_name q')" using assms(4) by (simp add: queue_wf_def)
  then have names: "q_name q = q_name q'" by (simp add: queue_arn_of_def)
  have "u = queue_url_of st (q_name q)" using wf(1) by (simp add: queue_wf_def)
  moreover have "u' = queue_url_of st (q_name q')" using wf(2) by (simp add: queue_wf_def)
  ultimately show ?thesis unfolding names by (rule trans [OF _ sym])
qed

lemma map_of_modify_first:
  assumes "map_of qs u = Some q" "q_arn q = a" "\<forall>e \<in> set qs. q_arn (snd e) = a \<longrightarrow> fst e = u"
  shows "map_of (modify_first (\<lambda>e. q_arn (snd e) = a) (\<lambda>e. (fst e, q')) qs) = (map_of qs)(u \<mapsto> q')"
  using assms by (induction qs) (auto simp: fun_eq_iff split: if_splits)

lemma delivery_target:
  assumes "region_wf st" "map_of (ss_queues st) url = Some q"
  shows "queue_by_arn (q_arn q) st = Some q"
    and "map_of (ss_queues (modify_by_arn (q_arn q) (\<lambda>_. q') st)) = (map_of (ss_queues st))(url \<mapsto> q')"
proof -
  have "q \<in> set (map snd (ss_queues st))" using map_of_SomeD [OF assms(2)] by force
  then obtain p where p: "queue_by_arn (q_arn q) st = Some p"
    unfolding queue_by_arn_def by (cases "find (\<lambda>p. q_arn p = q_arn q) (map snd (ss_queues st))") (auto simp: find_None_iff)
  with queue_by_arn_known [OF assms(1) p] assms(2) have "p = q"
    using region_wf_arn_unique [OF assms(1) assms(2)] by (metis option.inject)
  with p show "queue_by_arn (q_arn q) st = Some q" by simp
  have "\<forall>e \<in> set (ss_queues st). q_arn (snd e) = q_arn q \<longrightarrow> fst e = url"
  proof (intro ballI impI)
    fix e assume e: "e \<in> set (ss_queues st)" "q_arn (snd e) = q_arn q"
    have "map_of (ss_queues st) (fst e) = Some (snd e)"
      using dir.rinv_distinct [OF assms(1)] e(1) by simp
    then show "fst e = url" using region_wf_arn_unique [OF assms(1) _ assms(2) e(2)] by blast
  qed
  then show "map_of (ss_queues (modify_by_arn (q_arn q) (\<lambda>_. q') st)) = (map_of (ss_queues st))(url \<mapsto> q')"
    using map_of_modify_first [OF assms(2) refl] by (simp add: modify_by_arn_def)
qed

lemma queue_arn_address:
  assumes "region_wf st" "map_of (ss_queues st) url = Some q" "CHR '':'' \<notin> set (ss_region st)" "ss_region st \<noteq> []"
    and "CHR '':'' \<notin> set (ss_account_id st)" "ss_account_id st \<noteq> []"
  shows "account_of (q_arn q) = Some (ss_account_id st)" "region_of (q_arn q) = Some (ss_region st)"
proof -
  let ?a = "arn_regional ''sqs'' (ss_region st) (ss_account_id st) (q_name q)"
  have "q_arn q = queue_arn_of st (q_name q)"
    using region_wf_parts [OF assms(1)] assms(2) by (simp add: queue_wf_def)
  then have a: "q_arn q = arn_to_string ?a"
    by (simp add: queue_arn_of_def arn_to_string_def arn_regional_def arn_new_def with_partition_def)
  have "arn_wf ?a"
    using assms(3,5) by (simp add: arn_wf_def arn_regional_def arn_new_def with_partition_def partition_no_colon)
  from account_region_of_print [OF this] assms(4,6)
  show "account_of (q_arn q) = Some (ss_account_id st)" "region_of (q_arn q) = Some (ss_region st)"
    unfolding a by (simp_all add: arn_regional_def arn_new_def with_partition_def)
qed

lemma deliver_into_appends:
  assumes "q_is_fifo q \<longrightarrow> dedup \<noteq> None \<or> content_based_dedup q" "delivery_body env acct rgn q body = Inr stored"
  shows "fst (deliver_into env acct rgn body attrs grp dedup q) = Inr ()"
    and "\<exists>m. q_messages (snd (deliver_into env acct rgn body attrs grp dedup q)) = q_messages q @ [m] \<and> m_body m = stored \<and>
      m_group m = grp \<and> m_receive_count m = 0 \<and> m_visible_at m = None"
    and "q_inflight (snd (deliver_into env acct rgn body attrs grp dedup q)) = q_inflight q"
  using assms by (auto simp: deliver_into_def Let_def)

lemma delivery_arrives:
  assumes "regional ms (ss_account_id st) (ss_region st) = Some st" "region_wf st" "map_of (ss_queues st) url = Some q"
    and "CHR '':'' \<notin> set (ss_region st)" "ss_region st \<noteq> []" "CHR '':'' \<notin> set (ss_account_id st)" "ss_account_id st \<noteq> []"
    and "q_is_fifo q \<longrightarrow> dedup \<noteq> None \<or> content_based_dedup q"
    and "delivery_body env (ss_account_id st) (ss_region st) q body = Inr stored"
    and "try_deliver_to_queue_with_attrs env (q_arn q) body attrs grp dedup ms = (r, ms')"
  shows "r = Inr () \<and> (\<exists>st' q' m. regional ms' (ss_account_id st) (ss_region st) = Some st' \<and>
    map_of (ss_queues st') = (map_of (ss_queues st))(url \<mapsto> q') \<and>
    q_messages q' = q_messages q @ [m] \<and> m_body m = stored \<and> m_group m = grp \<and> m_receive_count m = 0 \<and>
    m_visible_at m = None \<and> q_inflight q' = q_inflight q)"
proof -
  let ?d = "deliver_into env (ss_account_id st) (ss_region st) body attrs grp dedup q"
  let ?st' = "modify_by_arn (q_arn q) (\<lambda>_. snd ?d) st"
  have ms': "r = fst ?d" "ms' = regional_get_modify (ss_account_id st) (ss_region st) (modify_by_arn (q_arn q) (\<lambda>_. snd ?d)) ms"
    using assms(10) queue_arn_address [OF assms(2-7)] assms(1) delivery_target(1) [OF assms(2,3)]
    by (simp_all add: try_deliver_to_queue_with_attrs_def prod.case_eq_if)
  have "regional ms' (ss_account_id st) (ss_region st) = Some ?st'"
    unfolding ms' using assms(1) by (simp add: regional_regional_get_modify)
  moreover note delivery_target(2) [OF assms(2,3), of "snd ?d"]
  moreover obtain m where "q_messages (snd ?d) = q_messages q @ [m]" "m_body m = stored" "m_group m = grp"
      "m_receive_count m = 0" "m_visible_at m = None"
    using deliver_into_appends(2) [OF assms(8,9)] by blast
  moreover have "r = Inr ()" using ms'(1) deliver_into_appends(1) [OF assms(8,9)] by simp
  moreover note deliver_into_appends(3) [OF assms(8,9)]
  ultimately show ?thesis by (intro conjI exI [of _ ?st'] exI [of _ "snd ?d"] exI [of _ m])
qed

end
