(* ===== verification/Sqs_Traces.thy ===== *)
theory Sqs_Traces
  imports Sqs_Redrive Sqs_Delivery
begin

text \<open>
  What holds along sequences of operations. \<open>numbered\<close> follows a FIFO queue through single sends,
  batches, deliveries of other services and anything that leaves the counter alone, and collects the
  messages the queue numbered. \<open>quiet\<close> is what may happen to a region while a message that was handed out
  is to stay hidden: everything but the expiry of its timeout, a change of its own visibility to an
  earlier instant, a reuse of its identifier and the administrative move to the dead-letter queue.
\<close>

section \<open>Sequence numbers\<close>

definition issued :: "sqs_queue \<Rightarrow> sqs_message list \<Rightarrow> sqs_queue \<Rightarrow> bool" where
  "issued q new q' \<longleftrightarrow>
     q_is_fifo q' = q_is_fifo q \<and> q_next_sequence_number q \<le> q_next_sequence_number q' \<and>
     (q_is_fifo q \<longrightarrow> (\<exists>ns. map m_sequence_number new = map (Some \<circ> format_sequence_number) ns \<and> sorted_wrt (<) ns \<and>
        (\<forall>n \<in> set ns. q_next_sequence_number q \<le> n \<and> n < q_next_sequence_number q')))"

lemma issued_none:
  "q_is_fifo q' = q_is_fifo q \<Longrightarrow> q_next_sequence_number q \<le> q_next_sequence_number q' \<Longrightarrow> issued q [] q'"
  by (simp add: issued_def)

lemma issued_one:
  assumes "q_is_fifo q' = q_is_fifo q" "q_next_sequence_number q \<le> q_next_sequence_number q'"
    and "q_is_fifo q \<Longrightarrow> m_sequence_number m = Some (format_sequence_number (q_next_sequence_number q)) \<and>
      q_next_sequence_number q' = q_next_sequence_number q + 1"
  shows "issued q [m] q'"
  using assms unfolding issued_def
  by (cases "q_is_fifo q") (auto intro!: exI [of _ "[q_next_sequence_number q]"])

lemma issued_trans:
  assumes "issued q new q1" "issued q1 new' q2"
  shows "issued q (new @ new') q2"
proof -
  have "\<exists>ns. map m_sequence_number (new @ new') = map (Some \<circ> format_sequence_number) ns \<and> sorted_wrt (<) ns \<and>
      (\<forall>n \<in> set ns. q_next_sequence_number q \<le> n \<and> n < q_next_sequence_number q2)" if "q_is_fifo q"
  proof -
    obtain a b where "map m_sequence_number new = map (Some \<circ> format_sequence_number) a" "sorted_wrt (<) a"
      "\<forall>n \<in> set a. q_next_sequence_number q \<le> n \<and> n < q_next_sequence_number q1"
      "map m_sequence_number new' = map (Some \<circ> format_sequence_number) b" "sorted_wrt (<) b"
      "\<forall>n \<in> set b. q_next_sequence_number q1 \<le> n \<and> n < q_next_sequence_number q2"
      using assms \<open>q_is_fifo q\<close> unfolding issued_def by auto
    moreover have "q_next_sequence_number q \<le> q_next_sequence_number q1" "q_next_sequence_number q1 \<le> q_next_sequence_number q2"
      using assms by (simp_all add: issued_def)
    ultimately show ?thesis by (intro exI [of _ "a @ b"]) (fastforce simp: sorted_wrt_append)
  qed
  with assms show ?thesis by (auto simp: issued_def)
qed

lemma send_issues:
  assumes "send_to_queue env acct p q = (r, q')"
  shows "\<exists>new. q_messages q' = q_messages q @ new \<and> issued q new q'"
  using assms
proof (cases rule: send_to_queue_cases)
  case (error e)
  then show ?thesis by (simp add: issued_none)
next
  case (replay e)
  then show ?thesis
    using dedup_pass_sel(1,2,5) [of "now env" "q_is_fifo q" "dedup_key env q p" q] by (simp add: issued_none)
next
  case (stored s seq q1)
  then show ?thesis
    using dedup_pass_sel(1,2,5) [of "now env" "q_is_fifo q" "dedup_key env q p" q]
    by (intro exI conjI, simp) (rule issued_one, simp_all add: new_message_def)
qed

lemma entry_outcomes:
  assumes "P q" "\<And>key. P (snd (dedup_pass (now env) (bc_is_fifo cfg) key q))"
    and "\<And>key msg q1. q1 = snd (dedup_pass (now env) (bc_is_fifo cfg) key q) \<Longrightarrow> m_id msg = uuid env k \<Longrightarrow>
      m_sequence_number msg = fst (take_sequence (bc_is_fifo cfg) q1) \<Longrightarrow>
      P (commit_message env (bc_is_fifo cfg) key msg (snd (take_sequence (bc_is_fifo cfg) q1)))"
  shows "P (snd (process_batch_send_entry env k e cfg ov q))"
  unfolding process_batch_send_entry_def Let_def prod.case_eq_if
  using assms by (cases "bc_is_fifo cfg") (simp_all add: new_message_def split: option.split del: take_sequence_sel)

lemma entry_issues:
  assumes "bc_is_fifo cfg = q_is_fifo q"
  shows "\<exists>new. q_messages (snd (process_batch_send_entry env k e cfg ov q)) = q_messages q @ new \<and>
    issued q new (snd (process_batch_send_entry env k e cfg ov q))"
proof (rule entry_outcomes)
  show "\<exists>new. q_messages q = q_messages q @ new \<and> issued q new q" by (simp add: issued_none)
next
  fix key
  show "\<exists>new. q_messages (snd (dedup_pass (now env) (bc_is_fifo cfg) key q)) = q_messages q @ new \<and>
    issued q new (snd (dedup_pass (now env) (bc_is_fifo cfg) key q))" by (simp add: issued_none)
next
  fix key q1 and msg :: sqs_message
  assume a: "q1 = snd (dedup_pass (now env) (bc_is_fifo cfg) key q)"
    "m_sequence_number msg = fst (take_sequence (bc_is_fifo cfg) q1)"
  let ?q2 = "commit_message env (bc_is_fifo cfg) key msg (snd (take_sequence (bc_is_fifo cfg) q1))"
  have "issued q [msg] ?q2" by (rule issued_one) (use a assms in simp_all)
  then show "\<exists>new. q_messages ?q2 = q_messages q @ new \<and> issued q new ?q2" using a(1) by (intro exI [of _ "[msg]"]) simp
qed

lemma entries_issue:
  assumes "send_entries env cfg k es q = (r, q')" "bc_is_fifo cfg = q_is_fifo q"
  shows "\<exists>new. q_messages q' = q_messages q @ new \<and> issued q new q'"
  using assms
proof (induction es arbitrary: k q r)
  case Nil
  then show ?case by (simp add: issued_none)
next
  case (Cons x es)
  obtain e ov where x: "x = (e, ov)" by fastforce
  obtain outcome q1 where s: "process_batch_send_entry env k e cfg ov q = (Inr outcome, q1)"
    using batch_entry_result by blast
  obtain r' q2 where t: "send_entries env cfg (k + 1) es q1 = (r', q2)" by fastforce
  then have "q2 = q'" using Cons.prems(1) x s by (auto simp: h_bind_def prod.case_eq_if split: sum.splits)
  note t = t [unfolded this]
  obtain new where new: "q_messages q1 = q_messages q @ new" "issued q new q1"
    using entry_issues [OF Cons.prems(2), of env k e ov] s by auto
  then have "bc_is_fifo cfg = q_is_fifo q1" using Cons.prems(2) by (simp add: issued_def)
  from Cons.IH [OF t this] new issued_trans show ?case by fastforce
qed

lemma batch_issues:
  assumes "send_batch_to_queue env acct entries q = (r, q')"
  shows "\<exists>new. q_messages q' = q_messages q @ new \<and> issued q new q'"
proof (cases "if effective_kms_key_id (q_attributes q) \<noteq> None \<and> kms env \<noteq> None
    then stored_overrides env acct (q_arn q) (effective_kms_key_id (q_attributes q)) (from_queue q) entries
    else Inr (replicate (length entries) None)")
  case (Inl e)
  then have "q' = q" using assms by (auto simp: send_batch_to_queue_def Let_def h_bind_def h_lift_def)
  then show ?thesis by (simp add: issued_none)
next
  case (Inr ovs)
  then have "send_entries env (from_queue q) 0 (zip entries ovs) q = (r, q')"
    using assms by (auto simp: send_batch_to_queue_def Let_def h_bind_def h_lift_def)
  then show ?thesis by (rule entries_issue) (simp add: from_queue_def)
qed

lemma delivery_issues:
  assumes "deliver_into env acct rgn body attrs grp dedup q = (r, q')" "q_next_sequence_number q' < 2 ^ 64 - 1"
  shows "\<exists>new. q_messages q' = q_messages q @ new \<and> issued q new q'"
proof -
  have none: ?thesis if "q_messages q' = q_messages q" "issued q [] q'" using that by (intro exI [of _ "[]"]) simp
  have one: ?thesis if "q_messages q' = q_messages q @ [m]" "issued q [m] q'" for m using that by blast
  show ?thesis
    using assms unfolding deliver_into_def Let_def
    by (auto split: if_splits sum.splits intro!: none one issued_none issued_one simp: min_def)
qed

text \<open>The messages a queue numbers along a sequence of operations on it.\<close>

inductive numbered :: "sqs_queue \<Rightarrow> sqs_message list \<Rightarrow> sqs_queue \<Rightarrow> bool" for q0 where
  start: "numbered q0 [] q0"
| send: "numbered q0 ms q \<Longrightarrow> send_to_queue env acct p q = (r, q') \<Longrightarrow> q_messages q' = q_messages q @ new \<Longrightarrow>
    numbered q0 (ms @ new) q'"
| send_batch: "numbered q0 ms q \<Longrightarrow> send_batch_to_queue env acct entries q = (rs, q') \<Longrightarrow>
    q_messages q' = q_messages q @ new \<Longrightarrow> numbered q0 (ms @ new) q'"
| delivery: "numbered q0 ms q \<Longrightarrow> deliver_into env acct rgn body attrs grp dedup q = (d, q') \<Longrightarrow>
    q_messages q' = q_messages q @ new \<Longrightarrow> numbered q0 (ms @ new) q'"
| other: "numbered q0 ms q \<Longrightarrow> q_is_fifo q' = q_is_fifo q \<Longrightarrow>
    q_next_sequence_number q' = q_next_sequence_number q \<Longrightarrow> numbered q0 ms q'"

lemma issued_step:
  assumes "q_next_sequence_number q < b \<Longrightarrow> issued q0 ms q" "issued q new q'" "q_next_sequence_number q' < b"
  shows "issued q0 (ms @ new) q'"
proof -
  have "q_next_sequence_number q < b" using assms(2,3) by (simp add: issued_def)
  then show ?thesis by (rule issued_trans [OF assms(1) assms(2)])
qed

lemma numbered_issued:
  "numbered q0 ms q \<Longrightarrow> q_next_sequence_number q < 2 ^ 64 - 1 \<Longrightarrow> issued q0 ms q"
proof (induction rule: numbered.induct)
  case start
  show ?case by (simp add: issued_none)
next
  case (send ms q env acct p r q' new)
  have "issued q new q'" using send_issues [OF send.hyps(2)] send.hyps(3) by auto
  then show ?case using issued_step [of q "2 ^ 64 - 1" q0 ms new q'] send.IH send.prems by blast
next
  case (send_batch ms q env acct entries rs q' new)
  have "issued q new q'" using batch_issues [OF send_batch.hyps(2)] send_batch.hyps(3) by auto
  then show ?case using issued_step [of q "2 ^ 64 - 1" q0 ms new q'] send_batch.IH send_batch.prems by blast
next
  case (delivery ms q env acct rgn body attrs grp dedup d q' new)
  have "issued q new q'" using delivery_issues [OF delivery.hyps(2) delivery.prems] delivery.hyps(3) by auto
  then show ?case using issued_step [of q "2 ^ 64 - 1" q0 ms new q'] delivery.IH delivery.prems by blast
next
  case (other ms q q')
  have "issued q [] q'" using other.hyps by (simp add: issued_none)
  then show ?case using issued_step [of q "2 ^ 64 - 1" q0 ms "[]" q'] other.IH other.prems by simp
qed

section \<open>A message in flight\<close>

text \<open>No waiting copy of the message, and no copy in flight that lapses before \<open>d\<close>.\<close>

definition conceals :: "string \<Rightarrow> int \<Rightarrow> sqs_queue \<Rightarrow> bool" where
  "conceals mid d q \<longleftrightarrow>
     (\<forall>m \<in> set (q_messages q). m_id m \<noteq> mid) \<and>
     (\<forall>m \<in> set (q_inflight q). m_id m = mid \<longrightarrow> is_some_and (m_visible_at m) (\<lambda>v. d \<le> v))"

definition hidden_until :: "string \<Rightarrow> int \<Rightarrow> sqs_state \<Rightarrow> bool" where
  "hidden_until mid d st \<longleftrightarrow> (\<forall>e \<in> set (ss_queues st). conceals mid d (snd e))"

text \<open>
  The operations that leave the message hidden. In \<open>receive\<close> the instant is before \<open>d\<close>, in the sending
  rules the identifiers minted are new, in \<open>change\<close> the handle is another message's or the new instant
  no earlier. \<open>move\<close> and \<open>drain\<close> are the message move tasks; a delete or change batch is the sequence of its
  entries' steps; \<open>settings\<close> covers creating, deleting, purging, tagging and reconfiguring queues.
\<close>

inductive quiet :: "string \<Rightarrow> int \<Rightarrow> sqs_state \<Rightarrow> sqs_state \<Rightarrow> bool" for mid d where
  receive: "now env < d \<Longrightarrow> try_receive_messages env acct input n req_vt att st = (r, st') \<Longrightarrow> quiet mid d st st'"
| send: "uuid env 0 \<noteq> mid \<Longrightarrow> on_queue input (send_to_queue env acct p) st = (r1, st') \<Longrightarrow> quiet mid d st st'"
| send_batch: "(\<And>k. uuid env k \<noteq> mid) \<Longrightarrow> on_queue input (send_batch_to_queue env acct entries) st = (r2, st') \<Longrightarrow>
    quiet mid d st st'"
| delivery: "uuid env 0 \<noteq> mid \<Longrightarrow> map_of (ss_queues st) url = Some q \<Longrightarrow>
    deliver_into env acct rgn body attrs grp dedup q = (r3, q') \<Longrightarrow> quiet mid d st (set_queue url q' st)"
| delete: "on_queue input (delete_from_queue h) st = (r4, st') \<Longrightarrow> quiet mid d st st'"
| change: "map_of (ss_queues st) url = Some q \<Longrightarrow> change_in_queue env h vt q = Some q' \<Longrightarrow>
    find_message_id_for_receipt q h \<noteq> Some mid \<or> d \<le> now env + seconds vt \<Longrightarrow> quiet mid d st (set_queue url q' st)"
| move: "move_one w st = (r5, st') \<Longrightarrow> quiet mid d st st'"
| drain: "quiet mid d st (snd (drain_now u dest targets st))"
| expire: "quiet mid d st (snd (expire_region t st))"
| settings: "(\<And>e'. e' \<in> set (ss_queues st') \<Longrightarrow> q_messages (snd e') = [] \<and> q_inflight (snd e') = [] \<or>
    (\<exists>e \<in> set (ss_queues st). q_messages (snd e') = q_messages (snd e) \<and> q_inflight (snd e') = q_inflight (snd e))) \<Longrightarrow>
    quiet mid d st st'"

lemma hidden_modify:
  assumes "hidden_until mid d st" "\<And>q. conceals mid d q \<Longrightarrow> conceals mid d (f q)"
  shows "hidden_until mid d (st\<lparr>ss_queues := bt_modify url f (ss_queues st)\<rparr>)"
  using assms by (force simp: hidden_until_def bt_modify_def)

lemma hidden_set_queue:
  "hidden_until mid d st \<Longrightarrow> conceals mid d q \<Longrightarrow> hidden_until mid d (set_queue url q st)"
  unfolding set_queue_def by (rule hidden_modify)

lemma hidden_lookup: "hidden_until mid d st \<Longrightarrow> map_of (ss_queues st) url = Some q \<Longrightarrow> conceals mid d q"
  by (force simp: hidden_until_def dest: map_of_SomeD)

lemma hidden_on_queue:
  assumes "on_queue input f st = (r, st')" "hidden_until mid d st" "\<And>q. conceals mid d q \<Longrightarrow> conceals mid d (snd (f q))"
  shows "hidden_until mid d st'"
  using assms hidden_lookup hidden_set_queue
  by (fastforce simp: on_queue_def prod.case_eq_if Let_def split: option.splits)

lemma conceals_append:
  "conceals mid d q \<Longrightarrow> q_messages q' = q_messages q @ new \<Longrightarrow> q_inflight q' = q_inflight q \<Longrightarrow>
   (\<And>m. m \<in> set new \<Longrightarrow> m_id m \<noteq> mid) \<Longrightarrow> conceals mid d q'"
  by (auto simp: conceals_def)

lemma conceals_same:
  "conceals mid d q \<Longrightarrow> q_messages q' = q_messages q \<Longrightarrow> q_inflight q' = q_inflight q \<Longrightarrow> conceals mid d q'"
  by (simp add: conceals_def)

lemma send_conceals:
  assumes "uuid env 0 \<noteq> mid" "conceals mid d q"
  shows "conceals mid d (snd (send_to_queue env acct p q))"
proof -
  obtain r q' where s: "send_to_queue env acct p q = (r, q')" by fastforce
  have fl: "q_inflight q' = q_inflight q"
    using arg_cong [OF s, of "\<lambda>x. q_inflight (snd x)"]
    by (simp add: send_to_queue_def Let_def prod.case_eq_if split: sum.splits option.splits if_splits)
  have "\<exists>new. q_messages q' = q_messages q @ new \<and> (\<forall>m \<in> set new. m_id m = uuid env 0)"
    using s
  proof (cases rule: send_to_queue_cases)
    case (replay e)
    then show ?thesis using dedup_pass_sel(1) [of "now env" "q_is_fifo q" "dedup_key env q p" q] by simp
  next
    case (stored s' seq q1)
    then show ?thesis using dedup_pass_sel(1) [of "now env" "q_is_fifo q" "dedup_key env q p" q]
      by (simp add: new_message_def)
  qed simp
  then show ?thesis using conceals_append [OF assms(2) _ fl] assms(1) s by fastforce
qed

lemma entry_conceals:
  assumes "uuid env k \<noteq> mid" "conceals mid d q"
  shows "conceals mid d (snd (process_batch_send_entry env k e cfg ov q))"
proof (rule entry_outcomes)
  show "conceals mid d q" by (rule assms(2))
next
  fix key
  show "conceals mid d (snd (dedup_pass (now env) (bc_is_fifo cfg) key q))" by (rule conceals_same [OF assms(2)]) simp_all
next
  fix key q1 and msg :: sqs_message
  assume "q1 = snd (dedup_pass (now env) (bc_is_fifo cfg) key q)" "m_id msg = uuid env k"
  then show "conceals mid d (commit_message env (bc_is_fifo cfg) key msg (snd (take_sequence (bc_is_fifo cfg) q1)))"
    using assms by (intro conceals_append [OF assms(2), of _ "[msg]"]) simp_all
qed

lemma entries_conceal:
  assumes "\<And>k. uuid env k \<noteq> mid" "conceals mid d q"
  shows "conceals mid d (snd (send_entries env cfg k es q))"
  using assms(2)
proof (induction es arbitrary: k q)
  case (Cons x es)
  obtain e ov where x: "x = (e, ov)" by fastforce
  obtain outcome q1 where s: "process_batch_send_entry env k e cfg ov q = (Inr outcome, q1)"
    using batch_entry_result by blast
  then have "conceals mid d q1" using entry_conceals [OF assms(1) Cons.prems, of k e cfg ov] by simp
  from Cons.IH [OF this, of "k + 1"] show ?case using x s
    by (auto simp: h_bind_def prod.case_eq_if split: sum.split)
qed simp

lemma batch_conceals:
  assumes "\<And>k. uuid env k \<noteq> mid" "conceals mid d q"
  shows "conceals mid d (snd (send_batch_to_queue env acct entries q))"
  using assms entries_conceal [OF assms] by (simp add: send_batch_to_queue_def Let_def h_bind_def h_lift_def split: sum.split)

lemma delivery_conceals:
  assumes "uuid env 0 \<noteq> mid" "conceals mid d q"
  shows "conceals mid d (snd (deliver_into env acct rgn body attrs grp dedup q))"
  using assms by (auto simp: conceals_def deliver_into_def Let_def split: sum.split)

lemma drop_conceals: "conceals mid d q \<Longrightarrow> conceals mid d (drop_message x q)"
  by (auto simp: conceals_def drop_message_def)

lemma set_visible_at_mem:
  "set_visible_at x v ms = Some ms' \<Longrightarrow> m \<in> set ms' \<Longrightarrow>
   m \<in> set ms \<or> (\<exists>m0 \<in> set ms. m = m0\<lparr>m_visible_at := Some v\<rparr> \<and> m_id m0 = x)"
  by (induction ms arbitrary: ms') (auto split: if_splits)

lemma change_conceals:
  assumes "change_in_queue env h vt q = Some q'" "conceals mid d q"
    and "find_message_id_for_receipt q h \<noteq> Some mid \<or> d \<le> now env + seconds vt"
  shows "conceals mid d q'"
proof -
  let ?v = "now env + seconds vt"
  obtain x where x: "find_message_id_for_receipt q h = Some x"
    using assms(1) by (auto simp: change_in_queue_def split: bind_splits)
  have ids: "m_id m \<in> m_id ` set ms" if "set_visible_at x ?v ms = Some ms'" "m \<in> set ms'" for m ms ms'
    using set_visible_at_mem [OF that] by auto
  show ?thesis
  proof (cases "set_visible_at x ?v (q_inflight q)")
    case None
    then obtain ms where ms: "set_visible_at x ?v (q_messages q) = Some ms" "q' = q\<lparr>q_messages := ms\<rparr>"
      using assms(1) x by (auto simp: change_in_queue_def)
    then show ?thesis using assms(2) ids [OF ms(1)] by (fastforce simp: conceals_def)
  next
    case (Some fl)
    then have q': "q' = q\<lparr>q_inflight := fl\<rparr>" using assms(1) x by (simp add: change_in_queue_def)
    have "is_some_and (m_visible_at m) (\<lambda>v. d \<le> v)" if "m \<in> set fl" "m_id m = mid" for m
      using set_visible_at_mem [OF Some that(1)] that(2) assms(2,3) x by (auto simp: conceals_def)
    then show ?thesis using assms(2) q' by (simp add: conceals_def)
  qed
qed

lemma conceals_refreshed:
  assumes "t < d" "conceals mid d q"
  shows "conceals mid d (refreshed t q)"
proof -
  have "m_id m \<noteq> mid" if "m \<in> set (q_messages (refreshed t q))" for m
    using refreshed_messages [OF that] assms
    by (auto simp: conceals_def lapsed_def is_some_and_def split: option.splits)
  moreover have "m \<in> set (q_inflight q)" if "m \<in> set (q_inflight (refreshed t q))" for m
    using that by (simp add: refreshed_def return_expired_def expire_retention_def Let_def)
  ultimately show ?thesis using assms(2) by (auto simp: conceals_def)
qed

lemma payloads_ids: "payloads xs \<subseteq># payloads ys \<Longrightarrow> m_id ` set xs \<subseteq> m_id ` set ys"
proof -
  assume "payloads xs \<subseteq># payloads ys"
  then have "payload ` set xs \<subseteq> payload ` set ys" using set_mset_mono by (fastforce simp: payloads_def)
  then have "m_id ` payload ` set xs \<subseteq> m_id ` payload ` set ys" by (rule image_mono)
  then show ?thesis by (simp add: image_image)
qed

lemma collect_conceals:
  assumes "now env < d" "conceals mid d q" "collect_batch env n vt q = (received, dlq, q1)"
  shows "conceals mid d q1" "mid \<notin> m_id ` set received" "mid \<notin> m_id ` set (map snd dlq)"
proof -
  let ?q0 = "refreshed (now env) q"
  have q0: "conceals mid d ?q0" by (rule conceals_refreshed [OF assms(1,2)])
  have eq: "payloads (q_messages q1) + payloads received + payloads (map snd dlq) = payloads (q_messages ?q0)"
    "q_inflight q1 = q_inflight ?q0"
    using collect_batch_messages [of env n vt q] collect_batch_queue(1) [of env n vt q] assms(3) by simp_all
  have sub: "payloads (q_messages q1) \<subseteq># payloads (q_messages ?q0)" "payloads received \<subseteq># payloads (q_messages ?q0)"
    "payloads (map snd dlq) \<subseteq># payloads (q_messages ?q0)"
    unfolding eq(1) [symmetric] by (simp_all add: ac_simps)
  have out: "mid \<notin> m_id ` set (q_messages ?q0)" using q0 by (auto simp: conceals_def)
  show "conceals mid d q1" using payloads_ids [OF sub(1)] out q0 eq(2) by (auto simp: conceals_def)
  show "mid \<notin> m_id ` set received" "mid \<notin> m_id ` set (map snd dlq)"
    using payloads_ids [OF sub(2)] payloads_ids [OF sub(3)] out by blast+
qed

lemma restore_conceals: "conceals mid d q \<Longrightarrow> mid \<notin> m_id ` set received \<Longrightarrow> conceals mid d (restore_batch received q)"
  by (auto simp: conceals_def restore_batch_def)

lemma push_by_arn_mem:
  "push_by_arn a m qs = Some qs' \<Longrightarrow> e \<in> set qs' \<Longrightarrow>
   e \<in> set qs \<or> (\<exists>q. (fst e, q) \<in> set qs \<and> snd e = q\<lparr>q_messages := q_messages q @ [m]\<rparr>)"
  by (induction a m qs arbitrary: qs' rule: push_by_arn.induct) (auto split: if_splits)

lemma push_hides:
  assumes "push_by_arn a m (ss_queues st) = Some qs" "hidden_until mid d st" "m_id m \<noteq> mid"
  shows "hidden_until mid d (st\<lparr>ss_queues := qs\<rparr>)"
proof -
  have "conceals mid d (snd e)" if "e \<in> set qs" for e
    using push_by_arn_mem [OF assms(1) that] assms(2,3) by (fastforce simp: hidden_until_def conceals_def)
  then show ?thesis by (simp add: hidden_until_def)
qed

lemma redrive_hides:
  assumes "hidden_until mid d st" "m_id (snd e) \<noteq> mid"
  shows "hidden_until mid d (redrive src e st)"
proof -
  obtain a m where e: "e = (a, m)" by fastforce
  have "m_id ((clear_receipt m)\<lparr>m_receive_count := 0, m_first_received_at := None\<rparr>) \<noteq> mid"
    using assms(2) e by (simp add: clear_receipt_def)
  then show ?thesis using assms(1) push_hides by (auto simp: redrive_def Let_def e split: option.split)
qed

lemma redrive_all_hides:
  "hidden_until mid d st \<Longrightarrow> mid \<notin> m_id ` set (map snd dlq) \<Longrightarrow> hidden_until mid d (fold (redrive src) dlq st)"
proof (induction dlq arbitrary: st)
  case (Cons e dlq)
  have "hidden_until mid d (redrive src e st)" by (rule redrive_hides) (use Cons.prems in auto)
  from Cons.IH [OF this] Cons.prems(2) show ?case by simp
qed simp

lemma receive_hides:
  assumes "now env < d" "try_receive_messages env acct input n req_vt att st = (r, st')" "hidden_until mid d st"
  shows "hidden_until mid d st'"
  using assms(2)
proof (cases rule: try_receive_cases)
  case (replay url q)
  have "conceals mid d (fresh_queue env q)" by (rule conceals_same [OF hidden_lookup [OF assms(3) replay(2)]]) simp_all
  then show ?thesis using hidden_set_queue [OF assms(3)] replay(5) by simp
next
  case (failed url q received dlq q1 e)
  have "conceals mid d (fresh_queue env q)" by (rule conceals_same [OF hidden_lookup [OF assms(3) failed(2)]]) simp_all
  note c = collect_conceals [OF assms(1) this failed(3)]
  show ?thesis using hidden_set_queue [OF assms(3) restore_conceals [OF c(1,2)]] failed(7) by simp
next
  case (fresh url q received dlq q1 bodies out)
  have "conceals mid d (fresh_queue env q)" by (rule conceals_same [OF hidden_lookup [OF assms(3) fresh(2)]]) simp_all
  note c = collect_conceals [OF assms(1) this fresh(3)]
  have "conceals mid d (q1\<lparr>q_inflight := q_inflight q1 @ received\<rparr>)" using c(1,2) by (auto simp: conceals_def)
  from redrive_all_hides [OF hidden_set_queue [OF assms(3) this] c(3)]
  have "hidden_until mid d (fold (redrive (q_arn q)) dlq (set_queue url (q1\<lparr>q_inflight := q_inflight q1 @ received\<rparr>) st))" .
  then show ?thesis unfolding fresh(7) Let_def
    by (rule hidden_modify) (simp add: conceals_def record_attempt_def split: option.split)
qed (use assms in simp_all)

lemma move_hides:
  assumes "move_one w st = (r, st')" "hidden_until mid d st"
  shows "hidden_until mid d st'"
proof (cases "st' = st")
  case False
  then obtain source target m rest where s: "map_of (ss_queues st) (mw_source_url w) = Some source" "q_messages source = m # rest"
    and st': "st' = modify_task (mw_handle w) (\<lambda>t. t\<lparr>mt_moved := mt_moved t + 1\<rparr>)
      (push_messages target [moved_message m] (pop_message (mw_source_url w) st))"
    using assms(1) by (auto simp: move_one_def split: option.splits list.splits)
  have "m_id (moved_message m) \<noteq> mid"
    using hidden_lookup [OF assms(2) s(1)] s(2) by (simp add: conceals_def moved_message_def)
  moreover have "m \<in> set ms" if "m \<in> set (tl ms)" for m :: sqs_message and ms
    using that by (cases ms) simp_all
  then have "hidden_until mid d (pop_message (mw_source_url w) st)"
    unfolding pop_message_def by (intro hidden_modify [OF assms(2)]) (simp add: conceals_def)
  ultimately have "hidden_until mid d (push_messages target [moved_message m] (pop_message (mw_source_url w) st))"
    unfolding push_messages_def by (intro hidden_modify) (auto simp: conceals_def)
  then show ?thesis by (simp add: st' hidden_until_def modify_task_def)
qed (use assms in simp)

lemma push_messages_hides:
  "hidden_until mid d st \<Longrightarrow> (\<And>m. m \<in> set ms \<Longrightarrow> m_id m \<noteq> mid) \<Longrightarrow> hidden_until mid d (push_messages u ms st)"
  unfolding push_messages_def by (rule hidden_modify) (auto simp: conceals_def)

lemma spread_hides:
  assumes "hidden_until mid d (snd acc)" "\<And>m. m \<in> set ms \<Longrightarrow> m_id m \<noteq> mid"
  shows "hidden_until mid d (snd (spread targets i ms acc))"
  using assms
proof (induction ms arbitrary: i acc)
  case (Cons m ms)
  obtain k st where acc: "acc = (k, st)" by fastforce
  have "hidden_until mid d (push_messages u [moved_message m] st)" for u
    by (rule push_messages_hides) (use Cons.prems acc in \<open>auto simp: moved_message_def\<close>)
  then show ?case using Cons.prems acc by (auto simp: Let_def intro!: Cons.IH)
qed simp

lemma drain_hides:
  assumes "hidden_until mid d st"
  shows "hidden_until mid d (snd (drain_now u dest targets st))"
proof -
  let ?ms = "case map_of (ss_queues st) u of Some q \<Rightarrow> q_messages q | None \<Rightarrow> []"
  have ms: "m_id m \<noteq> mid" if "m \<in> set ?ms" for m
    using that hidden_lookup [OF assms, of u] by (cases "map_of (ss_queues st) u") (auto simp: conceals_def)
  have d: "hidden_until mid d (drained u st)"
    unfolding drained_def by (rule hidden_modify [OF assms]) (simp add: conceals_def)
  have "m_id m \<noteq> mid" if moved: "m \<in> set (map moved_message ?ms)" for m
  proof -
    obtain x where "x \<in> set ?ms" "m = moved_message x" using moved unfolding set_map by (rule imageE)
    then show ?thesis using ms by (simp add: moved_message_def)
  qed
  then have "hidden_until mid d (push_messages v (map moved_message ?ms) (drained u st))" for v
    by (rule push_messages_hides [OF d])
  then show ?thesis
    using d spread_hides [of mid d "(0, drained u st)" ?ms targets 0] ms
    by (auto simp: drain_now_drained Let_def split: option.split)
qed

lemma quiet_hides: "quiet mid d st st' \<Longrightarrow> hidden_until mid d st \<Longrightarrow> hidden_until mid d st'"
proof (induction rule: quiet.induct)
  case (receive env acct input n req_vt att st r st')
  then show ?case by (metis receive_hides)
next
  case (send env input acct p st r1 st')
  then show ?case by (metis hidden_on_queue send_conceals)
next
  case (send_batch env input acct entries st r2 st')
  then show ?case by (metis hidden_on_queue batch_conceals)
next
  case (delivery env st url q acct rgn body attrs grp dedup r3 q')
  then show ?case using delivery_conceals [OF delivery(1) hidden_lookup [OF delivery(4,2)]] hidden_set_queue by (metis snd_conv)
next
  case (delete input h st r4 st')
  have "conceals mid d (snd (delete_from_queue h q))" if "conceals mid d q" for q
    using that by (simp add: delete_from_queue_def drop_conceals split: option.split)
  with delete show ?case by (metis hidden_on_queue)
next
  case (change st url q env h vt q')
  then show ?case by (metis change_conceals hidden_lookup hidden_set_queue)
next
  case (move w st r5 st')
  then show ?case by (metis move_hides)
next
  case (drain st u dest targets)
  then show ?case by (rule drain_hides)
next
  case (expire st t)
  then show ?case by (fastforce simp: hidden_until_def conceals_def expire_region_def expire_retention_def)
next
  case (settings st' st)
  then show ?case by (fastforce simp: hidden_until_def conceals_def)
qed

lemma quiet_steps_hide: "(quiet mid d)\<^sup>*\<^sup>* st st' \<Longrightarrow> hidden_until mid d st \<Longrightarrow> hidden_until mid d st'"
  by (induction rule: rtranclp_induct) (auto intro: quiet_hides)

text \<open>A receive hides what it hands out, and hands out nothing that is hidden.\<close>

lemma unique_ids_hide:
  assumes "unique_ids st" "map_of (ss_queues st) url = Some q" "x \<in> set (q_inflight q)" "m_visible_at x = Some d"
  shows "hidden_until (m_id x) d st"
proof -
  obtain as bs where qs: "ss_queues st = as @ (url, q) # bs" using assms(2) by (metis map_of_SomeD split_list)
  obtain fl fr where fl: "q_inflight q = fl @ x # fr" using assms(3) by (meson split_list)
  have other: "m_id x \<notin> set (queue_ids (snd e))" if "e \<in> set as \<union> set bs" for e
    using assms(1) that by (auto simp: unique_ids_def qs queue_ids_def fl)
  have "m_id x \<notin> m_id ` (set (q_messages q) \<union> set fl \<union> set fr)"
    using unique_ids_queue [OF assms(1,2)] by (auto simp: queue_ids_def fl)
  then have here: "m_id y \<noteq> m_id x" if "y \<in> set (q_messages q) \<union> set fl \<union> set fr" for y
    using imageI [OF that, of m_id] by metis
  then have "conceals (m_id x) d q" using assms(4) by (auto simp: conceals_def fl)
  moreover have "conceals (m_id x) d (snd e)" if "e \<in> set as \<union> set bs" for e
    using other [OF that] by (auto simp: conceals_def queue_ids_def rev_image_eqI)
  ultimately show ?thesis by (auto simp: hidden_until_def qs)
qed

lemma received_ids:
  assumes "try_receive_messages env acct input n req_vt att st = (Inr out, st')"
    and "resolve_queue_url input st = Some url" "map_of (ss_queues st) url = Some q" "\<not> replays env att q"
  shows "map m_id out = map m_id (take n (deliverable (now env) q))"
  using try_receive_result [OF assms(1-3), of m_id] map_deliver_from [of m_id env _ m_id] assms(4)
  by (simp add: replays_def)

lemma receive_hides_batch:
  assumes "unique_ids st" "distinct (map fst (ss_queues st))"
    and q: "resolve_queue_url input st = Some url" "map_of (ss_queues st) url = Some q"
    and run: "try_receive_messages env acct input n req_vt att st = (Inr out, st')" "\<not> replays env att q" "m \<in> set out"
  shows "hidden_until (m_id m) (now env + seconds (unwrap_or req_vt (visibility_timeout_secs q))) st'"
proof -
  let ?vt = "unwrap_or req_vt (visibility_timeout_secs q)" and ?src = "take n (deliverable (now env) q)"
  have fresh: "\<not> q_is_fifo q \<or> replayed att (fresh_queue env q) = []" using run(2) by (simp add: replays_def)
  obtain q1 where q1: "map_of (ss_queues st') url = Some q1"
    "q_inflight q1 = q_inflight (refreshed (now env) q) @ deliver_from env ?vt 0 ?src"
    using try_receive_source [OF run(1) q fresh] by blast
  have "region_contents st' \<subseteq># region_contents st"
    using try_receive_conserves [OF assms(2) q run(1)] by (metis mset_subset_eq_add_left)
  then have uniq: "unique_ids st'" by (rule unique_ids_subset [OF assms(1)])
  have "m_id m \<in> set (map m_id ?src)"
    using received_ids [OF run(1) q run(2)] run(3) by (metis image_eqI set_map)
  then obtain x where x: "x \<in> set ?src" "m_id x = m_id m" by auto
  obtain i where "delivered env ?vt i x \<in> set (deliver_from env ?vt 0 ?src)" using in_deliver_from [OF x(1)] by blast
  with unique_ids_hide [OF uniq q1(1), of "delivered env ?vt i x"] q1(2) x(2) show ?thesis by simp
qed

lemma hidden_not_received:
  assumes "hidden_until mid d st" "now env < d"
    and q: "resolve_queue_url input st = Some url" "map_of (ss_queues st) url = Some q"
    and run: "try_receive_messages env acct input n req_vt att st = (Inr out, st')" "\<not> replays env att q"
  shows "mid \<notin> m_id ` set out"
proof -
  have "mid \<notin> m_id ` set (q_messages (refreshed (now env) q))"
    using conceals_refreshed [OF assms(2) hidden_lookup [OF assms(1) q(2)]] by (auto simp: conceals_def)
  moreover have "m_id ` set out \<subseteq> m_id ` set (q_messages (refreshed (now env) q))"
    using arg_cong [OF received_ids [OF run(1) q run(2)], of set] deliverable_messages by (fastforce dest: in_set_takeD)
  ultimately show ?thesis by blast
qed

end
