(* ===== verification/Queue_Properties.thy ===== *)
theory Queue_Properties
  imports Sqs_Traces
begin

text \<open>
  What the queue service promises for messages: sending (deduplication, numbering, batches,
  encryption) and receiving (conservation, visibility, order, fairness, redrive, receipts,
  polling). Each property is stated over the handlers' definitions of the component theories.
\<close>

section \<open>Concrete inputs\<close>

text \<open>An environment whose fresh identifiers start with \<open>label\<close>, at the instant \<open>t\<close>, without a KMS hook.\<close>

definition ex_env :: "string \<Rightarrow> int \<Rightarrow> sqs_env" where
  "ex_env label t =
     \<lparr>now = t, uuid = (\<lambda>k. label @ show_nat k), md5_hex = (\<lambda>s. s), sha256_hex = (\<lambda>s. s), b64_decode = Some,
      b64_encode = (\<lambda>s. s), b64url_encode = (\<lambda>s. s), b64url_decode = Some, from_json = (\<lambda>_. None),
      to_json = (\<lambda>_. []), kms = None, utf8_lossy = (\<lambda>s. s), unicode_alphanumeric = (\<lambda>_. False),
      process_id = 1, external_url = None, service_region = ''us-east-1'', snapshot_saved = True\<rparr>"

definition ex_message :: "string \<Rightarrow> string option \<Rightarrow> sqs_message" where
  "ex_message mid grp =
     \<lparr>m_id = mid, m_receipt_handle = None, m_body = ''hello'', m_md5_of_body = ''hello'', m_sent_timestamp = 0,
      m_attributes = [], m_message_attributes = [], m_visible_at = None, m_receive_count = 0,
      m_first_received_at = None, m_group = grp, m_dedup = None, m_created_at = 0, m_sequence_number = None\<rparr>"

definition ex_queue :: "bool \<Rightarrow> sqs_message list \<Rightarrow> sqs_queue" where
  "ex_queue fifo ms =
     \<lparr>q_name = ''q'', q_url = ''u'', q_arn = ''arn:aws:sqs:us-east-1:123456789012:q'', q_created_at = 0, q_messages = ms,
      q_inflight = [], q_attributes = [], q_is_fifo = fifo, q_dedup_cache = [], q_redrive_policy = None, q_tags = [],
      q_next_sequence_number = 0, q_permission_labels = [], q_receipt_handle_map = [], q_receive_attempt_cache = []\<rparr>"

definition ex_region :: "sqs_queue \<Rightarrow> sqs_state" where
  "ex_region q =
     \<lparr>ss_account_id = ''123456789012'', ss_region = ''us-east-1'', ss_endpoint = [], ss_queues = [(''u'', q)],
      ss_name_to_url = [(''q'', ''u'')], ss_move_tasks = []\<rparr>"

definition ex_sqs_request :: "(string \<times> string) list \<Rightarrow> aws_request" where
  "ex_sqs_request params =
     \<lparr>req_action = ''ReceiveMessage'', req_region = ''us-east-1'', req_account_id = ''123456789012'', req_request_id = ''r'',
      req_headers = [], req_query_params = params, req_body = [], req_is_query = True, req_principal = None\<rparr>"

definition ex_params :: send_params where
  "ex_params = \<lparr>sp_body = ''hello'', sp_group = Some ''g'', sp_dedup = Some ''d'', sp_attrs = [], sp_sys = [], sp_delay = None\<rparr>"

definition ex_hook :: kms_hook where
  "ex_hook =
     \<lparr>kms_encrypt = (\<lambda>acct rgn key text svc ctx. Inr (''fakecloud-kms:'' @ text)),
      kms_decrypt = (\<lambda>acct c svc ctx. if length c = 14 then Inl ''empty'' else Inr (drop 14 c))\<rparr>"

definition ex_dlq_region :: sqs_state where
  "ex_dlq_region =
     (let q = ex_queue False [(ex_message ''a'' None)\<lparr>m_receive_count := 3\<rparr>, (ex_message ''b'' None)\<lparr>m_body := ''fakecloud-kms:''\<rparr>]
      in (ex_region q)\<lparr>ss_queues :=
           [(''d'', (ex_queue False [])\<lparr>q_arn := ''arn:d''\<rparr>),
            (''u'', q\<lparr>q_attributes := [(''KmsMasterKeyId'', ''k'')],
                       q_redrive_policy := Some \<lparr>rd_target_arn = ''arn:d'', rd_max_receive_count = 3\<rparr>\<rparr>)]\<rparr>)"

text \<open>
  A schedule on a FIFO queue with the messages \<^verbatim>\<open>1\<close> and \<^verbatim>\<open>2\<close> of one group: both are received for ten
  seconds, the visibility of the first is set to zero, and two more receives follow after five and
  after twenty seconds. The result lists the identifiers that each receive returned.
\<close>

definition ex_receive_ids :: "string \<Rightarrow> int \<Rightarrow> sqs_state \<Rightarrow> string list \<times> sqs_state" where
  "ex_receive_ids label t st =
     (case try_receive_messages (ex_env label (seconds t)) ''123456789012'' ''u'' 10 (Some 10) None st of
        (Inr out, st') \<Rightarrow> (map m_id out, st')
      | (Inl _, st') \<Rightarrow> ([], st'))"

definition ex_reorder_schedule :: "string list list" where
  "ex_reorder_schedule =
     (let (first, st1) = ex_receive_ids ''h'' 0 (ex_region (ex_queue True [ex_message ''1'' (Some ''g''), ex_message ''2'' (Some ''g'')]));
          (_, st2) = on_queue ''u'' (\<lambda>q. (Inr (), the (change_in_queue (ex_env ''x'' (seconds 1)) ''h0'' 0 q))) st1;
          (second, st3) = ex_receive_ids ''k'' 5 st2;
          (third, _) = ex_receive_ids ''l'' 20 st3
      in [first, second, third])"

lemmas ex_defs = ex_env_def ex_message_def ex_queue_def ex_region_def

lemma ex_region_queue [simp]:
  "resolve_queue_url ''u'' (ex_region q) = Some ''u''" "map_of (ss_queues (ex_region q)) ''u'' = Some q"
  "map fst (ss_queues (ex_region q)) = [''u'']"
  by (simp_all add: ex_region_def resolve_queue_url_def)

lemma ex_env_plain [simp]: "\<not> encrypted (ex_env l t) q" "now (ex_env l t) = t" "uuid (ex_env l t) k = l @ show_nat k"
  "kms (ex_env l t) = None"
  by (simp_all add: ex_env_def encrypted_def)

lemma ex_deliverable:
  "0 \<le> t \<Longrightarrow> t < 10 ^ 9 \<Longrightarrow> deliverable t (ex_queue fifo [ex_message a g]) = [ex_message a g]"
  by (simp add: deliverable_def refreshed_def return_expired_def expire_retention_def retained_def retention_seconds_def
      num_seconds_def Let_def ex_queue_def ex_message_def visible_def poisoned_def inflight_group_def)

lemma ex_message_sel [simp]: "m_id (ex_message a g) = a" "m_group (ex_message a g) = g"
  "m_receive_count (ex_message a g) = 0" "m_created_at (ex_message a g) = 0" "m_visible_at (ex_message a g) = None"
  by (simp_all add: ex_message_def)

lemma ex_queue_sel [simp]: "q_is_fifo (ex_queue fifo ms) = fifo" "q_messages (ex_queue fifo ms) = ms"
  "q_inflight (ex_queue fifo ms) = []" "q_redrive_policy (ex_queue fifo ms) = None"
  "q_receipt_handle_map (ex_queue fifo ms) = []" "q_attributes (ex_queue fifo ms) = []"
  "q_dedup_cache (ex_queue fifo ms) = []"
  by (simp_all add: ex_queue_def)

lemma ex_region_unique: "unique_ids (ex_region (ex_queue fifo [ex_message a g]))"
  by (simp add: unique_ids_def queue_ids_def ex_region_def)

lemmas ex_send_defs = send_to_queue_def check_fifo_send_constraints_def dedup_key_def effective_dedup_id_def dedup_pass_def
  prune_dedup_def max_message_size_def message_attributes_size_def delay_secs_def take_sequence_def
  encrypt_message_body_def new_message_def commit_message_def dedup_cache_key_def Let_def ex_env_def ex_queue_def bt_retain_def ex_params_def

lemma ex_send:
  obtains r q1 where "send_to_queue (ex_env ''h'' 0) acct ex_params (ex_queue True []) = (Inr r, q1)"
    "map m_id (q_messages q1) = [''h0'']"
proof -
  have "show_nat 0 = ''0''" by (subst show_nat.simps) code_simp
  then show ?thesis using that by (simp add: ex_send_defs)
qed

lemma ex_receive:
  assumes "0 \<le> t" "t < 10 ^ 9"
  obtains st' where "try_receive_messages (ex_env l t) acct ''u'' 1 vt None (ex_region (ex_queue fifo [ex_message a g])) =
    (Inr [delivered (ex_env l t) (unwrap_or vt 30) 0 (ex_message a g)], st')"
proof -
  let ?q = "ex_queue fifo [ex_message a g]"
  have "visibility_timeout_secs ?q = 30" by (simp add: visibility_timeout_secs_def clamp_def)
  then show ?thesis
    using try_receive_plain [of "''u''" "ex_region ?q" "''u''" ?q "ex_env l t" acct 1 vt None] that
    by (auto simp: replayed_def ex_deliverable [OF assms])
qed

section \<open>Receiving\<close>

text \<open>
  C9. A successful receive loses, duplicates and alters no message of the region but those past their
  retention: what each queue holds, up to receipt handles, visibility and receive counts, moves between
  the waiting and in-flight messages and to the dead-letter queue, and exactly the source queue's
  messages that are past their retention are gone, unless the receive replays an earlier attempt.
\<close>

theorem receive_conserves_messages:
  assumes "distinct (map fst (ss_queues st))" "resolve_queue_url input st = Some url"
    and "map_of (ss_queues st) url = Some q"
    and "try_receive_messages env acct input n req_vt att st = (Inr out, st')"
  shows "region_contents st' + (if replays env att q then {#} else past_retention (now env) q) = region_contents st"
  using assms by (rule try_receive_conserves)

theorem receive_conserves_messages_witness:
  "\<exists>out st'. try_receive_messages (ex_env ''h'' (seconds 400000)) ''123456789012'' ''u'' 1 None None
       (ex_region (ex_queue False [ex_message ''a'' None])) = (Inr out, st') \<and>
     region_contents st' + {# ex_message ''a'' None #} = region_contents (ex_region (ex_queue False [ex_message ''a'' None]))"
proof -
  let ?q = "ex_queue False [ex_message ''a'' None]" and ?env = "ex_env ''h'' (seconds 400000)"
  obtain out st' where run: "try_receive_messages ?env ''123456789012'' ''u'' 1 None None (ex_region ?q) = (Inr out, st')"
    using try_receive_plain [OF ex_region_queue(1,2) ex_env_plain(1)] by metis
  have "region_contents st' + (if replays ?env None ?q then {#} else past_retention (now ?env) ?q) = region_contents (ex_region ?q)"
    by (rule receive_conserves_messages [OF _ ex_region_queue(1,2) run]) simp
  moreover have "\<not> replays ?env None ?q" "past_retention (now ?env) ?q = {# ex_message ''a'' None #}"
    by (simp_all add: replays_def past_retention_def retained_def retention_seconds_def num_seconds_def seconds_def payload_def
        ex_message_def)
  ultimately show ?thesis using run by auto
qed

text \<open>
  C10. A message that was handed out is not handed out again before its visibility timeout, by any
  queue of the region, except to a replay of a receive attempt: whatever receives, sends, deliveries,
  deletions, moves, reconfigurations and visibility changes of other messages come in between.
\<close>

theorem received_message_stays_hidden:
  assumes "unique_ids st" "distinct (map fst (ss_queues st))"
    and "resolve_queue_url input st = Some url" "map_of (ss_queues st) url = Some q"
    and "try_receive_messages env acct input n req_vt att st = (Inr out, st1)" "\<not> replays env att q" "m \<in> set out"
    and "d = now env + seconds (unwrap_or req_vt (visibility_timeout_secs q))"
    and "(quiet (m_id m) d)\<^sup>*\<^sup>* st1 st2"
    and "resolve_queue_url input' st2 = Some url'" "map_of (ss_queues st2) url' = Some q'"
    and "try_receive_messages env' acct' input' n' req_vt' att' st2 = (Inr out', st3)" "\<not> replays env' att' q'" "now env' < d"
  shows "m_id m \<notin> m_id ` set out'"
proof -
  have "hidden_until (m_id m) d st1" unfolding assms(8) by (rule receive_hides_batch [OF assms(1-7)])
  then have "hidden_until (m_id m) d st2" by (rule quiet_steps_hide [OF assms(9)])
  then show ?thesis by (rule hidden_not_received [OF _ assms(14,10,11,12,13)])
qed

theorem received_message_stays_hidden_witness:
  "\<exists>m st1 r st2 out' st3.
     try_receive_messages (ex_env ''h'' 0) ''123456789012'' ''u'' 1 None None (ex_region (ex_queue False [ex_message ''a'' None])) =
       (Inr [m], st1) \<and> m_id m = ''a'' \<and>
     on_queue ''u'' (send_to_queue (ex_env ''k'' 3) ''123456789012'' ex_params) st1 = (r, st2) \<and>
     try_receive_messages (ex_env ''l'' 5) ''123456789012'' ''u'' 10 None None st2 = (Inr out', st3) \<and> ''a'' \<notin> m_id ` set out'"
proof -
  let ?q = "ex_queue False [ex_message ''a'' None]" and ?m = "delivered (ex_env ''h'' 0) 30 0 (ex_message ''a'' None)"
  obtain st1 where run: "try_receive_messages (ex_env ''h'' 0) ''123456789012'' ''u'' 1 None None (ex_region ?q) = (Inr [?m], st1)"
    using ex_receive [of 0 "''h''" "''123456789012''" None False "''a''" None] by auto
  obtain q1 where q1: "map_of (ss_queues st1) ''u'' = Some q1"
    by (rule try_receive_source [OF run ex_region_queue(1,2)]) simp_all
  have u1: "resolve_queue_url ''u'' st1 = Some ''u''"
    using same_names_resolve [OF try_receive_same_names [OF run]] by simp
  obtain r q2 where send: "send_to_queue (ex_env ''k'' 3) ''123456789012'' ex_params q1 = (r, q2)" by fastforce
  let ?st2 = "set_queue ''u'' q2 st1"
  have st2: "on_queue ''u'' (send_to_queue (ex_env ''k'' 3) ''123456789012'' ex_params) st1 = (r, ?st2)"
    using q1 u1 send by (simp add: on_queue_def)
  have q2: "resolve_queue_url ''u'' ?st2 = Some ''u''" "map_of (ss_queues ?st2) ''u'' = Some q2"
    using same_names_resolve [OF same_names_set_queue] u1 q1 by (simp_all add: map_of_set_queue)
  obtain out' st3 where again: "try_receive_messages (ex_env ''l'' 5) ''123456789012'' ''u'' 10 None None ?st2 = (Inr out', st3)"
    using try_receive_plain [OF q2 ex_env_plain(1)] by metis
  have quiet: "(quiet (m_id ?m) (30 * 1000000000))\<^sup>*\<^sup>* st1 ?st2"
    by (rule r_into_rtranclp, rule quiet.send [OF _ st2]) simp
  have "m_id ?m \<notin> m_id ` set out'"
    by (rule received_message_stays_hidden [OF ex_region_unique _ ex_region_queue(1,2) run _ _ _ quiet q2 again])
      (simp_all add: replays_def replayed_def visibility_timeout_secs_def clamp_def seconds_def)
  then show ?thesis using run st2 again by (intro exI conjI) (assumption | simp)+
qed

text \<open>
  C11. What a receive answers, for every queue and every attempt identifier: a replayed attempt gets the
  messages of that attempt that are still in flight; otherwise the batch is exactly the first so many
  deliverable messages, in order, each with a fresh handle, its count raised by one and its visibility
  moved. From an encrypted queue the bodies come decrypted, and the answer is the error of the first
  body that cannot be decrypted.
\<close>

theorem receive_returns_deliverable:
  assumes "resolve_queue_url input st = Some url" "map_of (ss_queues st) url = Some q"
  shows "fst (try_receive_messages env acct input n req_vt att st) = readable env acct q
    (if q_is_fifo q \<and> replayed att (fresh_queue env q) \<noteq> [] then replayed att (fresh_queue env q)
     else deliver_from env (unwrap_or req_vt (visibility_timeout_secs q)) 0 (take n (deliverable (now env) q)))"
  using try_receive_answer [OF assms, of env acct n req_vt att] by (simp add: batch_of_def replays_def)

theorem receive_returns_deliverable_witness:
  "fst (try_receive_messages ((ex_env ''h'' 5)\<lparr>kms := Some ex_hook\<rparr>) ''123456789012'' ''u'' 10 (Some 60) None
      (ex_region ((ex_queue True [(ex_message ''a'' (Some ''g''))\<lparr>m_body := ''fakecloud-kms:hello''\<rparr>])
         \<lparr>q_attributes := [(''KmsMasterKeyId'', ''k'')]\<rparr>))) =
    Inr [(delivered (ex_env ''h'' 5) 60 0 (ex_message ''a'' (Some ''g'')))\<lparr>m_body := ''hello''\<rparr>]"
proof -
  let ?m = "(ex_message ''a'' (Some ''g''))\<lparr>m_body := ''fakecloud-kms:hello''\<rparr>"
  let ?q = "(ex_queue True [?m])\<lparr>q_attributes := [(''KmsMasterKeyId'', ''k'')]\<rparr>" and ?env = "(ex_env ''h'' 5)\<lparr>kms := Some ex_hook\<rparr>"
  have d: "deliverable 5 ?q = [?m]"
    by (simp add: deliverable_def refreshed_def return_expired_def expire_retention_def retained_def retention_seconds_def
        num_seconds_def Let_def visible_def poisoned_def inflight_group_def)
  have r: "readable ?env ''123456789012'' ?q [delivered ?env 60 0 ?m] = Inr [(delivered ?env 60 0 ?m)\<lparr>m_body := ''hello''\<rparr>]"
    by (simp add: readable_def encrypted_def effective_kms_key_id_def decrypt_message_body_def looks_like_fakecloud_envelope_def
        with_bodies_def ex_hook_def ex_env_def starts_with_def)
  have "(delivered ?env 60 0 ?m)\<lparr>m_body := ''hello''\<rparr> = (delivered (ex_env ''h'' 5) 60 0 (ex_message ''a'' (Some ''g'')))\<lparr>m_body := ''hello''\<rparr>"
    by (simp add: delivered_def bump_def ex_message_def)
  then show ?thesis
    using receive_returns_deliverable [OF ex_region_queue(1,2) [of ?q], of ?env "''123456789012''" 10 "Some 60" None] r
    by (simp add: d replayed_def)
qed

lemma received_source:
  assumes "resolve_queue_url input st = Some url" "map_of (ss_queues st) url = Some q"
    and "try_receive_messages env acct input n req_vt att st = (Inr out, st')" "\<not> replays env att q"
    and "m \<in> set out"
  obtains x where "x \<in> set (take n (deliverable (now env) q))" "m_id m = m_id x" "m_group m = m_group x"
    "m_receive_count m = m_receive_count x + 1"
proof -
  let ?f = "\<lambda>m. (m_id m, m_group m, m_receive_count m)" and ?g = "\<lambda>m. (m_id m, m_group m, m_receive_count m + 1)"
  have "map ?f out = map ?g (take n (deliverable (now env) q))"
  proof -
    have "map ?f out = map ?f (deliver_from env (unwrap_or req_vt (visibility_timeout_secs q)) 0 (take n (deliverable (now env) q)))"
      by (rule try_receive_result [OF assms(3,1,2)]) (use assms(4) in \<open>auto simp: replays_def\<close>)
    also have "\<dots> = map ?g (take n (deliverable (now env) q))" by (rule map_deliver_from) simp
    finally show ?thesis .
  qed
  moreover have "?f m \<in> ?f ` set out" using assms(5) by (rule imageI)
  ultimately have "?f m \<in> ?g ` set (take n (deliverable (now env) q))" by (simp only: set_map [symmetric])
  then obtain x where "x \<in> set (take n (deliverable (now env) q))" "?f m = ?g x" by (rule imageE)
  then show ?thesis using that [of x] by simp
qed

lemma no_attempt_no_replay [simp]: "\<not> replays env None q"
  by (simp add: replays_def replayed_def)

text \<open>
  C22. Redrive: a receive that is not a replay hands out no message whose count exceeds
  \<^verbatim>\<open>maxReceiveCount\<close>, and when it does not fill its batch, every ready message that had reached the limit
  is at the end of the dead-letter queue afterwards, in order, with its delivery state cleared and
  everything else of it unchanged.
\<close>

theorem exhausted_messages_redriven:
  assumes "distinct (map fst (ss_queues st))"
    and "resolve_queue_url input st = Some url" "map_of (ss_queues st) url = Some q" "q_redrive_policy q = Some rp"
    and "map_of (ss_queues st) d = Some dq" "d \<noteq> url" "\<And>u. (u, rd_target_arn rp) \<in> set (directory st) \<longleftrightarrow> u = d"
    and "try_receive_messages env acct input n req_vt att st = (Inr out, st')" "\<not> replays env att q"
  shows "(\<forall>m \<in> set out. m_receive_count m \<le> rd_max_receive_count rp) \<and>
    (length out < n \<longrightarrow>
      map_of (ss_queues st') d = Some (dq\<lparr>q_messages := q_messages dq @ map payload (exhausted (now env) q)\<rparr>))"
proof -
  have "m_receive_count m \<le> rd_max_receive_count rp" if m: "m \<in> set out" for m
  proof -
    obtain x where x: "x \<in> set (take n (deliverable (now env) q))" "m_receive_count m = m_receive_count x + 1"
      using received_source [OF assms(2,3,8,9) m] by blast
    have "\<not> poisoned (q_redrive_policy q) x" using in_set_takeD [OF x(1)] by (simp add: deliverable_eligible)
    then show ?thesis using x(2) assms(4) by (simp add: poisoned_def)
  qed
  with receive_feeds_dead_letters [OF assms] show ?thesis by blast
qed

definition ex_exhausted_region :: sqs_state where
  "ex_exhausted_region =
     (ex_region (ex_queue False []))\<lparr>ss_queues :=
        [(''d'', (ex_queue False [])\<lparr>q_arn := ''arn:d''\<rparr>),
         (''u'', (ex_queue False [(ex_message ''a'' None)\<lparr>m_receive_count := 3\<rparr>, ex_message ''b'' None])
            \<lparr>q_redrive_policy := Some \<lparr>rd_target_arn = ''arn:d'', rd_max_receive_count = 3\<rparr>\<rparr>)]\<rparr>"

theorem exhausted_messages_redriven_witness:
  "\<exists>out st'. try_receive_messages (ex_env ''h'' 0) ''123456789012'' ''u'' 10 None None ex_exhausted_region = (Inr out, st') \<and>
     map m_id out = [''b''] \<and>
     map_of (ss_queues st') ''d'' = Some ((ex_queue False [ex_message ''a'' None])\<lparr>q_arn := ''arn:d''\<rparr>)"
proof -
  let ?rp = "\<lparr>rd_target_arn = ''arn:d'', rd_max_receive_count = 3\<rparr>"
  let ?q = "(ex_queue False [(ex_message ''a'' None)\<lparr>m_receive_count := 3\<rparr>, ex_message ''b'' None])\<lparr>q_redrive_policy := Some ?rp\<rparr>"
  let ?dq = "(ex_queue False [])\<lparr>q_arn := ''arn:d''\<rparr>" and ?env = "ex_env ''h'' 0"
  have q: "resolve_queue_url ''u'' ex_exhausted_region = Some ''u''" "map_of (ss_queues ex_exhausted_region) ''u'' = Some ?q"
    "map_of (ss_queues ex_exhausted_region) ''d'' = Some ?dq" "map fst (ss_queues ex_exhausted_region) = [''d'', ''u'']"
    by (simp_all add: ex_exhausted_region_def resolve_queue_url_def)
  have dir: "(u, rd_target_arn ?rp) \<in> set (directory ex_exhausted_region) \<longleftrightarrow> u = ''d''" for u
    by (simp add: directory_def ex_exhausted_region_def) (simp add: ex_queue_def)
  have r: "refreshed 0 ?q = ?q"
    by (simp add: refreshed_def return_expired_def expire_retention_def retained_def retention_seconds_def num_seconds_def)
  have e: "eligible 0 ?q = q_messages ?q" by (simp add: eligible_def r Let_def visible_def group_load_def)
  have sel: "deliverable 0 ?q = [ex_message ''b'' None]" "exhausted 0 ?q = [(ex_message ''a'' None)\<lparr>m_receive_count := 3\<rparr>]"
    by (simp_all add: deliverable_eligible exhausted_def e poisoned_def)
  obtain out st' where run: "try_receive_messages ?env ''123456789012'' ''u'' 10 None None ex_exhausted_region = (Inr out, st')"
    using try_receive_plain [OF q(1,2) ex_env_plain(1)] by metis
  have out: "map m_id out = [''b'']" using received_ids [OF run q(1,2)] by (simp add: sel)
  have "(\<forall>m \<in> set out. m_receive_count m \<le> rd_max_receive_count ?rp) \<and> (length out < 10 \<longrightarrow>
      map_of (ss_queues st') ''d'' = Some (?dq\<lparr>q_messages := q_messages ?dq @ map payload (exhausted (now ?env) ?q)\<rparr>))"
    by (rule exhausted_messages_redriven [OF _ q(1,2) _ q(3) _ dir run]) (simp_all add: q(4))
  moreover have "length out < 10" using arg_cong [OF out, of length] by simp
  moreover have "?dq\<lparr>q_messages := q_messages ?dq @ map payload (exhausted (now ?env) ?q)\<rparr> =
      (ex_queue False [ex_message ''a'' None])\<lparr>q_arn := ''arn:d''\<rparr>"
    by (simp add: sel) (simp add: payload_def ex_queue_def ex_message_def)
  ultimately show ?thesis using run out by auto
qed

text \<open>
  C17. Message groups of a FIFO queue: while a message of a group is in flight, a receive hands out no
  message of the group, whatever its attempt identifier; the replay of an attempt returns messages
  that are in flight already.
\<close>

theorem fifo_group_is_locked:
  assumes "resolve_queue_url input st = Some url" "map_of (ss_queues st) url = Some q" "q_is_fifo q"
    and "try_receive_messages env acct input n req_vt att st = (Inr out, st')" "m \<in> set out"
    and "x \<in> set (q_inflight q)" "retained (now env) q x" "\<not> lapsed (now env) x"
  shows "if replays env att q then m_id m \<in> m_id ` set (q_inflight q) else m_group m = None \<or> m_group m \<noteq> m_group x"
proof (cases "replays env att q")
  case True
  then have "map m_id out = map m_id (replayed att (fresh_queue env q))"
    using receive_replays [OF assms(4,1,2), of m_id] by simp
  then have "m_id m \<in> m_id ` set (replayed att (fresh_queue env q))" using assms(5) by (metis image_eqI set_map)
  then show ?thesis using True replayed_in_flight [of att "fresh_queue env q"] by auto
next
  case False
  obtain y where "y \<in> set (take n (deliverable (now env) q))" "m_group m = m_group y"
    using received_source [OF assms(1,2,4) False assms(5)] by blast
  then show ?thesis using False fifo_deliverable_unlocked [OF assms(3) in_set_takeD assms(6-8)] by metis
qed

theorem fifo_group_is_locked_witness:
  "\<exists>out st'. try_receive_messages (ex_env ''h'' 0) ''123456789012'' ''u'' 1 None (Some ''t'')
       (ex_region ((ex_queue True [ex_message ''a'' (Some ''g'')])
          \<lparr>q_inflight := [(ex_message ''b'' (Some ''g''))\<lparr>m_visible_at := Some 7\<rparr>]\<rparr>)) = (Inr out, st') \<and>
     Some ''g'' \<notin> m_group ` set out"
proof -
  let ?x = "(ex_message ''b'' (Some ''g''))\<lparr>m_visible_at := Some 7\<rparr>" and ?env = "ex_env ''h'' 0"
  let ?q = "(ex_queue True [ex_message ''a'' (Some ''g'')])\<lparr>q_inflight := [?x]\<rparr>"
  obtain out st' where run: "try_receive_messages ?env ''123456789012'' ''u'' 1 None (Some ''t'') (ex_region ?q) = (Inr out, st')"
    using try_receive_plain [OF ex_region_queue(1,2) ex_env_plain(1)] by metis
  have "\<not> replays ?env (Some ''t'') ?q"
    by (simp add: replays_def replayed_def fresh_queue_def prune_attempts_def bt_retain_def ex_queue_def)
  moreover have "if replays ?env (Some ''t'') ?q then m_id m \<in> m_id ` set (q_inflight ?q) else m_group m = None \<or> m_group m \<noteq> m_group ?x"
    if "m \<in> set out" for m
    by (rule fifo_group_is_locked [OF ex_region_queue(1,2) _ run that])
      (simp_all add: retained_def retention_seconds_def num_seconds_def lapsed_def)
  ultimately have "m_group m \<noteq> Some ''g''" if "m \<in> set out" for m using that by fastforce
  then have "Some ''g'' \<notin> m_group ` set out" by fastforce
  with run show ?thesis by blast
qed

text \<open>
  C18. Order within a group of a FIFO queue: the messages of a group that a receive returns are the
  first of the group's waiting messages, in order, passing over only those that are still delayed and
  those that go to the dead-letter queue; the replay of an attempt keeps to the messages of that attempt.
\<close>

theorem fifo_group_order:
  assumes "resolve_queue_url input st = Some url" "map_of (ss_queues st) url = Some q" "q_is_fifo q"
    and "try_receive_messages env acct input n req_vt att st = (Inr out, st')"
  shows "if replays env att q then map m_id out = map m_id (replayed att (fresh_queue env q))
    else \<exists>rest. map m_id (filter (\<lambda>m. m_group m = Some g)
        (filter (\<lambda>m. visible (now env) m \<and> \<not> poisoned (q_redrive_policy q) m) (q_messages (refreshed (now env) q)))) =
      map m_id (filter (\<lambda>m. m_group m = Some g) out) @ rest"
proof (cases "replays env att q")
  case True
  then show ?thesis using receive_replays [OF assms(4,1,2), of m_id] by simp
next
  case False
  let ?src = "take n (deliverable (now env) q)" and ?in_g = "\<lambda>m. m_group m = Some g"
  let ?vt = "unwrap_or req_vt (visibility_timeout_secs q)"
  have "map (\<lambda>m. (m_group m, m_id m)) out = map (\<lambda>m. (m_group m, m_id m)) (deliver_from env ?vt 0 ?src)"
    by (rule try_receive_result [OF assms(4,1,2)]) (use False in \<open>auto simp: replays_def\<close>)
  also have "\<dots> = map (\<lambda>m. (m_group m, m_id m)) ?src" by (rule map_deliver_from) simp
  finally have eq: "map (\<lambda>m. (m_group m, m_id m)) out = map (\<lambda>m. (m_group m, m_id m)) ?src" .
  have ids: "map m_id (filter ?in_g ms) = map snd (filter (\<lambda>p. fst p = Some g) (map (\<lambda>m. (m_group m, m_id m)) ms))" for ms
    by (induction ms) simp_all
  have same: "map m_id (filter ?in_g out) = map m_id (filter ?in_g ?src)" unfolding ids eq ..
  obtain rest where "filter ?in_g (filter (\<lambda>m. visible (now env) m \<and> \<not> poisoned (q_redrive_policy q) m)
      (q_messages (refreshed (now env) q))) = filter ?in_g ?src @ rest"
    using fifo_deliverable_order [OF assms(3)] by blast
  from arg_cong [OF this, of "map m_id"] show ?thesis
    unfolding if_not_P [OF False] same map_append by (rule exI)
qed

theorem fifo_group_order_witness:
  "\<exists>out st' rest. try_receive_messages (ex_env ''h'' 0) ''123456789012'' ''u'' 1 None None
       (ex_region (ex_queue True [(ex_message ''z'' (Some ''g''))\<lparr>m_visible_at := Some 7\<rparr>,
          ex_message ''a'' (Some ''g''), ex_message ''b'' (Some ''g'')])) = (Inr out, st') \<and>
     [''a'', ''b''] = map m_id (filter (\<lambda>m. m_group m = Some ''g'') out) @ rest"
proof -
  let ?q = "ex_queue True [(ex_message ''z'' (Some ''g''))\<lparr>m_visible_at := Some 7\<rparr>, ex_message ''a'' (Some ''g''), ex_message ''b'' (Some ''g'')]"
  let ?env = "ex_env ''h'' 0"
  obtain out st' where run: "try_receive_messages ?env ''123456789012'' ''u'' 1 None None (ex_region ?q) = (Inr out, st')"
    using try_receive_plain [OF ex_region_queue(1,2) ex_env_plain(1)] by metis
  have q: "refreshed 0 ?q = ?q"
    by (simp add: refreshed_def return_expired_def expire_retention_def retained_def retention_seconds_def num_seconds_def)
  have "if replays ?env None ?q then map m_id out = map m_id (replayed None (fresh_queue ?env ?q))
    else \<exists>rest. map m_id (filter (\<lambda>m. m_group m = Some ''g'')
        (filter (\<lambda>m. visible (now ?env) m \<and> \<not> poisoned (q_redrive_policy ?q) m) (q_messages (refreshed (now ?env) ?q)))) =
      map m_id (filter (\<lambda>m. m_group m = Some ''g'') out) @ rest"
    by (rule fifo_group_order [OF ex_region_queue(1,2) _ run]) simp
  then show ?thesis using run by (auto simp: q visible_def poisoned_def)
qed

text \<open>
  C26. Fair delivery from a standard queue: a message is only handed out before another deliverable one
  when its group has no more messages in flight than the other's.
\<close>

theorem standard_queue_fair:
  assumes "resolve_queue_url input st = Some url" "map_of (ss_queues st) url = Some q" "\<not> q_is_fifo q"
    and "try_receive_messages env acct input n req_vt None st = (Inr out, st')" "m \<in> set out"
    and "y \<in> set (deliverable (now env) q)" "y \<notin> set (take n (deliverable (now env) q))"
  shows "\<exists>x \<in> set (deliverable (now env) q). m_id x = m_id m \<and>
    group_load (refreshed (now env) q) x \<le> group_load (refreshed (now env) q) y"
proof -
  obtain x where "x \<in> set (take n (deliverable (now env) q))" "m_id m = m_id x"
    using received_source [OF assms(1,2,4) _ assms(5)] by auto
  then show ?thesis using standard_deliverable_fair [OF assms(3) _ assms(6,7)] in_set_takeD by metis
qed

theorem standard_queue_fair_witness:
  "\<exists>out st'. try_receive_messages (ex_env ''h'' 0) ''123456789012'' ''u'' 1 None None
       (ex_region (ex_queue False [ex_message ''a'' None, ex_message ''b'' (Some ''g'')])) = (Inr out, st') \<and>
     (\<forall>m \<in> set out. \<exists>x. m_id x = m_id m \<and>
        group_load (refreshed 0 (ex_queue False [ex_message ''a'' None, ex_message ''b'' (Some ''g'')])) x \<le>
        group_load (refreshed 0 (ex_queue False [ex_message ''a'' None, ex_message ''b'' (Some ''g'')])) (ex_message ''b'' (Some ''g'')))"
proof -
  let ?q = "ex_queue False [ex_message ''a'' None, ex_message ''b'' (Some ''g'')]"
  have d: "deliverable 0 ?q = [ex_message ''a'' None, ex_message ''b'' (Some ''g'')]"
    by (simp add: deliverable_def refreshed_def return_expired_def expire_retention_def retained_def retention_seconds_def
        num_seconds_def Let_def ex_queue_def ex_message_def visible_def poisoned_def group_load_def)
  have ab: "ex_message ''b'' (Some ''g'') \<noteq> ex_message ''a'' None" by (simp add: ex_message_def)
  obtain out st' where run: "try_receive_messages (ex_env ''h'' 0) ''123456789012'' ''u'' 1 None None (ex_region ?q) = (Inr out, st')"
    using try_receive_plain [OF ex_region_queue(1,2) ex_env_plain(1)] by metis
  have fair: "\<exists>x \<in> set (deliverable (now (ex_env ''h'' 0)) ?q). m_id x = m_id m \<and>
    group_load (refreshed (now (ex_env ''h'' 0)) ?q) x \<le> group_load (refreshed (now (ex_env ''h'' 0)) ?q) (ex_message ''b'' (Some ''g''))"
    if "m \<in> set out" for m
    by (rule standard_queue_fair [OF ex_region_queue(1,2) _ run that]) (simp_all add: d ab)
  show ?thesis by (intro exI conjI, rule run) (use fair in auto)
qed

text \<open>
  C23. A receipt handle works: the handle of a newly handed out message deletes, from the queue as the
  receive leaves it, exactly that message, which is in flight there, and changes nothing else. The
  generated handles are assumed new and distinct, and message identifiers unique.
\<close>

theorem received_handle_deletes:
  assumes "unique_ids st" "distinct (map fst (ss_queues st))"
    and "resolve_queue_url input st = Some url" "map_of (ss_queues st) url = Some q"
    and "try_receive_messages env acct input n req_vt att st = (Inr out, st')" "\<not> replays env att q"
    and "bt_wf (q_receipt_handle_map q)"
    and "\<And>mid i. (mid, uuid env i) \<notin> receipts (q_receipt_handle_map q)" "inj (uuid env)"
    and "m \<in> set out"
  shows "\<exists>h q' before x after. m_receipt_handle m = Some h \<and> map_of (ss_queues st') url = Some q' \<and>
    q_inflight q' = before @ x # after \<and> m_id x = m_id m \<and>
    delete_from_queue h q' = (Inr (), q'\<lparr>q_inflight := before @ after\<rparr>)"
proof -
  have "\<not> q_is_fifo q \<or> replayed att (fresh_queue env q) = []" using assms(6) by (simp add: replays_def)
  then obtain h q' where h: "m_receipt_handle m = Some h" "map_of (ss_queues st') url = Some q'"
    "delete_from_queue h q' = (Inr (), drop_message (m_id m) q')" "m_id m \<in> m_id ` set (q_inflight q')"
    using delete_received [OF assms(5,3,4) _ assms(7-10)] by blast
  have "region_contents st' \<subseteq># region_contents st"
    using try_receive_conserves [OF assms(2-5)] by (metis mset_subset_eq_add_left)
  then have "distinct (queue_ids q')" using unique_ids_queue [OF unique_ids_subset [OF assms(1)] h(2)] by simp
  from drop_in_flight [OF this h(4)] h show ?thesis by metis
qed

theorem received_handle_deletes_witness:
  "\<exists>m st' h q' before x after. try_receive_messages (ex_env ''h'' 0) ''123456789012'' ''u'' 1 None None
       (ex_region (ex_queue False [ex_message ''a'' None])) = (Inr [m], st') \<and>
     m_receipt_handle m = Some h \<and> map_of (ss_queues st') ''u'' = Some q' \<and>
     q_inflight q' = before @ x # after \<and> m_id x = ''a'' \<and>
     delete_from_queue h q' = (Inr (), q'\<lparr>q_inflight := before @ after\<rparr>)"
proof -
  let ?q = "ex_queue False [ex_message ''a'' None]" and ?m = "delivered (ex_env ''h'' 0) 30 0 (ex_message ''a'' None)"
  obtain st' where run: "try_receive_messages (ex_env ''h'' 0) ''123456789012'' ''u'' 1 None None (ex_region ?q) = (Inr [?m], st')"
    using ex_receive [of 0 "''h''" "''123456789012''" None False "''a''" None] by auto
  have "\<exists>h q' before x after. m_receipt_handle ?m = Some h \<and> map_of (ss_queues st') ''u'' = Some q' \<and>
      q_inflight q' = before @ x # after \<and> m_id x = m_id ?m \<and>
      delete_from_queue h q' = (Inr (), q'\<lparr>q_inflight := before @ after\<rparr>)"
    by (rule received_handle_deletes [OF ex_region_unique _ ex_region_queue(1,2) run])
      (simp_all add: receipts_def inj_def show_nat_inject bt_wf_def)
  with run show ?thesis by auto
qed

text \<open>
  C27. A long poll ends: whatever other requests do between two attempts, the loop of
  \<^verbatim>\<open>receive_message\<close> returns, as every wait moves the clock on.
\<close>

theorem long_poll_ends:
  assumes "\<And>i. clock i < clock (i + 1)"
  shows "\<exists>r. receive_message env_at start clock interfere req ms = Some r"
proof -
  have "poll_loop try_once clock deadline interfere 0 ms \<noteq> None" for try_once deadline
    using poll_loop_ends [of clock try_once deadline interfere 0 ms, OF assms] by auto
  then have "receive_message env_at start clock interfere req ms \<noteq> None"
    by (simp add: receive_message_def Let_def del: not_None_eq split: option.split)
  then show ?thesis by (simp only: not_None_eq)
qed

theorem long_poll_ends_witness:
  "\<exists>r. receive_message (\<lambda>i. ex_env ''h'' (int i)) 0 (\<lambda>i. int i) (\<lambda>_ ms. ms)
     (ex_sqs_request [(''QueueUrl'', ''u''), (''WaitTimeSeconds'', ''20'')])
     (multi_new (regional_ops sqs_ops) ''123456789012'' ''us-east-1'' []) = Some r"
  by (rule long_poll_ends) simp

section \<open>Sending\<close>

text \<open>
  C15. Deduplication on a FIFO queue: after a send that stored a message, a second send with the same
  deduplication key within five minutes succeeds with the first one's message identifier and
  sequence number, and stores nothing.
\<close>

theorem duplicate_send_absorbed:
  assumes "q_is_fifo q" "bt_wf (q_dedup_cache q)"
    and "send_to_queue env acct p q = (Inr r, q1)" "q_messages q1 \<noteq> q_messages q"
    and "check_fifo_send_constraints q (sp_delay p') (sp_group p') (sp_dedup p') = Inr ()"
    and "dedup_key env' q p' = dedup_key env q p" "now env' < now env + seconds 300"
  shows "\<exists>r' q2. send_to_queue env' acct' p' q1 = (Inr r', q2) \<and> q_messages q2 = q_messages q1 \<and>
    map_of r' ''MessageId'' = map_of r ''MessageId'' \<and> map_of r' ''SequenceNumber'' = map_of r ''SequenceNumber''"
proof -
  obtain k where k: "dedup_key env' q p' = Some k" using constraints_give_key [OF assms(5,1)] by blast
  note stored = send_stored_entry [OF assms(1,2) k [unfolded assms(6)] assms(3,4)]
  then obtain mid seq where e: "map_of (q_dedup_cache q1) k =
      Some \<lparr>de_message_id = mid, de_sequence_number = seq, de_expiry = now env + seconds 300\<rparr>" "r = send_reply env mid seq p"
    by blast
  have cbd: "content_based_dedup q1 = content_based_dedup q" using stored(3) by (simp add: content_based_dedup_def)
  have "check_fifo_send_constraints q1 = check_fifo_send_constraints q"
    unfolding check_fifo_send_constraints_def cbd using assms(1) stored(2) by simp
  moreover have "dedup_key env' q1 p' = dedup_key env' q p'"
    unfolding dedup_key_def effective_dedup_id_def dedup_cache_key_def cbd stored(3) using assms(1) stored(2) by simp
  ultimately have "check_fifo_send_constraints q1 (sp_delay p') (sp_group p') (sp_dedup p') = Inr ()" "dedup_key env' q1 p' = Some k"
    using assms(5) k by simp_all
  from send_replays_entry [OF stored(2,1) this e(1)] assms(7)
  have "send_to_queue env' acct' p' q1 = (Inr (send_reply env' mid seq p'), prune_dedup (now env') q1)" by simp
  then show ?thesis using e(2) by (simp add: send_reply_fields prune_dedup_def)
qed

theorem duplicate_send_absorbed_witness:
  "\<exists>r q1 r' q2. send_to_queue (ex_env ''h'' 0) ''123456789012'' ex_params (ex_queue True []) = (Inr r, q1) \<and>
     map m_id (q_messages q1) = [''h0''] \<and>
     send_to_queue (ex_env ''k'' 7) ''123456789012'' (ex_params\<lparr>sp_body := ''again''\<rparr>) q1 = (Inr r', q2) \<and>
     q_messages q2 = q_messages q1"
proof -
  obtain r q1 where run: "send_to_queue (ex_env ''h'' 0) ''123456789012'' ex_params (ex_queue True []) = (Inr r, q1)"
    and one: "map m_id (q_messages q1) = [''h0'']"
    by (rule ex_send)
  have "\<exists>r' q2. send_to_queue (ex_env ''k'' 7) ''123456789012'' (ex_params\<lparr>sp_body := ''again''\<rparr>) q1 = (Inr r', q2) \<and>
      q_messages q2 = q_messages q1 \<and> map_of r' ''MessageId'' = map_of r ''MessageId'' \<and>
      map_of r' ''SequenceNumber'' = map_of r ''SequenceNumber''"
  proof (rule duplicate_send_absorbed [OF _ _ run])
    show "q_messages q1 \<noteq> q_messages (ex_queue True [])" using one by auto
  qed (simp_all add: check_fifo_send_constraints_def dedup_key_def effective_dedup_id_def seconds_def bt_wf_def ex_params_def)
  then obtain r' q2 where again: "send_to_queue (ex_env ''k'' 7) ''123456789012'' (ex_params\<lparr>sp_body := ''again''\<rparr>) q1 = (Inr r', q2)"
    "q_messages q2 = q_messages q1" by (elim exE conjE) (rule that)
  show ?thesis by (intro exI conjI, rule run, rule one, rule again(1), rule again(2))
qed

text \<open>
  C16. Sequence numbers of a FIFO queue: the messages that the queue numbers, through single sends,
  batches and deliveries of other services, in whatever order and with any other operation that leaves
  the counter alone in between, carry numbers that parse to strictly increasing integers, as long as
  the counter stays within the 64-bit range left above the base.
\<close>

theorem sequence_numbers_increase:
  assumes "numbered q ms q'" "q_is_fifo q" "q_next_sequence_number q' \<le> 8446744073709551616"
  shows "\<exists>ns. sorted_wrt (<) ns \<and> map (\<lambda>m. Option.bind (m_sequence_number m) parse_u64) ms = map Some ns"
proof -
  have "issued q ms q'" by (rule numbered_issued [OF assms(1)]) (use assms(3) in simp)
  then obtain ns where a: "map m_sequence_number ms = map (Some \<circ> format_sequence_number) ns" "sorted_wrt (<) ns"
    "\<forall>n \<in> set ns. n < q_next_sequence_number q'"
    using assms(2) by (auto simp: issued_def)
  have n: "parse_u64 (format_sequence_number x) = Some (sequence_number_base + x)" if "x \<in> set ns" for x
    by (rule format_sequence_number_value) (use a(3) assms(3) that in fastforce)
  have "map (\<lambda>m. Option.bind (m_sequence_number m) parse_u64) ms =
      map (\<lambda>s. Option.bind s parse_u64) (map m_sequence_number ms)" by simp
  also have "\<dots> = map Some (map ((+) sequence_number_base) ns)"
    unfolding a(1) map_map by (rule map_cong [OF refl]) (simp only: comp_apply bind.bind_lunit n)
  finally show ?thesis using a(2) by (intro exI [of _ "map ((+) sequence_number_base) ns"]) (simp add: sorted_wrt_map)
qed

theorem sequence_numbers_increase_witness:
  "\<exists>a b q' ns. numbered (ex_queue True []) [a, b] q' \<and> sorted_wrt (<) ns \<and>
     map (\<lambda>m. Option.bind (m_sequence_number m) parse_u64) [a, b] = map Some ns"
proof -
  let ?q = "ex_queue True []"
  obtain r q1 where s: "send_to_queue (ex_env ''h'' 0) ''123456789012'' ex_params ?q = (Inr r, q1)" "length (q_messages q1) = 1"
    "q_is_fifo q1" "q_next_sequence_number q1 = 1" "q_attributes q1 = []"
    by (simp add: ex_send_defs)
  obtain a where a: "q_messages q1 = q_messages ?q @ [a]" using s(2) by (cases "q_messages q1") simp_all
  obtain b q2 where d: "deliver_into (ex_env ''k'' 1) ''123456789012'' ''us-east-1'' ''x'' [] (Some ''g'') (Some ''e'') q1 = (Inr (), q2)"
    "q_messages q2 = q_messages q1 @ [b]" "q_next_sequence_number q2 = 2"
    by (simp add: deliver_into_def s(3-5) delivery_body_def)
  have "numbered ?q ([] @ [a]) q1" by (rule numbered.send [OF numbered.start s(1) a])
  from numbered.delivery [OF this d(1,2)] have n: "numbered ?q [a, b] q2" by simp
  have "\<exists>ns. sorted_wrt (<) ns \<and> map (\<lambda>m. Option.bind (m_sequence_number m) parse_u64) [a, b] = map Some ns"
    by (rule sequence_numbers_increase [OF n]) (simp_all add: d(3))
  with n show ?thesis by blast
qed



text \<open>
  A batch never fails as a whole once its entries are being stored: each entry ends up either in the
  successful or in the failed list, and at most the successful ones add a message at the queue's end.
\<close>

theorem batch_send_partial_success:
  "\<exists>ss fs new. fst (send_entries env cfg k es q) = Inr (ss, fs) \<and> length ss + length fs = length es \<and>
     q_messages (snd (send_entries env cfg k es q)) = q_messages q @ new \<and> length new \<le> length ss"
  by (rule send_entries_result)

text \<open>
  Encryption at rest is transparent: a body that was encrypted for storage decrypts to itself, for
  a KMS hook that inverts its own envelopes. Without a key the stored text is the body, which must
  then not look like an envelope.
\<close>

theorem kms_round_trip:
  assumes "kms_faithful env text" "encrypt_message_body env acct queue_arn key text = Inr stored"
    and "stored = text \<longrightarrow> kms env = None \<or> \<not> looks_like_fakecloud_envelope env text \<or> opt_filter (\<lambda>k. k \<noteq> []) key \<noteq> None"
  shows "decrypt_message_body env acct queue_arn stored = Inr text"
  using assms by (rule encrypt_decrypt)

theorem kms_round_trip_witness:
  "encrypt_message_body ((ex_env ''h'' 0)\<lparr>kms := Some ex_hook\<rparr>) ''123456789012'' ''q'' (Some ''k'') ''hello'' =
     Inr ''fakecloud-kms:hello'' \<and>
   decrypt_message_body ((ex_env ''h'' 0)\<lparr>kms := Some ex_hook\<rparr>) ''123456789012'' ''q'' ''fakecloud-kms:hello'' = Inr ''hello''"
proof -
  let ?env = "(ex_env ''h'' 0)\<lparr>kms := Some ex_hook\<rparr>"
  have e: "encrypt_message_body ?env ''123456789012'' ''q'' (Some ''k'') ''hello'' = Inr ''fakecloud-kms:hello''"
    by (simp add: encrypt_message_body_def ex_hook_def)
  have "kms_faithful ?env ''hello''"
    by (auto simp: kms_faithful_def ex_hook_def ex_env_def looks_like_fakecloud_envelope_def starts_with_def)
  from kms_round_trip [OF this e] e show ?thesis by simp
qed

text \<open>
  A receive that fails to decrypt loses messages: those that had just exceeded the receive limit are
  in neither the queue nor its dead-letter queue afterwards. Here \<^verbatim>\<open>a\<close> vanishes and \<^verbatim>\<open>b\<close> is put back.
\<close>

theorem decrypt_failure_loses_dead_letters:
  "case try_receive_messages ((ex_env ''h'' 0)\<lparr>kms := Some ex_hook\<rparr>) ''123456789012'' ''u'' 10 None None ex_dlq_region of
     (r, st') \<Rightarrow> isl r \<and>
       map (\<lambda>(u, q). (u, map m_id (q_messages q @ q_inflight q))) (ss_queues ex_dlq_region) = [(''d'', []), (''u'', [''a'', ''b''])] \<and>
       map (\<lambda>(u, q). (u, map m_id (q_messages q @ q_inflight q))) (ss_queues st') = [(''d'', []), (''u'', [''b''])]"
  by code_simp

text \<open>
  Order within a FIFO group is not kept across visibility changes: in the schedule above the
  messages are first delivered as \<^verbatim>\<open>1\<close>, \<^verbatim>\<open>2\<close> and redelivered as \<^verbatim>\<open>2\<close>, \<^verbatim>\<open>1\<close>, since a message that returns is
  put in front of one of its group that returned earlier.
\<close>

theorem fifo_redelivery_reorders: "ex_reorder_schedule = [[''1'', ''2''], [], [''2'', ''1'']]"
  by code_simp

end
