(* ===== verification/Sqs_Permissions.thy ===== *)
theory Sqs_Permissions
  imports Sqs_Queues Policy_Store
begin

text \<open>
  Queue permissions (\<^verbatim>\<open>fakecloud-sqs/src/service/permissions.rs\<close>) and the policy a queue hands to the
  policy engine (\<^verbatim>\<open>fakecloud-sqs/src/resource_policy.rs\<close>).

  \<open>permission_document\<close> computes the parsed form of the document \<^verbatim>\<open>AddPermission\<close> writes, and
  \<open>permission_decision\<close> the decision the engine takes on it: the named accounts, the named actions,
  this queue, and nothing else.
\<close>

section \<open>Adding and removing permissions\<close>

definition permission_list :: "json \<Rightarrow> string \<Rightarrow> string \<Rightarrow> string list" where
  "permission_list body field prefix =
     (case as_array (json_index body field) of
        Some arr \<Rightarrow> List.map_filter as_str arr
      | None \<Rightarrow> parse_numbered_params body prefix)"

definition owner_only :: "string list" where
  "owner_only =
     [''AddPermission'', ''RemovePermission'', ''CreateQueue'', ''DeleteQueue'', ''SetQueueAttributes'', ''TagQueue'',
      ''UntagQueue'']"

definition check_permission :: "string list \<Rightarrow> string list \<Rightarrow> service_error + unit" where
  "check_permission actions account_ids =
     (if actions = [] then
        Inl (aws_error 400 ''MissingParameter'' ''The request must contain the parameter Actions.'')
      else if account_ids = [] then
        Inl (aws_error 400 ''InvalidParameterValue''
          ''Value [] for parameter PrincipalId is invalid. Reason: Unable to verify.'')
      else if 7 < length actions then
        Inl (aws_error 403 ''OverLimit'' (show_nat (length actions) @ '' Actions were found, maximum allowed is 7.''))
      else
        (case find (\<lambda>a. a \<in> set owner_only) actions of
           Some a \<Rightarrow>
             Inl (aws_error 400 ''InvalidParameterValue''
               (''Value SQS:'' @ a @ '' for parameter ActionName is invalid. Reason: Only the queue owner is allowed to invoke this action.''))
         | None \<Rightarrow> Inr ()))"

definition policy_statements :: "sqs_env \<Rightarrow> sqs_queue \<Rightarrow> json list" where
  "policy_statements env q =
     (case Option.bind (map_of (q_attributes q) ''Policy'') (from_json env) of
        Some policy \<Rightarrow> unwrap_or (as_array (json_index policy ''Statement'')) []
      | None \<Rightarrow> [])"

definition arn_partition :: "string \<Rightarrow> string" where
  "arn_partition a = (case arn_from_str a of Inr x \<Rightarrow> a_partition x | Inl _ \<Rightarrow> ''aws'')"

definition action_value :: "string list \<Rightarrow> json" where
  "action_value actions =
     (case map (\<lambda>a. JStr (if a = ''*'' then ''SQS:*'' else ''SQS:'' @ a)) actions of
        [v] \<Rightarrow> v
      | vs \<Rightarrow> JArr vs)"

definition permission_statement :: "string \<Rightarrow> string \<Rightarrow> string list \<Rightarrow> string \<Rightarrow> json" where
  "permission_statement queue_arn label actions account_id =
     JObj [(''Sid'', JStr label), (''Effect'', JStr ''Allow''),
           (''Principal'', JObj [(''AWS'',
              JStr (arn_to_string (with_partition (arn_partition queue_arn) (arn_global ''iam'' account_id ''root''))))]),
           (''Action'', action_value actions), (''Resource'', JStr queue_arn)]"

definition policy_value :: "string \<Rightarrow> json list \<Rightarrow> json" where
  "policy_value queue_arn statements =
     JObj [(''Version'', JStr ''2012-10-17''), (''Id'', JStr (queue_arn @ ''/SQSDefaultPolicy'')),
           (''Statement'', JArr statements)]"

definition add_permission_to ::
  "sqs_env \<Rightarrow> string \<Rightarrow> string list \<Rightarrow> string list \<Rightarrow> (sqs_queue, unit) handler" where
  "add_permission_to env label actions account_ids q =
     (if label \<in> set (q_permission_labels q)
      then (Inl (aws_error 400 ''InvalidParameterValue''
              (''Value '' @ label @ '' for parameter Label is invalid. Reason: Already exists.'')), q)
      else
        (let statements = policy_statements env q @ map (permission_statement (q_arn q) label actions) account_ids
         in (Inr (), q\<lparr>q_permission_labels := q_permission_labels q @ [label],
                       q_attributes := bt_insert ''Policy'' (to_json env (policy_value (q_arn q) statements)) (q_attributes q)\<rparr>)))"

definition add_permission :: "sqs_env \<Rightarrow> aws_request \<Rightarrow> (sqs_store, aws_response) handler" where
  "add_permission env req =
     (let body = parse_body env req;
          actions = permission_list body ''Actions'' ''ActionName'';
          account_ids = permission_list body ''AWSAccountIds'' ''AWSAccountId''
      in h_bind (h_lift (required_str body ''QueueUrl'')) (\<lambda>queue_url.
         h_bind (h_lift (required_str body ''Label'')) (\<lambda>label.
         h_bind (with_region (req_account_id req) (req_region req)
                  (\<lambda>st. (ok_or (resolve_queue_url queue_url st) queue_not_found, st))) (\<lambda>_.
         h_bind (h_lift (check_permission actions account_ids)) (\<lambda>_.
         h_bind (with_region (req_account_id req) (req_region req)
                  (on_queue queue_url (add_permission_to env label actions account_ids))) (\<lambda>_.
         h_ok (reply ''AddPermission'' req (JObj []))))))))"

definition without_label :: "string \<Rightarrow> json list \<Rightarrow> json list" where
  "without_label label stmts = filter (\<lambda>s. as_str (json_index s ''Sid'') \<noteq> Some label) stmts"

definition remove_permission_from :: "sqs_env \<Rightarrow> string \<Rightarrow> (sqs_queue, unit) handler" where
  "remove_permission_from env label q =
     (if label \<notin> set (q_permission_labels q)
      then (Inl (aws_error 400 ''InvalidParameterValue''
              (''Value '' @ label @ '' for parameter Label is invalid. Reason: can'' @ [CHR 0x27] @ ''t find label on existing policy.'')), q)
      else
        (let q1 = q\<lparr>q_permission_labels := filter (\<lambda>l. l \<noteq> label) (q_permission_labels q)\<rparr>
         in case Option.bind (map_of (q_attributes q) ''Policy'') (from_json env) of
              None \<Rightarrow> (Inr (), q1)
            | Some policy \<Rightarrow>
                (case as_array (json_index policy ''Statement'') of
                   None \<Rightarrow> (Inr (), q1)
                 | Some stmts \<Rightarrow>
                     (Inr (), q1\<lparr>q_attributes := bt_insert ''Policy''
                        (to_json env (json_set ''Statement'' (JArr (without_label label stmts)) policy))
                        (q_attributes q)\<rparr>))))"

definition remove_permission :: "sqs_env \<Rightarrow> aws_request \<Rightarrow> (sqs_store, aws_response) handler" where
  "remove_permission env req =
     (let body = parse_body env req
      in h_bind (h_lift (required_str body ''QueueUrl'')) (\<lambda>queue_url.
         h_bind (h_lift (required_str body ''Label'')) (\<lambda>label.
         h_bind (with_region (req_account_id req) (req_region req)
                  (on_queue queue_url (remove_permission_from env label))) (\<lambda>_.
         h_ok (reply ''RemovePermission'' req (JObj []))))))"

section \<open>The policy of a queue\<close>

definition is_sqs_queue_arn :: "string \<Rightarrow> bool" where
  "is_sqs_queue_arn a =
     (case arn_resource a ''sqs'' of
        None \<Rightarrow> False
      | Some rest \<Rightarrow> (let parts = splitn 3 rest (CHR '':'') in length parts = 3 \<and> list_all (\<lambda>p. p \<noteq> []) parts))"

definition sqs_resource_policy :: "sqs_store \<Rightarrow> string \<Rightarrow> string \<Rightarrow> string option" where
  "sqs_resource_policy ms svc resource_arn =
     (if \<not> eq_ignore_ascii_case svc ''sqs'' then None
      else if \<not> is_sqs_queue_arn resource_arn then None
      else
        Option.bind (by_arn ms resource_arn) (\<lambda>st.
        Option.bind (find (\<lambda>q. q_arn q = resource_arn) (map snd (ss_queues st))) (\<lambda>q.
        map_of (q_attributes q) ''Policy'')))"

section \<open>What a permission grants\<close>

definition sqs_action :: "string \<Rightarrow> string" where
  "sqs_action a = (if a = ''*'' then ''SQS:*'' else ''SQS:'' @ a)"

lemma coerce_action_value: "coerce_string_list (action_value actions) = map sqs_action actions"
proof -
  have "List.map_filter as_str (map (\<lambda>a. JStr (sqs_action a)) xs) = map sqs_action xs" for xs
    by (induction xs) (simp_all add: List.map_filter_simps)
  then show ?thesis
    unfolding action_value_def sqs_action_def [symmetric]
    by (cases actions; cases "tl actions") (auto simp: List.map_filter_simps)
qed

lemma arn_partition_no_colon: "CHR '':'' \<notin> set (arn_partition a)"
proof (cases "arn_from_str a")
  case (Inr x)
  then have "splitn (Suc 5) a (CHR '':'') =
      [''arn'', a_partition x, a_service x, a_region x, a_account_id x, a_resource x]"
    by (auto simp: arn_from_str_def eval_nat_numeral split: list.splits if_splits)
  then show ?thesis using Inr by (auto simp: eval_nat_numeral arn_partition_def split_once_Some split: option.splits)
qed (simp add: arn_partition_def)

lemma classify_account_root:
  assumes "CHR '':'' \<notin> set p" "CHR '':'' \<notin> set acct" "acct \<noteq> []"
  shows "classify_aws_principal (arn_to_string (with_partition p (arn_global ''iam'' acct ''root''))) = AwsAccountRoot acct"
proof -
  have s: "arn_to_string (with_partition p (arn_global ''iam'' acct ''root'')) =
      ''arn:'' @ p @ '':iam::'' @ acct @ '':root''"
    by (simp add: arn_to_string_def with_partition_def arn_global_def arn_new_def)
  have "split_once (p @ '':iam::'' @ acct @ '':root'') (CHR '':'') = Some (p, ''iam::'' @ acct @ '':root'')"
    using assms(1) by (simp add: split_once_Some)
  moreover have "split_once (acct @ '':root'') (CHR '':'') = Some (acct, ''root'')"
    using assms(2) by (simp add: split_once_Some)
  ultimately show ?thesis using assms(3)
    unfolding s classify_aws_principal_def by (simp add: strip_prefix_def starts_with_def Let_def)
qed

definition account_statement :: "string \<Rightarrow> string list \<Rightarrow> string \<Rightarrow> parsed_statement" where
  "account_statement queue_arn actions acct =
     \<lparr>s_effect = EffAllow, s_action = Action (map sqs_action actions), s_resource = Resource [queue_arn], s_condition = None,
      s_principal = PrincipalIn [AwsAccountRoot acct], s_variables = True\<rparr>"

lemma parse_permission_statement:
  assumes "CHR '':'' \<notin> set acct" "acct \<noteq> []"
  shows "parse_statement (permission_statement queue_arn label actions acct) True =
    Some (account_statement queue_arn actions acct)"
  using classify_account_root [OF arn_partition_no_colon assms]
  by (simp add: parse_statement_def permission_statement_def account_statement_def parse_effect_def coerce_action_value)

lemma permission_document:
  assumes "list_all (\<lambda>a. CHR '':'' \<notin> set a \<and> a \<noteq> []) account_ids"
  shows "from_value (policy_value queue_arn (map (permission_statement queue_arn label actions) account_ids)) =
    map (account_statement queue_arn actions) account_ids"
proof -
  have "List.map_filter (\<lambda>s. parse_statement s True) (map (permission_statement queue_arn label actions) account_ids) =
      map (account_statement queue_arn actions) account_ids"
    using assms by (induction account_ids) (simp_all add: List.map_filter_simps parse_permission_statement)
  then show ?thesis by (simp add: from_value_def policy_value_def json_get_def Let_def)
qed

lemma permission_decision:
  assumes "\<not> has_variables queue_arn"
  shows "evaluate_resource_policy_only ch (map (account_statement queue_arn actions) account_ids) req = Allow \<longleftrightarrow>
    p_account_id (r_principal req) \<in> set account_ids \<and>
    action_matches (Action (map sqs_action actions)) (r_action req) \<and> iam_glob_match queue_arn (r_resource req) False"
proof -
  have "applies ch req True False (account_statement queue_arn actions acct) \<longleftrightarrow>
      p_account_id (r_principal req) = acct \<and> action_matches (Action (map sqs_action actions)) (r_action req) \<and>
      iam_glob_match queue_arn (r_resource req) False" for acct
    using assms by (auto simp: applies_def account_statement_def principal_gate_def principal_matches_scoped_def
        resource_matches_def)
  moreover have "s_effect (account_statement queue_arn actions acct) = EffAllow" for acct
    by (simp add: account_statement_def)
  ultimately show ?thesis
    by (auto simp: evaluate_resource_policy_only_def evaluate_inner_eq denies_def grants_def simp del: action_matches.simps)
qed

text \<open>
  \<^verbatim>\<open>serde_json\<close> reads what it printed. The law is asked of documents without numbers, whose printing is
  another matter, and with no key twice in an object, which a \<^verbatim>\<open>Value\<close> cannot have.
\<close>

fun json_plain :: "json \<Rightarrow> bool" where
  "json_plain (JNum _) = False"
| "json_plain (JArr vs) = list_all json_plain vs"
| "json_plain (JObj m) = (distinct (map fst m) \<and> list_all (\<lambda>e. json_plain (snd e)) m)"
| "json_plain _ = True"

definition json_faithful :: "sqs_env \<Rightarrow> bool" where
  "json_faithful env \<longleftrightarrow> (\<forall>v. json_plain v \<longrightarrow> from_json env (to_json env v) = Some v)"

lemma permission_statement_plain: "json_plain (permission_statement queue_arn label actions acct)"
proof -
  have "json_plain (action_value actions)"
    unfolding action_value_def by (auto simp: list_all_iff split: list.split)
  then show ?thesis by (simp add: permission_statement_def)
qed

lemma policy_value_plain: "json_plain (policy_value queue_arn statements) \<longleftrightarrow> list_all json_plain statements"
  by (simp add: policy_value_def)

lemma json_plain_insert:
  assumes "json_plain (JObj m)" "json_plain v"
  shows "json_plain (JObj (jmap_insert k v m))"
proof -
  have "list_all (\<lambda>e. json_plain (snd e)) (jmap_insert k v m)" if "list_all (\<lambda>e. json_plain (snd e)) m"
    using that assms(2) by (induction m) auto
  then show ?thesis using assms(1) by (simp add: distinct_jmap_insert)
qed

definition policy_plain :: "sqs_env \<Rightarrow> sqs_queue \<Rightarrow> bool" where
  "policy_plain env q \<longleftrightarrow>
     (\<forall>v. Option.bind (map_of (q_attributes q) ''Policy'') (from_json env) = Some v \<longrightarrow> json_plain v)"

lemma policy_statements_plain:
  assumes "policy_plain env q"
  shows "list_all json_plain (policy_statements env q)"
proof (cases "Option.bind (map_of (q_attributes q) ''Policy'') (from_json env)")
  case (Some v)
  then have v: "json_plain v" using assms by (simp add: policy_plain_def)
  have "json_plain (json_index v k)" for k
    using v by (cases v) (auto simp: json_index_def json_get_def list_all_iff dest: map_of_SomeD split: option.split)
  then have "as_array (json_index v k) = Some vs \<Longrightarrow> list_all json_plain vs" for k vs
    by (cases "json_index v k") (auto, metis json_plain.simps(2))
  then show ?thesis using Some by (cases "as_array (json_index v ''Statement'')") (simp_all add: policy_statements_def)
qed (simp add: policy_statements_def)

lemma permission_added:
  assumes "json_faithful env" "policy_plain env q" "add_permission_to env label actions account_ids q = (Inr (), q')"
  shows "Option.bind (map_of (q_attributes q') ''Policy'') (from_json env) =
      Some (policy_value (q_arn q) (policy_statements env q @ map (permission_statement (q_arn q) label actions) account_ids))"
    and "label \<in> set (q_permission_labels q')" "policy_plain env q'"
proof -
  let ?v = "policy_value (q_arn q) (policy_statements env q @ map (permission_statement (q_arn q) label actions) account_ids)"
  have plain: "json_plain ?v"
    using policy_statements_plain [OF assms(2)] permission_statement_plain
    unfolding policy_value_plain by (auto simp: list_all_iff)
  then have "from_json env (to_json env ?v) = Some ?v" using assms(1) by (simp add: json_faithful_def)
  moreover have q': "q' = q\<lparr>q_permission_labels := q_permission_labels q @ [label],
      q_attributes := bt_insert ''Policy'' (to_json env ?v) (q_attributes q)\<rparr>"
    using assms(3) by (simp add: add_permission_to_def Let_def split: if_splits)
  ultimately show stored: "Option.bind (map_of (q_attributes q') ''Policy'') (from_json env) = Some ?v"
    by (simp add: map_of_bt_insert)
  show "label \<in> set (q_permission_labels q')" unfolding q' by simp
  show "policy_plain env q'" unfolding policy_plain_def stored using plain by simp
qed

lemma policy_statements_added:
  assumes "json_faithful env" "policy_plain env q" "add_permission_to env label actions account_ids q = (Inr (), q')"
  shows "policy_statements env q' =
    policy_statements env q @ map (permission_statement (q_arn q) label actions) account_ids"
  unfolding policy_statements_def [of env q'] permission_added(1) [OF assms]
  by (simp add: policy_value_def json_index_def json_get_def)

lemma policy_statements_removed:
  assumes "json_faithful env" "policy_plain env q" "remove_permission_from env label q = (Inr (), q')"
  shows "policy_statements env q' = without_label label (policy_statements env q)"
proof (cases "Option.bind (map_of (q_attributes q) ''Policy'') (from_json env)")
  case None
  then show ?thesis using assms(3)
    by (auto simp: remove_permission_from_def policy_statements_def without_label_def Let_def split: if_splits)
next
  case (Some policy)
  show ?thesis
  proof (cases "as_array (json_index policy ''Statement'')")
    case None
    then show ?thesis using assms(3) Some
      by (auto simp: remove_permission_from_def policy_statements_def without_label_def Let_def split: if_splits)
  next
    case (Some stmts)
    then obtain m where m: "policy = JObj m" by (cases policy) (auto simp: json_index_def json_get_def)
    let ?v = "JObj (jmap_insert ''Statement'' (JArr (without_label label stmts)) m)"
    have "q' = q\<lparr>q_permission_labels := filter (\<lambda>l. l \<noteq> label) (q_permission_labels q),
        q_attributes := bt_insert ''Policy'' (to_json env ?v) (q_attributes q)\<rparr>"
      using assms(3) Some \<open>Option.bind _ _ = Some policy\<close>
      by (auto simp: remove_permission_from_def m json_set_def Let_def split: if_splits)
    moreover have "from_json env (to_json env ?v) = Some ?v"
    proof -
      have "json_plain (JObj m)" using assms(2) \<open>Option.bind _ _ = Some policy\<close> unfolding policy_plain_def m by blast
      moreover have "policy_statements env q = stmts"
        using Some \<open>Option.bind _ _ = Some policy\<close> by (simp add: policy_statements_def)
      then have "json_plain (JArr (without_label label stmts))"
        using policy_statements_plain [OF assms(2)] by (auto simp: without_label_def list_all_iff)
      ultimately have "json_plain ?v" by (rule json_plain_insert)
      then show ?thesis using assms(1) unfolding json_faithful_def by blast
    qed
    ultimately show ?thesis using Some \<open>Option.bind _ _ = Some policy\<close>
      by (simp add: policy_statements_def map_of_bt_insert m json_index_def json_get_def)
  qed
qed

lemma permission_removed:
  assumes "json_faithful env" "policy_plain env q" "add_permission_to env label actions account_ids q = (Inr (), q')"
  shows "fst (remove_permission_from env label q') = Inr ()"
    and "policy_statements env (snd (remove_permission_from env label q')) = without_label label (policy_statements env q)"
proof -
  show ok: "fst (remove_permission_from env label q') = Inr ()"
    using permission_added(2) [OF assms] by (auto simp: remove_permission_from_def Let_def split: option.split)
  have none: "without_label label (map (permission_statement (q_arn q) label actions) account_ids) = []"
    by (simp add: without_label_def permission_statement_def json_index_def json_get_def)
  have "remove_permission_from env label q' = (Inr (), snd (remove_permission_from env label q'))"
    using ok by (metis prod.collapse)
  from policy_statements_removed [OF assms(1) permission_added(3) [OF assms] this]
  show "policy_statements env (snd (remove_permission_from env label q')) = without_label label (policy_statements env q)"
    using none unfolding policy_statements_added [OF assms] by (simp add: without_label_def)
qed

end
