(* ===== verification/Sqs_Service.thy ===== *)
theory Sqs_Service
  imports Sqs_Delivery Sqs_Permissions
begin

text \<open>
  The queue service as the server runs it (\<^verbatim>\<open>impl AwsService for SqsService\<close> in
  \<^verbatim>\<open>fakecloud-sqs/src/service/mod.rs\<close>): the dispatch of the 23 actions, what the service tells the
  authorization layer about a request, and when a snapshot is written. A server is the store, the
  snapshot on disk, the flag that asks for one (\<^verbatim>\<open>run_delivery_flusher\<close> of \<^verbatim>\<open>delivery.rs\<close>) and the move
  workers that run in the background. A snapshot is the store itself; its JSON form is left out. Whether
  the snapshot store accepts it is up to the environment (\<open>snapshot_saved\<close>): a failed write leaves the
  former snapshot in place, as the store replaces its file in one step, and is only logged.

  \<open>sqs_step\<close> is one atomic step of a server: a request, one attempt of a receive, one iteration of a
  worker, a delivery, a simulation call, a flush, or a restart from the snapshot. The locale
  \<open>service_invariant\<close> shows once that what every operation keeps holds in all reachable servers.
\<close>

section \<open>Actions\<close>

definition plain_handlers :: "(string \<times> (sqs_env \<Rightarrow> aws_request \<Rightarrow> (sqs_store, aws_response) handler)) list" where
  "plain_handlers =
     [(''CreateQueue'', create_queue), (''DeleteQueue'', delete_queue), (''ListQueues'', list_queues),
      (''GetQueueUrl'', get_queue_url), (''GetQueueAttributes'', get_queue_attributes),
      (''SetQueueAttributes'', set_queue_attributes), (''SendMessage'', send_message),
      (''SendMessageBatch'', send_message_batch), (''DeleteMessage'', delete_message),
      (''DeleteMessageBatch'', delete_message_batch), (''PurgeQueue'', purge_queue),
      (''ChangeMessageVisibility'', change_message_visibility),
      (''ChangeMessageVisibilityBatch'', change_message_visibility_batch), (''ListQueueTags'', list_queue_tags),
      (''TagQueue'', tag_queue), (''UntagQueue'', untag_queue), (''AddPermission'', add_permission),
      (''RemovePermission'', remove_permission), (''ListDeadLetterSourceQueues'', list_dead_letter_source_queues),
      (''CancelMessageMoveTask'', cancel_message_move_task), (''ListMessageMoveTasks'', list_message_move_tasks)]"

definition supported_actions :: "string list" where
  "supported_actions =
     [''CreateQueue'', ''DeleteQueue'', ''ListQueues'', ''GetQueueUrl'', ''GetQueueAttributes'', ''SetQueueAttributes'',
      ''SendMessage'', ''SendMessageBatch'', ''ReceiveMessage'', ''DeleteMessage'', ''DeleteMessageBatch'',
      ''PurgeQueue'', ''ChangeMessageVisibility'', ''ChangeMessageVisibilityBatch'', ''ListQueueTags'', ''TagQueue'',
      ''UntagQueue'', ''AddPermission'', ''RemovePermission'', ''ListDeadLetterSourceQueues'',
      ''StartMessageMoveTask'', ''CancelMessageMoveTask'', ''ListMessageMoveTasks'']"

text \<open>The result of a handler, with the worker it spawned.\<close>

type_synonym served = "(service_error + aws_response \<times> move_worker option) \<times> sqs_store"

definition no_worker :: "(service_error + aws_response) \<times> sqs_store \<Rightarrow> served" where
  "no_worker = (\<lambda>(r, ms). (and_then r (\<lambda>resp. Inr (resp, None)), ms))"

text \<open>\<open>env_at\<close>, \<open>start\<close>, \<open>clock\<close> and \<open>interfere\<close> are the surroundings of a long poll.\<close>

definition sqs_dispatch ::
  "(nat \<Rightarrow> sqs_env) \<Rightarrow> int \<Rightarrow> (nat \<Rightarrow> int) \<Rightarrow> (nat \<Rightarrow> sqs_store \<Rightarrow> sqs_store) \<Rightarrow> aws_request \<Rightarrow> sqs_store \<Rightarrow> served option" where
  "sqs_dispatch env_at start clock interfere req ms =
     (if req_action req = ''ReceiveMessage''
      then map_option no_worker (receive_message env_at start clock interfere req ms)
      else if req_action req = ''StartMessageMoveTask'' then Some (start_message_move_task (env_at 0) req ms)
      else case map_of plain_handlers (req_action req) of
             Some h \<Rightarrow> Some (no_worker (h (env_at 0) req ms))
           | None \<Rightarrow> Some (Inl (ActionNotImplemented ''sqs'' (req_action req)), ms))"

section \<open>The server\<close>

record sqs_server =
  sv_store :: sqs_store
  sv_disk :: "sqs_store option"
  sv_dirty :: bool
  sv_workers :: "move_worker list"

text \<open>
  A server in memory mode has no snapshot store and never gets one. \<open>saved\<close> is whether the snapshot could
  be serialized and written.
\<close>

definition save_sqs_snapshot :: "bool \<Rightarrow> sqs_server \<Rightarrow> sqs_server" where
  "save_sqs_snapshot saved srv =
     (if saved then srv\<lparr>sv_disk := map_option (\<lambda>_. sv_store srv) (sv_disk srv)\<rparr> else srv)"

definition sqs_handle ::
  "(nat \<Rightarrow> sqs_env) \<Rightarrow> int \<Rightarrow> (nat \<Rightarrow> int) \<Rightarrow> (nat \<Rightarrow> sqs_store \<Rightarrow> sqs_store) \<Rightarrow> aws_request \<Rightarrow> sqs_server \<Rightarrow>
   ((service_error + aws_response) \<times> sqs_server) option" where
  "sqs_handle env_at start clock interfere req srv =
     map_option (\<lambda>(r, ms).
       (let srv1 = srv\<lparr>sv_store := ms, sv_workers := sv_workers srv @
              (case r of Inr (_, Some w) \<Rightarrow> [w] | _ \<Rightarrow> [])\<rparr>;
            ok = (case r of Inr (resp, _) \<Rightarrow> is_success resp | Inl _ \<Rightarrow> False)
        in (and_then r (\<lambda>(resp, _). Inr resp),
            if is_mutating_action (req_action req) \<and> ok then save_sqs_snapshot (snapshot_saved (env_at 0)) srv1 else srv1)))
       (sqs_dispatch env_at start clock interfere req (sv_store srv))"

text \<open>
  A delivery that succeeds marks the server; one turn of the flusher saves a marked one, and marks it
  again when that fails.
\<close>

definition server_deliver ::
  "sqs_env \<Rightarrow> string \<Rightarrow> string \<Rightarrow> (string \<times> delivery_attribute) list \<Rightarrow> string option \<Rightarrow> string option \<Rightarrow>
   sqs_server \<Rightarrow> (delivery_error + unit) \<times> sqs_server" where
  "server_deliver env queue_arn body attrs grp dedup srv =
     (let (r, ms) = try_deliver_to_queue_with_attrs env queue_arn body attrs grp dedup (sv_store srv)
      in (r, srv\<lparr>sv_store := ms, sv_dirty := sv_dirty srv \<or> r = Inr ()\<rparr>))"

definition run_delivery_flusher :: "bool \<Rightarrow> sqs_server \<Rightarrow> sqs_server" where
  "run_delivery_flusher saved srv =
     (if sv_dirty srv then save_sqs_snapshot saved (srv\<lparr>sv_dirty := \<not> saved\<rparr>) else srv)"

section \<open>Authorization\<close>

definition sqs_iam_action_for :: "sqs_env \<Rightarrow> aws_request \<Rightarrow> iam_action option" where
  "sqs_iam_action_for env req =
     map_option (\<lambda>act.
       \<lparr>ia_service = ''sqs'', ia_action = act,
        ia_resource = sqs_resource_for act
          (unwrap_or (map_option p_account_id (req_principal req)) (req_account_id req)) (req_region req) (parse_body env req)\<rparr>)
       (find (\<lambda>a. a = req_action req) supported_actions)"

definition sqs_iam_condition_keys_for :: "sqs_env \<Rightarrow> aws_request \<Rightarrow> iam_action \<Rightarrow> string list smap" where
  "sqs_iam_condition_keys_for env req act =
     (if ia_action act = ''SendMessage''
      then fold (\<lambda>(name, attr). bt_insert (''sqs:messageattribute.'' @ name)
             [unwrap_or (ma_string_value attr) (ma_data_type attr)]) (parse_message_attributes env (parse_body env req)) []
      else [])"

definition sqs_resource_tags_for :: "sqs_store \<Rightarrow> string \<Rightarrow> string smap option" where
  "sqs_resource_tags_for ms resource_arn =
     (if resource_arn = ''*'' then Some []
      else
        (let parts = split_char resource_arn (CHR '':'')
         in if length parts < 6 then None
            else
              Option.bind (by_arn ms resource_arn) (\<lambda>st.
              Option.bind (map_of (ss_name_to_url st) (parts ! 5)) (\<lambda>url.
              map_option q_tags (map_of (ss_queues st) url)))))"

definition query_tags :: "(string \<times> string) list \<Rightarrow> string \<Rightarrow> string smap \<Rightarrow> string smap" where
  "query_tags params prefix tags =
     (let kk = (\<lambda>i. prefix @ show_nat i @ ''.Key''); vk = (\<lambda>i. prefix @ show_nat i @ ''.Value'')
      in fold (\<lambda>i. bt_insert (the (map_of params (kk i))) (the (map_of params (vk i))))
           (numbered params (\<lambda>i. map_of params (kk i) \<noteq> None \<and> map_of params (vk i) \<noteq> None)) tags)"

definition sqs_request_tags_from :: "sqs_env \<Rightarrow> aws_request \<Rightarrow> string \<Rightarrow> string smap option" where
  "sqs_request_tags_from env req act =
     (if act = ''CreateQueue'' \<or> act = ''TagQueue''
      then
        (let body = parse_body env req;
             json_tags = fold (\<lambda>field tags. insert_strings (unwrap_or (as_object (json_index body field)) []) tags)
                           [''tags'', ''Tags''] []
         in Some (fold (query_tags (req_query_params req)) [''Tag.'', ''Tags.member.'', ''tags.member.'', ''tag.''] json_tags))
      else Some [])"

section \<open>Steps of a server\<close>

text \<open>
  A restart loads the snapshot and resumes the move tasks it finds. What a server does with a message
  between two steps, such as waiting for the rate of a worker, changes nothing and is no step.
\<close>

definition sqs_restart :: "nat \<Rightarrow> sqs_server \<Rightarrow> sqs_server" where
  "sqs_restart pid srv =
     (case sv_disk srv of
        None \<Rightarrow> srv
      | Some ms \<Rightarrow>
          (let (workers, ms') = resume_message_move_tasks pid ms
           in \<lparr>sv_store = ms', sv_disk = Some ms, sv_dirty = False, sv_workers = workers\<rparr>))"

text \<open>\<open>ok\<close> is what is assumed of the environment of a request.\<close>

inductive sqs_step :: "(sqs_env \<Rightarrow> bool) \<Rightarrow> sqs_server \<Rightarrow> sqs_server \<Rightarrow> bool" for ok where
  request:
    "ok env \<Longrightarrow> req_action req \<noteq> ''ReceiveMessage'' \<Longrightarrow>
     sqs_handle (\<lambda>_. env) 0 (\<lambda>_. 0) (\<lambda>_ ms. ms) req srv = Some (r, srv') \<Longrightarrow> sqs_step ok srv srv'"
| attempt:
    "with_region acct rgn (try_receive_messages env acct url n vt att) (sv_store srv) = (r, ms) \<Longrightarrow>
     sqs_step ok srv (srv\<lparr>sv_store := ms\<rparr>)"
| checkpoint: "sqs_step ok srv (save_sqs_snapshot saved srv)"
| work:
    "w \<in> set (sv_workers srv) \<Longrightarrow> worker_step cancelled w (sv_store srv) = (w', ms) \<Longrightarrow>
     sqs_step ok srv (srv\<lparr>sv_store := ms, sv_workers := remove1 w (sv_workers srv) @ (case w' of Some v \<Rightarrow> [v] | None \<Rightarrow> [])\<rparr>)"
| deliver: "server_deliver env a body attrs grp dedup srv = (r, srv') \<Longrightarrow> sqs_step ok srv srv'"
| tick: "sqs_step ok srv (srv\<lparr>sv_store := snd (tick_expiration t (sv_store srv))\<rparr>)"
| force: "sqs_step ok srv (srv\<lparr>sv_store := snd (force_dlq acct rgn name (sv_store srv))\<rparr>)"
| flush: "sqs_step ok srv (run_delivery_flusher saved srv)"
| restart: "sqs_step ok srv (sqs_restart pid srv)"

definition server_new :: "string \<Rightarrow> string \<Rightarrow> string \<Rightarrow> bool \<Rightarrow> sqs_server" where
  "server_new acct rgn endpoint persistent =
     (let ms = multi_new (regional_ops sqs_ops) acct rgn endpoint
      in \<lparr>sv_store = ms, sv_disk = (if persistent then Some ms else None), sv_dirty = False, sv_workers = []\<rparr>)"

inductive sqs_reachable :: "(sqs_env \<Rightarrow> bool) \<Rightarrow> sqs_server \<Rightarrow> bool" for ok where
  start: "sqs_reachable ok (server_new acct rgn endpoint persistent)"
| step: "sqs_reachable ok srv \<Longrightarrow> sqs_step ok srv srv' \<Longrightarrow> sqs_reachable ok srv'"

inductive_cases sqs_stepE: "sqs_step ok srv srv'"

section \<open>What holds in every reachable server\<close>

definition server_holds :: "(sqs_state \<Rightarrow> bool) \<Rightarrow> sqs_server \<Rightarrow> bool" where
  "server_holds p srv \<longleftrightarrow> everywhere p (sv_store srv) \<and> is_none_or (sv_disk srv) (everywhere p)"

lemma snd_no_worker [simp]: "snd (no_worker p) = snd p"
  by (simp add: no_worker_def prod.case_eq_if)

text \<open>
  An invariant of the service: besides the laws of \<open>region_invariant\<close>, the operations on the
  configuration keep it.
\<close>

locale service_invariant = region_invariant +
  fixes ok :: "sqs_env \<Rightarrow> bool"
  assumes create_law: "region_keeps rgn rinv (create_in_region env rgn name given tags)"
    and delete_law: "region_keeps rgn rinv (delete_in_region input)"
    and set_law: "ok env \<Longrightarrow>
      region_keeps rgn rinv (set_in_region env input (as_object (json_index (parse_body env req) ''Attributes'')))"
    and permit_law: "region_keeps rgn rinv (on_queue input (add_permission_to env label actions accts))"
    and revoke_law: "region_keeps rgn rinv (on_queue input (remove_permission_from env label))"
begin

lemma region_keeps_wrap:
  "region_keeps rgn rinv g \<Longrightarrow> region_keeps rgn rinv (\<lambda>st. case g st of (r, st') \<Rightarrow> (f st r, st'))"
  by (simp add: region_keeps_def prod.case_eq_if)

lemma region_keeps_moves:
  "region_keeps rgn rinv (start_in_region env acct rgn' src dest rate)" "region_keeps rgn rinv (cancel_in_region h)"
  by (rule region_keeps_config, rule region_config_start) (rule region_keeps_config, rule region_config_cancel)

lemmas service_intros = keeps_intros region_keeps_wrap create_law delete_law permit_law revoke_law region_keeps_moves

lemma start_keeps: "keeps rinv (start_message_move_task env req)"
  unfolding start_message_move_task_def Let_def case_prod_beta by (intro service_intros)

lemma config_handlers_keep:
  "keeps rinv (create_queue env req)" "keeps rinv (delete_queue env req)"
  "keeps rinv (add_permission env req)" "keeps rinv (remove_permission env req)"
  "keeps rinv (cancel_message_move_task env req)" "keeps rinv (list_message_move_tasks env req)"
  unfolding create_queue_def delete_queue_def add_permission_def remove_permission_def cancel_message_move_task_def
    list_message_move_tasks_def Let_def
  by (intro service_intros)+

lemma set_attributes_keep: "ok env \<Longrightarrow> keeps rinv (set_queue_attributes env req)"
  unfolding set_queue_attributes_def Let_def by (intro service_intros set_law)

lemma plain_handlers_keep: "ok env \<Longrightarrow> map_of plain_handlers act = Some h \<Longrightarrow> keeps rinv (h env req)"
  by (auto simp: plain_handlers_def config_handlers_keep set_attributes_keep message_handlers_keep read_handlers_keep
      split: if_splits)

lemma receive_keeps:
  assumes "receive_message env_at start clock interfere req ms = Some r" "everywhere rinv ms"
    and "\<And>i ms. everywhere rinv ms \<Longrightarrow> everywhere rinv (interfere i ms)"
  shows "everywhere rinv (snd r)"
proof -
  have poll: "everywhere rinv (snd p)"
    if "poll_loop (\<lambda>i. with_region acct rgn (try_receive_messages (env_at i) acct url n vt att)) clock deadline interfere 0 ms = Some p"
    for acct rgn url n vt att deadline p
    using poll_loop_keeps [OF that assms(2) _ assms(3)] by (simp add: keeps_with_region region_keeps_receive)
  show ?thesis
    using assms(1,2) poll unfolding receive_message_def Let_def
    by (auto split: option.splits if_splits)
qed

lemma dispatch_keeps:
  assumes "sqs_dispatch env_at start clock interfere req ms = Some r" "everywhere rinv ms" "ok (env_at 0)"
    and "\<And>i ms. everywhere rinv ms \<Longrightarrow> everywhere rinv (interfere i ms)"
  shows "everywhere rinv (snd r)"
proof -
  have h: "everywhere rinv (snd (h (env_at 0) req ms))" if "map_of plain_handlers (req_action req) = Some h" for h
    using plain_handlers_keep [OF assms(3) that] assms(2) by (simp add: keeps_def)
  have s: "everywhere rinv (snd (start_message_move_task (env_at 0) req ms))"
    using start_keeps assms(2) by (simp add: keeps_def)
  have r: "everywhere rinv (snd p)" if "receive_message env_at start clock interfere req ms = Some p" for p
    using receive_keeps [OF that assms(2,4)] .
  show ?thesis
    using assms(1,2) h s r unfolding sqs_dispatch_def
    by (auto split: option.splits if_splits)
qed

lemma save_keeps: "server_holds rinv srv \<Longrightarrow> server_holds rinv (save_sqs_snapshot saved srv)"
  by (auto simp: server_holds_def save_sqs_snapshot_def is_none_or_def split: option.splits)

lemma handle_keeps:
  assumes "sqs_handle env_at start clock interfere req srv = Some (r, srv')" "server_holds rinv srv" "ok (env_at 0)"
    and "\<And>i ms. everywhere rinv ms \<Longrightarrow> everywhere rinv (interfere i ms)"
  shows "server_holds rinv srv'"
proof -
  obtain p where p: "sqs_dispatch env_at start clock interfere req (sv_store srv) = Some p"
    using assms(1) by (auto simp: sqs_handle_def)
  let ?srv = "srv\<lparr>sv_store := snd p, sv_workers := sv_workers srv @ (case fst p of Inr (_, Some w) \<Rightarrow> [w] | _ \<Rightarrow> [])\<rparr>"
  have "server_holds rinv ?srv"
    using dispatch_keeps [OF p _ assms(3,4)] assms(2) by (simp add: server_holds_def)
  moreover have "srv' \<in> {?srv, save_sqs_snapshot (snapshot_saved (env_at 0)) ?srv}"
    using assms(1) by (simp add: sqs_handle_def p prod.case_eq_if Let_def split: if_split_asm)
  ultimately show ?thesis using save_keeps by blast
qed

lemma step_keeps: "sqs_step ok srv srv' \<Longrightarrow> server_holds rinv srv \<Longrightarrow> server_holds rinv srv'"
proof (induction rule: sqs_step.induct)
  case (request env req srv r srv')
  then show ?case using handle_keeps by blast
next
  case (attempt acct rgn env url n vt att srv r ms)
  have "keeps rinv (with_region acct rgn (try_receive_messages env acct url n vt att))"
    by (simp add: keeps_with_region region_keeps_receive)
  then have "everywhere rinv (snd (r, ms))"
    using attempt unfolding keeps_def server_holds_def by metis
  then show ?case using attempt(2) by (simp add: server_holds_def)
next
  case (work w srv cancelled w' ms)
  then show ?case using worker_keeps [of "sv_store srv" cancelled w] by (simp add: server_holds_def)
next
  case (deliver env a body attrs grp dedup srv r srv')
  then show ?case
    using deliver_keeps [of "sv_store srv" env a body attrs grp dedup]
    by (auto simp: server_holds_def server_deliver_def prod.case_eq_if Let_def)
next
  case (restart srv pid)
  then show ?case
    using resume_keeps by (auto simp: server_holds_def sqs_restart_def is_none_or_def prod.case_eq_if Let_def split: option.splits)
next
  case (flush srv saved)
  then show ?case
    using save_keeps [of "srv\<lparr>sv_dirty := \<not> saved\<rparr>"] by (simp add: run_delivery_flusher_def server_holds_def)
qed (simp_all add: save_keeps, simp_all add: server_holds_def tick_keeps force_keeps)

lemma reachable_holds: "sqs_reachable ok srv \<Longrightarrow> server_holds rinv srv"
proof (induction rule: sqs_reachable.induct)
  case (start acct rgn endpoint persistent)
  have "regional (multi_new (regional_ops sqs_ops) acct rgn endpoint) a r = None" for a r
    by (simp add: regional_def multi_get_def multi_new_def region_get_def regional_ops_def regional_new_def)
  then show ?case by (simp add: server_holds_def server_new_def everywhere_def Let_def)
qed (rule step_keeps)

end

lemma permission_card:
  "queue_card (snd (add_permission_to env label actions accts q)) = queue_card q"
  "queue_card (snd (remove_permission_from env label q)) = queue_card q"
  by (simp_all add: add_permission_to_def remove_permission_from_def queue_card_def Let_def split: option.split)

lemma permission_modes:
  assumes "modes_exclusive (q_attributes q)"
  shows "modes_exclusive (q_attributes (snd (add_permission_to env label actions accts q)))"
    "modes_exclusive (q_attributes (snd (remove_permission_from env label q)))"
  using assms by (simp_all add: add_permission_to_def remove_permission_from_def modes_exclusive_def map_of_bt_insert Let_def
      split: option.split)

lemma region_keeps_modes:
  assumes "\<And>q. modes_exclusive (q_attributes q) \<Longrightarrow> modes_exclusive (q_attributes (snd (f q)))"
  shows "region_keeps rgn region_modes (on_queue input f)"
  unfolding region_keeps_def
proof (intro allI impI)
  fix st
  assume "ss_region st = rgn" "region_modes st"
  then show "ss_region (snd (on_queue input f st)) = rgn \<and> region_modes (snd (on_queue input f st))"
    using assms by (auto simp: on_queue_def prod.case_eq_if region_modes_set_queue region_modes_lookup split: option.split)
qed

interpretation dir_srv: service_invariant region_wf "\<lambda>_. True"
  by unfold_locales
    (rule create_keeps_directory, rule delete_keeps_directory, rule set_keeps_directory,
     (rule region_keeps_card, rule permission_card)+)

interpretation enc_srv: service_invariant region_modes json_objects_wf
  by unfold_locales
    (rule create_keeps_modes, rule delete_keeps_modes, rule set_keeps_modes, erule (1) request_attributes_distinct,
     (rule region_keeps_modes, erule permission_modes)+)

section \<open>Snapshots\<close>

definition reads_only :: "(sqs_store, 'a) handler \<Rightarrow> bool" where
  "reads_only h \<longleftrightarrow> (\<forall>ms. snd (h ms) = ms)"

lemma reads_only_steps:
  "reads_only (h_ok x)" "reads_only (h_err e)" "reads_only (h_lift y)" "reads_only (h_read f)"
  by (simp_all add: reads_only_def h_read_def)

lemma reads_only_bind: "reads_only m \<Longrightarrow> (\<And>x. reads_only (f x)) \<Longrightarrow> reads_only (h_bind m f)"
  unfolding reads_only_def h_bind_def by (auto split: prod.split sum.split dest: arg_cong [where f = snd])

lemma reading_handlers:
  "reads_only (list_queues env req)" "reads_only (get_queue_url env req)" "reads_only (get_queue_attributes env req)"
  "reads_only (list_queue_tags env req)" "reads_only (list_dead_letter_source_queues env req)"
  "reads_only (list_message_move_tasks env req)"
  unfolding list_queues_def get_queue_url_def get_queue_attributes_def list_queue_tags_def
    list_dead_letter_source_queues_def list_message_move_tasks_def Let_def
  by (intro reads_only_steps reads_only_bind)+

lemma unsaved_actions_read:
  assumes "map_of plain_handlers act = Some h" "\<not> is_mutating_action act"
  shows "reads_only (h env req)"
  using assms by (auto simp: plain_handlers_def is_mutating_action_def reading_handlers split: if_splits)

lemma dispatch_unsaved:
  assumes "sqs_dispatch env_at start clock interfere req ms = Some r" "\<not> is_mutating_action (req_action req)"
  shows "snd r = ms"
proof -
  have "snd (h (env_at 0) req ms) = ms" if "map_of plain_handlers (req_action req) = Some h" for h
    using unsaved_actions_read [OF that assms(2)] by (simp add: reads_only_def)
  moreover have "req_action req \<noteq> ''ReceiveMessage''" "req_action req \<noteq> ''StartMessageMoveTask''"
    using assms(2) by (auto simp: is_mutating_action_def)
  ultimately show ?thesis
    using assms(1) by (auto simp: sqs_dispatch_def split: option.splits)
qed

text \<open>What a successful request leaves in memory and on disk.\<close>

lemma handled_saved:
  assumes "sqs_handle env_at start clock interfere req srv = Some (Inr resp, srv')" "is_success resp"
  shows "is_mutating_action (req_action req) \<Longrightarrow>
      sv_disk srv' = (if snapshot_saved (env_at 0) then map_option (\<lambda>_. sv_store srv') (sv_disk srv) else sv_disk srv)"
    and "\<not> is_mutating_action (req_action req) \<Longrightarrow> sv_store srv' = sv_store srv \<and> sv_disk srv' = sv_disk srv"
proof -
  obtain p where p: "sqs_dispatch env_at start clock interfere req (sv_store srv) = Some p"
    using assms(1) by (auto simp: sqs_handle_def)
  obtain w where r: "fst p = Inr (resp, w)"
    using assms(1) by (cases "fst p") (auto simp: sqs_handle_def p prod.case_eq_if Let_def)
  show "sv_disk srv' = (if snapshot_saved (env_at 0) then map_option (\<lambda>_. sv_store srv') (sv_disk srv) else sv_disk srv)"
    if "is_mutating_action (req_action req)"
    using assms that by (auto simp: sqs_handle_def p r prod.case_eq_if Let_def save_sqs_snapshot_def)
  show "sv_store srv' = sv_store srv \<and> sv_disk srv' = sv_disk srv" if "\<not> is_mutating_action (req_action req)"
    using assms that dispatch_unsaved [OF p] by (auto simp: sqs_handle_def p r prod.case_eq_if Let_def)
qed

lemma resume_queues: "ss_queues (snd (resume_region pid acct st)) = ss_queues st"
proof -
  have "ss_queues (snd (fold (resume_task pid acct) ts acc)) = ss_queues (snd acc)" for ts acc
    by (induction ts arbitrary: acc) (auto simp: resume_task_def modify_task_def split: option.split prod.split)
  from this [of _ "([], st)"] show ?thesis by (simp add: resume_region_def)
qed

lemma restart_queues:
  assumes "sv_disk srv = Some ms"
  shows "map_option ss_queues (regional (sv_store (sqs_restart pid srv)) a r) = map_option ss_queues (regional ms a r)"
  by (simp add: sqs_restart_def assms resume_message_move_tasks_def regional_iter_regional_mut resume_queues option.map_comp comp_def)

section \<open>The resource a request is authorized for\<close>

definition arn_input :: "string \<Rightarrow> bool" where
  "arn_input input \<longleftrightarrow>
     (let parts = split_char input (CHR '':'') in length parts = 6 \<and> parts ! 0 = ''arn'' \<and> parts ! 2 = ''sqs'')"

lemma split_char_single: "c \<notin> set s \<Longrightarrow> split_char s c = [s]"
  by (induction s) auto

lemma resolved_name:
  assumes "region_wf st" "resolve_queue_url input st = Some url" "map_of (ss_queues st) url = Some q"
    and "\<not> arn_input input" "CHR ''/'' \<notin> set (q_name q)"
  shows "last (split_char input (CHR ''/'')) = q_name q"
proof (cases "map_of (ss_queues st) input")
  case (Some p)
  then have eq: "input = url" using assms(2) by (simp add: resolve_queue_url_def)
  have url: "url = (ss_endpoint st @ CHR ''/'' # ss_account_id st) @ CHR ''/'' # q_name q"
    using region_wf_parts [OF assms(1)] assms(3) by (simp add: queue_wf_def queue_url_of_def)
  show ?thesis unfolding eq url split_char_last [OF assms(5)] by simp
next
  case None
  then have by_name: "opt_or (map_of (ss_name_to_url st) input)
      (map_of (ss_name_to_url st) (last (split_char input (CHR ''/'')))) = Some url"
    using assms(2,4) by (auto simp: resolve_queue_url_def arn_input_def Let_def split: if_splits)
  show ?thesis
  proof (cases "map_of (ss_name_to_url st) input")
    case None
    then show ?thesis using region_wf_name_eq [OF assms(1) _ assms(3)] by_name by simp
  next
    case (Some u)
    then have "q_name q = input" using region_wf_name_eq [OF assms(1) _ assms(3)] by_name by simp
    then show ?thesis using split_char_single assms(5) by simp
  qed
qed

definition by_queue_url :: "string list" where
  "by_queue_url = [''DeleteQueue'', ''GetQueueAttributes'', ''SetQueueAttributes'', ''SendMessage'', ''SendMessageBatch'',
     ''ReceiveMessage'', ''DeleteMessage'', ''DeleteMessageBatch'', ''PurgeQueue'', ''ChangeMessageVisibility'',
     ''ChangeMessageVisibilityBatch'', ''ListQueueTags'', ''TagQueue'', ''UntagQueue'', ''AddPermission'',
     ''RemovePermission'', ''ListDeadLetterSourceQueues'']"

lemma by_queue_url_actions:
  "list_all (\<lambda>a. a \<in> set supported_actions \<and> a \<notin> set [''ListQueues'', ''CreateQueue'', ''GetQueueUrl'',
     ''StartMessageMoveTask'', ''ListMessageMoveTasks'', ''CancelMessageMoveTask'']) by_queue_url"
  by code_simp

lemma resource_by_queue_url:
  assumes "act \<in> set by_queue_url" "as_str (json_index body ''QueueUrl'') = Some input"
  shows "sqs_resource_for act acct rgn body =
    ''arn:'' @ partition_for rgn @ '':sqs:'' @ rgn @ '':'' @ acct @ '':'' @ last (split_char input (CHR ''/''))"
proof -
  have "Option.bind (json_get body ''QueueUrl'') as_str = Some input"
    using assms(2) by (auto simp: json_index_def split: option.splits)
  moreover have "act \<notin> {''ListQueues'', ''CreateQueue'', ''GetQueueUrl'', ''StartMessageMoveTask'', ''ListMessageMoveTasks'',
      ''CancelMessageMoveTask''}"
    using by_queue_url_actions assms(1) unfolding list_all_iff by simp
  ultimately show ?thesis by (simp add: sqs_resource_for_def)
qed

lemma supported_find: "act \<in> set xs \<Longrightarrow> find (\<lambda>a. a = act) xs = Some act"
  by (induction xs) auto

lemma authorized_resource:
  assumes "region_wf st" "resolve_queue_url input st = Some url" "map_of (ss_queues st) url = Some q"
    and "\<not> arn_input input" "CHR ''/'' \<notin> set (q_name q)"
    and "req_action req \<in> set by_queue_url" "as_str (json_index (parse_body env req) ''QueueUrl'') = Some input"
    and "ss_region st = req_region req" "unwrap_or (map_option p_account_id (req_principal req)) (req_account_id req) = ss_account_id st"
  shows "sqs_iam_action_for env req = Some \<lparr>ia_service = ''sqs'', ia_action = req_action req, ia_resource = q_arn q\<rparr>"
proof -
  have "req_action req \<in> set supported_actions"
    using by_queue_url_actions assms(6) unfolding list_all_iff by blast
  moreover have "q_arn q = queue_arn_of st (q_name q)"
    using region_wf_parts [OF assms(1)] assms(3) by (simp add: queue_wf_def)
  ultimately show ?thesis
    using resource_by_queue_url [OF assms(6,7)] resolved_name [OF assms(1-5)] assms(8,9)
    by (simp add: sqs_iam_action_for_def supported_find queue_arn_of_def)
qed

lemma actions_covered:
  "set (map fst plain_handlers) \<union> {''ReceiveMessage'', ''StartMessageMoveTask''} = set supported_actions"
proof -
  have "list_all (\<lambda>a. a \<in> set supported_actions) (''ReceiveMessage'' # ''StartMessageMoveTask'' # map fst plain_handlers)"
    "list_all (\<lambda>a. a \<in> set (''ReceiveMessage'' # ''StartMessageMoveTask'' # map fst plain_handlers)) supported_actions"
    by code_simp+
  then show ?thesis unfolding list_all_iff by auto
qed

section \<open>Tenancy\<close>

lemma confined_read: "confined acct rgn (h_read f)"
  by (simp add: confined_def h_read_def)

lemmas tenancy_intros = confined_intros confined_read

lemma message_confined:
  "confined (req_account_id req) (req_region req) (send_message env req)"
  "confined (req_account_id req) (req_region req) (send_message_batch env req)"
  "confined (req_account_id req) (req_region req) (delete_message env req)"
  "confined (req_account_id req) (req_region req) (delete_message_batch env req)"
  "confined (req_account_id req) (req_region req) (change_message_visibility env req)"
  "confined (req_account_id req) (req_region req) (change_message_visibility_batch env req)"
  "confined (req_account_id req) (req_region req) (purge_queue env req)"
  unfolding send_message_def send_message_batch_def delete_message_def delete_message_batch_def entry_batch_def
    change_message_visibility_def change_message_visibility_batch_def purge_queue_def Let_def
  by (intro tenancy_intros)+

lemma management_confined:
  "confined (req_account_id req) (req_region req) (create_queue env req)"
  "confined (req_account_id req) (req_region req) (delete_queue env req)"
  "confined (req_account_id req) (req_region req) (set_queue_attributes env req)"
  "confined (req_account_id req) (req_region req) (tag_queue env req)"
  "confined (req_account_id req) (req_region req) (untag_queue env req)"
  "confined (req_account_id req) (req_region req) (add_permission env req)"
  "confined (req_account_id req) (req_region req) (remove_permission env req)"
  "confined (req_account_id req) (req_region req) (start_message_move_task env req)"
  "confined (req_account_id req) (req_region req) (cancel_message_move_task env req)"
  unfolding create_queue_def delete_queue_def set_queue_attributes_def tag_queue_def untag_queue_def add_permission_def
    remove_permission_def start_message_move_task_def cancel_message_move_task_def Let_def case_prod_beta
  by (intro tenancy_intros)+

lemma reads_only_confined: "reads_only h \<Longrightarrow> confined acct rgn h"
  by (simp add: reads_only_def confined_def)

lemma plain_handlers_confined:
  "map_of plain_handlers act = Some h \<Longrightarrow> confined (req_account_id req) (req_region req) (h env req)"
  by (auto simp: plain_handlers_def message_confined management_confined reading_handlers reads_only_confined split: if_splits)

lemma dispatch_confined:
  assumes "sqs_dispatch env_at start clock interfere req ms = Some r" "(acct, rgn) \<noteq> (req_account_id req, req_region req)"
    and "\<And>i ms. regional (interfere i ms) acct rgn = regional ms acct rgn"
  shows "regional (snd r) acct rgn = regional ms acct rgn"
proof -
  have c: "regional (snd (h ms)) acct rgn = regional ms acct rgn"
    if "confined (req_account_id req) (req_region req) h" for h :: "(sqs_store, 'a) handler"
    using that assms(2) unfolding confined_def by blast
  have c': "regional (snd (h ms)) acct rgn = regional ms acct rgn"
    if "confined (req_account_id req) (req_region req) h" for h :: "(sqs_store, aws_response \<times> move_worker option) handler" and ms
    using that assms(2) unfolding confined_def by blast
  have poll: "regional (snd p) acct rgn = regional ms acct rgn"
    if "poll_loop (\<lambda>i. with_region (req_account_id req) (req_region req) (f i)) clock deadline interfere 0 ms = Some p"
    for f :: "nat \<Rightarrow> (sqs_state, sqs_message list) handler" and deadline p
    using poll_loop_invariant [OF that, where p = "\<lambda>ms'. regional ms' acct rgn = regional ms acct rgn"] assms(2,3)
    by (auto simp: with_region_get)
  have "regional (snd p) acct rgn = regional ms acct rgn"
    if "receive_message env_at start clock interfere req ms = Some p" for p
    using that poll unfolding receive_message_def Let_def by (auto split: option.splits if_splits)
  then show ?thesis
    using assms(1) plain_handlers_confined [THEN c] management_confined(8) [THEN c'] unfolding sqs_dispatch_def
    by (auto split: option.splits if_splits)
qed

end
