(* ===== verification/Service_Properties.thy ===== *)
theory Service_Properties
  imports Policy_Properties Queue_Properties Sqs_Service "HOL-Library.Countable"
begin

text \<open>
  What the queue service promises as a whole, across its operations and the policy engine: the
  consistency of the directory and of the encryption settings in every reachable server, isolation of
  tenants, durability of acknowledged requests, listings, move tasks, deliveries, and the agreement of
  what is authorized with what is touched.
\<close>

section \<open>Concrete inputs\<close>

instance json_number :: countable by countable_datatype

instance json :: countable by countable_datatype

definition ex_server :: sqs_server where
  "ex_server = server_new ''123456789012'' ''us-east-1'' ''http://h'' True"

definition ex_call :: "string \<Rightarrow> (string \<times> string) list \<Rightarrow> aws_request" where
  "ex_call act params = (ex_sqs_request params)\<lparr>req_action := act\<rparr>"

definition ex_handle ::
  "string \<Rightarrow> (string \<times> string) list \<Rightarrow> sqs_server \<Rightarrow> ((service_error + aws_response) \<times> sqs_server) option" where
  "ex_handle act params srv = sqs_handle (\<lambda>_. ex_env act 0) 0 (\<lambda>_. 0) (\<lambda>_ ms. ms) (ex_call act params) srv"

definition ex_jobs :: sqs_server where
  "ex_jobs = snd (the (ex_handle ''CreateQueue'' [(''QueueName'', ''jobs'')] ex_server))"

lemma ex_created:
  "ex_handle ''CreateQueue'' [(''QueueName'', ''jobs'')] ex_server = Some (fst (the (ex_handle ''CreateQueue'' [(''QueueName'', ''jobs'')] ex_server)), ex_jobs)"
proof -
  have "ex_handle ''CreateQueue'' [(''QueueName'', ''jobs'')] ex_server \<noteq> None" by code_simp
  then show ?thesis unfolding ex_jobs_def by simp
qed

lemma ex_jobs_region:
  "map_option (\<lambda>st. map fst (ss_queues st)) (regional (sv_store ex_jobs) ''123456789012'' ''us-east-1'') =
   Some [''http://h/123456789012/jobs'']"
  by code_simp

lemma ex_jobs_reachable:
  assumes "ok (ex_env ''CreateQueue'' 0)"
  shows "sqs_reachable ok ex_jobs"
proof -
  have "sqs_step ok ex_server ex_jobs"
    by (rule sqs_step.request [of ok, OF assms _ ex_created [unfolded ex_handle_def]]) (simp add: ex_call_def)
  then show ?thesis unfolding ex_server_def by (rule sqs_reachable.step [OF sqs_reachable.start])
qed

lemma ex_jobs_queue:
  obtains st q where "regional (sv_store ex_jobs) ''123456789012'' ''us-east-1'' = Some st"
    "map_of (ss_queues st) ''http://h/123456789012/jobs'' = Some q"
proof -
  obtain st where st: "regional (sv_store ex_jobs) ''123456789012'' ''us-east-1'' = Some st"
    using ex_jobs_region by (cases "regional (sv_store ex_jobs) ''123456789012'' ''us-east-1''") simp_all
  have "map fst (ss_queues st) = [''http://h/123456789012/jobs'']" using ex_jobs_region st by simp
  then obtain q where "ss_queues st = [(''http://h/123456789012/jobs'', q)]" by (cases "ss_queues st") auto
  then show ?thesis using that [OF st] by simp
qed

section \<open>Every reachable server\<close>

text \<open>
  C3. The directory of every region of every reachable server is consistent, also on disk: the map from
  names to URLs and the map of queues mirror each other, and each queue's URL, ARN and kind are the
  ones its name gives.
\<close>

theorem directory_consistent:
  assumes "sqs_reachable (\<lambda>_. True) srv"
    and "regional (sv_store srv) acct rgn = Some st \<or> Option.bind (sv_disk srv) (\<lambda>ms. regional ms acct rgn) = Some st"
  shows "region_wf st \<and> ss_region st = rgn"
proof -
  have "server_holds region_wf srv" using assms(1) by (rule dir_srv.reachable_holds)
  then show ?thesis
    using assms(2) by (auto simp: server_holds_def everywhere_def is_none_or_def bind_eq_Some_conv split: option.splits)
qed

theorem directory_consistent_witness:
  "\<exists>st q. regional (sv_store ex_jobs) ''123456789012'' ''us-east-1'' = Some st \<and>
     map_of (ss_queues st) ''http://h/123456789012/jobs'' = Some q \<and> region_wf st"
proof -
  obtain st q where st: "regional (sv_store ex_jobs) ''123456789012'' ''us-east-1'' = Some st"
    "map_of (ss_queues st) ''http://h/123456789012/jobs'' = Some q"
    using ex_jobs_queue .
  have "region_wf st"
    using directory_consistent [OF ex_jobs_reachable [of "\<lambda>_. True"] disjI1, OF _ st(1)] by simp
  with st show ?thesis by (intro exI conjI)
qed

text \<open>
  C24. In every reachable server no queue has a customer's key and the managed encryption mode in force
  at once, whatever attribute requests it went through.
\<close>

theorem encryption_modes_exclusive:
  assumes "sqs_reachable json_objects_wf srv" "regional (sv_store srv) acct rgn = Some st"
    and "map_of (ss_queues st) url = Some q"
  shows "modes_exclusive (q_attributes q)"
proof -
  have "server_holds region_modes srv" using assms(1) by (rule enc_srv.reachable_holds)
  then have "region_modes st" using assms(2) by (auto simp: server_holds_def everywhere_def)
  then show ?thesis using assms(3) by (rule region_modes_lookup)
qed

theorem encryption_modes_exclusive_witness:
  "\<exists>st q. regional (sv_store ex_jobs) ''123456789012'' ''us-east-1'' = Some st \<and>
     map_of (ss_queues st) ''http://h/123456789012/jobs'' = Some q \<and> modes_exclusive (q_attributes q)"
proof -
  obtain st q where st: "regional (sv_store ex_jobs) ''123456789012'' ''us-east-1'' = Some st"
    "map_of (ss_queues st) ''http://h/123456789012/jobs'' = Some q"
    using ex_jobs_queue .
  have "json_objects_wf (ex_env ''CreateQueue'' 0)" by (simp add: json_objects_wf_def ex_env_def)
  from encryption_modes_exclusive [OF ex_jobs_reachable [of json_objects_wf, OF this] st] st show ?thesis by (intro exI conjI)
qed

text \<open>
  C4. What survives a restart. A server with a snapshot store has answered a mutating request with success.
  When the snapshot could be written, every queue of every account and region is after a restart as the
  request left it; when it could not, which the answer does not show, the queues are those of the last
  snapshot. A request of any other action has changed nothing that could be lost.
\<close>

theorem acknowledged_survives_restart:
  assumes "sqs_handle env_at start clock interfere req srv = Some (Inr resp, srv')" "is_success resp"
    and "sv_disk srv = Some old"
  shows "(is_mutating_action (req_action req) \<longrightarrow>
      map_option ss_queues (regional (sv_store (sqs_restart pid srv')) acct rgn) =
      map_option ss_queues (regional (if snapshot_saved (env_at 0) then sv_store srv' else old) acct rgn)) \<and>
    (\<not> is_mutating_action (req_action req) \<longrightarrow> sv_store srv' = sv_store srv \<and> sv_disk srv' = sv_disk srv)"
proof -
  have "sv_disk srv' = Some (if snapshot_saved (env_at 0) then sv_store srv' else old)" if "is_mutating_action (req_action req)"
    using handled_saved(1) [OF assms(1,2) that] assms(3) by simp
  from restart_queues [OF this] handled_saved(2) [OF assms(1,2)] show ?thesis by blast
qed

theorem acknowledged_survives_restart_witness:
  "map_option ss_queues (regional (sv_store (sqs_restart 2 ex_jobs)) ''123456789012'' ''us-east-1'') =
     map_option ss_queues (regional (sv_store ex_jobs) ''123456789012'' ''us-east-1'') \<and>
   regional (sv_store ex_jobs) ''123456789012'' ''us-east-1'' \<noteq> None"
proof -
  have ok: "(case ex_handle ''CreateQueue'' [(''QueueName'', ''jobs'')] ex_server of
      Some (Inr resp, _) \<Rightarrow> is_success resp | _ \<Rightarrow> False)" by code_simp
  obtain resp where resp: "ex_handle ''CreateQueue'' [(''QueueName'', ''jobs'')] ex_server = Some (Inr resp, ex_jobs)"
    "is_success resp"
    using ok ex_created
    by (cases "fst (the (ex_handle ''CreateQueue'' [(''QueueName'', ''jobs'')] ex_server))") simp_all
  have "sv_disk ex_server = Some (sv_store ex_server)" by (simp add: ex_server_def server_new_def Let_def)
  from acknowledged_survives_restart [OF resp(1) [unfolded ex_handle_def] resp(2) this, of 2 "''123456789012''" "''us-east-1''"]
  have "map_option ss_queues (regional (sv_store (sqs_restart 2 ex_jobs)) ''123456789012'' ''us-east-1'') =
     map_option ss_queues (regional (sv_store ex_jobs) ''123456789012'' ''us-east-1'')"
    by (simp add: ex_call_def is_mutating_action_def) (simp add: ex_env_def)
  moreover have "regional (sv_store ex_jobs) ''123456789012'' ''us-east-1'' \<noteq> None" using ex_jobs_region by auto
  ultimately show ?thesis by (rule conjI)
qed

text \<open>
  C12. Tenants are isolated: whatever a request does, the queues of every other account and of every
  other region stay exactly as they were, provided that what runs during a long poll does not touch
  them.
\<close>

theorem requests_confined:
  assumes "sqs_dispatch env_at start clock interfere req ms = Some (r, ms')"
    and "(acct, rgn) \<noteq> (req_account_id req, req_region req)"
    and "\<And>i ms. regional (interfere i ms) acct rgn = regional ms acct rgn"
  shows "regional ms' acct rgn = regional ms acct rgn"
  using dispatch_confined [OF assms] by simp

theorem requests_confined_witness:
  "(\<exists>r ms'. sqs_dispatch (\<lambda>_. ex_env ''h'' 0) 0 (\<lambda>_. 0) (\<lambda>_ ms. ms) (ex_call ''PurgeQueue'' [(''QueueUrl'', ''jobs'')])
       (sv_store ex_jobs) = Some (r, ms') \<and>
     regional ms' ''123456789012'' ''eu-west-1'' = regional (sv_store ex_jobs) ''123456789012'' ''eu-west-1'')"
proof -
  have "\<exists>p. sqs_dispatch (\<lambda>_. ex_env ''h'' 0) 0 (\<lambda>_. 0) (\<lambda>_ ms. ms) (ex_call ''PurgeQueue'' [(''QueueUrl'', ''jobs'')])
       (sv_store ex_jobs) = Some p"
    by (simp add: sqs_dispatch_def ex_call_def plain_handlers_def)
  then obtain r ms' where p: "sqs_dispatch (\<lambda>_. ex_env ''h'' 0) 0 (\<lambda>_. 0) (\<lambda>_ ms. ms)
      (ex_call ''PurgeQueue'' [(''QueueUrl'', ''jobs'')]) (sv_store ex_jobs) = Some (r, ms')" by auto
  have "regional ms' ''123456789012'' ''eu-west-1'' = regional (sv_store ex_jobs) ''123456789012'' ''eu-west-1''"
    by (rule requests_confined [OF p]) (simp_all add: ex_call_def ex_sqs_request_def)
  with p show ?thesis by (intro exI conjI)
qed

section \<open>Listing\<close>

text \<open>
  C21. A client that pages through \<^verbatim>\<open>ListQueues\<close> while queues come and go sees no queue twice, none that
  was never there, and, once a page comes without a token, every queue that was there throughout. It
  comes to that page: over a region that does not change, after at most one page per queue.
\<close>

theorem listing_complete:
  assumes "0 < n" "\<forall>st \<in> set sts. region_wf st" "list_run prefix n None sts = (urls, over)"
  shows "distinct urls \<and> (\<forall>u \<in> set urls. \<exists>st \<in> set sts. u \<in> set (listed_urls prefix st)) \<and>
    (over \<longrightarrow> (\<forall>u. (\<forall>st \<in> set sts. u \<in> set (listed_urls prefix st)) \<longrightarrow> u \<in> set urls)) \<and>
    (\<forall>st. region_wf st \<longrightarrow> snd (list_run prefix n None (replicate (Suc (length (ss_queues st))) st)))"
proof (intro conjI)
  have sorted: "\<And>st. st \<in> set sts \<Longrightarrow> sorted_wrt (<) (listed_urls prefix st)"
    using assms(2) region_wf_listed by blast
  note props = list_run_props [OF assms(1) sorted assms(3)]
  show "distinct urls" using props by (simp add: strict_sorted_iff)
  show "\<forall>u \<in> set urls. \<exists>st \<in> set sts. u \<in> set (listed_urls prefix st)"
    using list_run_sound [of sts prefix n None, OF sorted] assms(3) by auto
  show "over \<longrightarrow> (\<forall>u. (\<forall>st \<in> set sts. u \<in> set (listed_urls prefix st)) \<longrightarrow> u \<in> set urls)"
    using props by simp
  show "\<forall>st. region_wf st \<longrightarrow> snd (list_run prefix n None (replicate (Suc (length (ss_queues st))) st))"
  proof (intro allI impI)
    fix st assume "region_wf st"
    then have sorted: "sorted_wrt (<) (listed_urls prefix st)" by (rule region_wf_listed)
    have "length (filter (after None) (listed_urls prefix st)) < Suc (length (ss_queues st))"
      by (rule le_imp_less_Suc, rule order_trans [OF length_filter_le listed_urls_length])
    with sorted assms(1) show "snd (list_run prefix n None (replicate (Suc (length (ss_queues st))) st))"
      by (rule list_run_ends)
  qed
qed

section \<open>Move tasks\<close>

definition ex_named :: "string \<Rightarrow> sqs_message list \<Rightarrow> sqs_queue" where
  "ex_named name ms = (ex_queue False ms)\<lparr>q_name := name, q_url := ''http://h/123456789012/'' @ name,
     q_arn := ''arn:aws:sqs:us-east-1:123456789012:'' @ name\<rparr>"

text \<open>Two queues: \<^verbatim>\<open>jobs\<close>, whose dead-letter queue is \<^verbatim>\<open>dead\<close>, which holds two messages.\<close>

definition ex_work :: sqs_state where
  "ex_work =
     \<lparr>ss_account_id = ''123456789012'', ss_region = ''us-east-1'', ss_endpoint = ''http://h'',
      ss_queues =
        [(''http://h/123456789012/dead'', ex_named ''dead'' [ex_message ''1'' None, ex_message ''2'' None]),
         (''http://h/123456789012/jobs'', (ex_named ''jobs'' [])\<lparr>q_redrive_policy :=
            Some \<lparr>rd_target_arn = ''arn:aws:sqs:us-east-1:123456789012:dead'', rd_max_receive_count = 3\<rparr>\<rparr>)],
      ss_name_to_url = [(''dead'', ''http://h/123456789012/dead''), (''jobs'', ''http://h/123456789012/jobs'')],
      ss_move_tasks = []\<rparr>"

lemma ex_work_wf: "region_wf ex_work"
  by code_simp

theorem listing_complete_witness:
  "list_run None 1 None [ex_work, ex_work, ex_work] =
     ([''http://h/123456789012/dead'', ''http://h/123456789012/jobs''], True) \<and>
   distinct [''http://h/123456789012/dead'', ''http://h/123456789012/jobs'']"
proof -
  have run: "list_run None 1 None [ex_work, ex_work, ex_work] =
      ([''http://h/123456789012/dead'', ''http://h/123456789012/jobs''], True)" by code_simp
  have "0 < (1 :: nat)" "\<forall>st \<in> set [ex_work, ex_work, ex_work]. region_wf st" using ex_work_wf by simp_all
  note complete = listing_complete [OF this run]
  show ?thesis using run complete [THEN conjunct1] by (rule conjI)
qed

definition ex_start :: "string option \<Rightarrow> int option \<Rightarrow> (service_error + string \<times> move_worker option) \<times> sqs_state" where
  "ex_start dest rate =
     start_in_region (ex_env ''h'' 0) ''123456789012'' ''us-east-1'' ''arn:aws:sqs:us-east-1:123456789012:dead'' dest rate ex_work"

definition ex_store :: "sqs_state \<Rightarrow> sqs_store" where
  "ex_store st = regional_modify sqs_ops ''123456789012'' ''us-east-1'' (\<lambda>_. st) (sv_store ex_server)"

lemma ex_store_get: "regional (ex_store st) ''123456789012'' ''us-east-1'' = Some st"
  by (simp add: ex_store_def regional_regional_modify)

text \<open>
  C19. Throttling a move task changes only its pace: the worker of a task with a rate, when its targets
  are not its own source and nothing interferes, comes to its end, and leaves the queues exactly as the
  same task without a rate would have, with the same count of moved messages and as completed.
\<close>

theorem throttled_move_completes:
  assumes "region_wf st" "start_in_region env acct rgn src dest (Some n) st = (Inr (h, Some w), st1)"
    and "regional ms acct rgn = Some st1" "\<forall>t \<in> set (ss_move_tasks st). mt_handle t \<noteq> h" "leaves_source src dest st"
  shows "\<exists>ms' st' st2. run_message_move_task w ms = Some ms' \<and> regional ms' acct rgn = Some st' \<and>
    start_in_region env acct rgn src dest None st = (Inr (h, None), st2) \<and> ss_queues st' = ss_queues st2 \<and>
    ss_move_tasks st' = map (\<lambda>t. if mt_handle t = h then t\<lparr>mt_max_per_second := Some n\<rparr> else t) (ss_move_tasks st2)"
  using assms by (rule throttled_equals_immediate)

theorem throttled_move_completes_witness:
  "\<exists>h w st1 ms' st'. ex_start None (Some 5) = (Inr (h, Some w), st1) \<and>
     run_message_move_task w (ex_store st1) = Some ms' \<and> regional ms' ''123456789012'' ''us-east-1'' = Some st' \<and>
     ss_queues st' = ss_queues (snd (ex_start None None))"
proof -
  have "(case ex_start None (Some 5) of (Inr (h, Some w), _) \<Rightarrow> True | _ \<Rightarrow> False)" by code_simp
  then obtain h w st1 where run: "ex_start None (Some 5) = (Inr (h, Some w), st1)"
    by (auto split: prod.splits sum.splits option.splits)
  have tasks: "\<forall>t \<in> set (ss_move_tasks ex_work). mt_handle t \<noteq> h" by (simp add: ex_work_def)
  have leaves: "leaves_source ''arn:aws:sqs:us-east-1:123456789012:dead'' None ex_work" by code_simp
  from throttled_move_completes [OF ex_work_wf run [unfolded ex_start_def] ex_store_get tasks leaves]
  obtain ms' st' st2 where moved: "run_message_move_task w (ex_store st1) = Some ms'"
    "regional ms' ''123456789012'' ''us-east-1'' = Some st'" "ex_start None None = (Inr (h, None), st2)"
    "ss_queues st' = ss_queues st2"
    unfolding ex_start_def by (elim exE conjE)
  have "ss_queues st' = ss_queues (snd (ex_start None None))" unfolding moved(3,4) by simp
  with run moved(1,2) show ?thesis by (intro exI conjI)
qed

text \<open>
  C20. Neither starting a move task, nor an iteration of its worker, nor forcing messages to the
  dead-letter queue loses, duplicates or alters a message of the region.
\<close>

theorem moves_conserve_messages:
  assumes "region_wf st"
  shows "region_contents (snd (start_in_region env acct rgn src dest rate st)) = region_contents st \<and>
    region_contents (snd (move_one w st)) = region_contents st \<and>
    region_contents (snd (force_dlq_in name st)) = region_contents st"
  using start_conserves [OF assms] move_one_conserves force_dlq_conserves [OF assms] dir.rinv_distinct [OF assms] by simp

theorem moves_conserve_messages_witness:
  "region_contents (snd (ex_start None None)) = region_contents ex_work \<and>
   map (\<lambda>e. map m_id (q_messages (snd e))) (ss_queues (snd (ex_start None None))) = [[], [''1'', ''2'']]"
proof
  show "region_contents (snd (ex_start None None)) = region_contents ex_work"
    unfolding ex_start_def using moves_conserve_messages [OF ex_work_wf] by blast
  show "map (\<lambda>e. map m_id (q_messages (snd e))) (ss_queues (snd (ex_start None None))) = [[], [''1'', ''2'']]"
    by code_simp
qed

section \<open>Deliveries\<close>

text \<open>
  C28. What another service delivers to a queue it knows by URL arrives: the URL resolves to the queue's
  ARN, the delivery succeeds, the message, encrypted where the queue asks for it, is the last of that
  queue, visible and not yet received, and no other queue and nothing in flight changes.
\<close>

theorem delivery_by_url_arrives:
  assumes "regional ms (ss_account_id st) (ss_region st) = Some st" "region_wf st" "map_of (ss_queues st) url = Some q"
    and "CHR '':'' \<notin> set (ss_region st)" "ss_region st \<noteq> []" "CHR '':'' \<notin> set (ss_account_id st)" "ss_account_id st \<noteq> []"
    and "CHR ''/'' \<notin> set (q_name q)" "q_name q \<noteq> []" "CHR ''/'' \<notin> set (ss_account_id st)"
    and "q_is_fifo q \<longrightarrow> dedup \<noteq> None \<or> content_based_dedup q"
    and "delivery_body env (ss_account_id st) (ss_region st) q body = Inr stored"
    and "queue_arn_for_url ms (ss_region st) url = Some a"
    and "try_deliver_to_queue_with_attrs env a body attrs grp dedup ms = (r, ms')"
  shows "a = q_arn q \<and> r = Inr () \<and> (\<exists>st' q' m. regional ms' (ss_account_id st) (ss_region st) = Some st' \<and>
    map_of (ss_queues st') = (map_of (ss_queues st))(url \<mapsto> q') \<and>
    q_messages q' = q_messages q @ [m] \<and> m_body m = stored \<and> m_group m = grp \<and> m_receive_count m = 0 \<and>
    m_visible_at m = None \<and> q_inflight q' = q_inflight q)"
proof -
  have a: "a = q_arn q"
    using queue_arn_for_url_known [OF assms(1-3,8-10,7)] assms(13) by simp
  show ?thesis using delivery_arrives [OF assms(1-7,11,12) assms(14) [unfolded a]] a by simp
qed

theorem delivery_by_url_arrives_witness:
  "\<exists>ms' st' q' m. try_deliver_to_queue_with_attrs (ex_env ''d'' 0) ''arn:aws:sqs:us-east-1:123456789012:jobs'' ''hi'' [] None None
       (ex_store ex_work) = (Inr (), ms') \<and>
     regional ms' ''123456789012'' ''us-east-1'' = Some st' \<and>
     map_of (ss_queues st') ''http://h/123456789012/jobs'' = Some q' \<and> q_messages q' = [m] \<and> m_body m = ''hi''"
proof -
  let ?url = "''http://h/123456789012/jobs''"
  define q where "q = the (map_of (ss_queues ex_work) ?url)"
  have st: "ss_account_id ex_work = ''123456789012''" "ss_region ex_work = ''us-east-1''" by (simp_all add: ex_work_def)
  have reg: "regional (ex_store ex_work) (ss_account_id ex_work) (ss_region ex_work) = Some ex_work"
    unfolding st by (rule ex_store_get)
  have q: "map_of (ss_queues ex_work) ?url = Some q" unfolding q_def by (simp add: ex_work_def)
  have shape: "q_name q = ''jobs''" "\<not> q_is_fifo q" "q_messages q = []" "q_attributes q = []"
    "q_arn q = ''arn:aws:sqs:us-east-1:123456789012:jobs''"
    unfolding q_def by (simp_all add: ex_work_def ex_named_def ex_queue_def)
  have body: "delivery_body (ex_env ''d'' 0) (ss_account_id ex_work) (ss_region ex_work) q ''hi'' = Inr ''hi''"
    using shape(4) by (simp add: delivery_body_def)
  have a: "queue_arn_for_url (ex_store ex_work) (ss_region ex_work) ?url = Some (q_arn q)"
    unfolding shape(5) by code_simp
  obtain r ms' where run:
    "try_deliver_to_queue_with_attrs (ex_env ''d'' 0) (q_arn q) ''hi'' [] None None (ex_store ex_work) = (r, ms')" by fastforce
  have "q_is_fifo q \<longrightarrow> (None :: string option) \<noteq> None \<or> content_based_dedup q" using shape(2) by simp
  from delivery_by_url_arrives [OF reg ex_work_wf q _ _ _ _ _ _ _ this body a run] shape(1,3)
  obtain st' q' m where r: "r = Inr ()" and st': "regional ms' ''123456789012'' ''us-east-1'' = Some st'"
    and q': "map_of (ss_queues st') = (map_of (ss_queues ex_work))(?url \<mapsto> q')" "q_messages q' = [m]" "m_body m = ''hi''"
    unfolding st by auto
  have "map_of (ss_queues st') ?url = Some q'" using q'(1) by simp
  with run [unfolded r shape(5)] st' q'(2,3) show ?thesis by (intro exI conjI)
qed

section \<open>Authorization\<close>

text \<open>
  C14. The queue that is authorized is the queue that is touched: where a request names its queue by URL
  or by name, the ARN its caller's policies are asked about is the ARN of the queue the handler resolves
  the request to.
\<close>

theorem authorized_queue_is_touched:
  assumes "region_wf st" "resolve_queue_url input st = Some url" "map_of (ss_queues st) url = Some q"
    and "\<not> arn_input input" "CHR ''/'' \<notin> set (q_name q)"
    and "req_action req \<in> set by_queue_url" "as_str (json_index (parse_body env req) ''QueueUrl'') = Some input"
    and "ss_region st = req_region req" "unwrap_or (map_option p_account_id (req_principal req)) (req_account_id req) = ss_account_id st"
  shows "sqs_iam_action_for env req = Some \<lparr>ia_service = ''sqs'', ia_action = req_action req, ia_resource = q_arn q\<rparr>"
  using assms by (rule authorized_resource)

theorem authorized_queue_is_touched_witness:
  "map_option ia_resource (sqs_iam_action_for (ex_env ''e'' 0) (ex_call ''PurgeQueue'' [(''QueueUrl'', ''http://h/123456789012/jobs'')])) =
   Some ''arn:aws:sqs:us-east-1:123456789012:jobs''"
proof -
  let ?url = "''http://h/123456789012/jobs''"
  let ?req = "ex_call ''PurgeQueue'' [(''QueueUrl'', ?url)]"
  define q where "q = the (map_of (ss_queues ex_work) ?url)"
  have q: "map_of (ss_queues ex_work) ?url = Some q" unfolding q_def by (simp add: ex_work_def)
  have shape: "q_name q = ''jobs''" "q_arn q = ''arn:aws:sqs:us-east-1:123456789012:jobs''"
    unfolding q_def by (simp_all add: ex_work_def ex_named_def ex_queue_def)
  have "resolve_queue_url ?url ex_work = Some ?url" "\<not> arn_input ?url" "req_action ?req \<in> set by_queue_url"
    "as_str (json_index (parse_body (ex_env ''e'' 0) ?req) ''QueueUrl'') = Some ?url" by code_simp+
  moreover have "CHR ''/'' \<notin> set (q_name q)" unfolding shape by simp
  moreover have "ss_region ex_work = req_region ?req"
    "unwrap_or (map_option p_account_id (req_principal ?req)) (req_account_id ?req) = ss_account_id ex_work"
    by (simp_all add: ex_work_def ex_call_def ex_sqs_request_def)
  ultimately show ?thesis
    using authorized_queue_is_touched [OF ex_work_wf _ q] shape by simp
qed

text \<open>
  Named by its ARN instead, which the handlers accept as a queue URL, the queue is touched under another
  name: the policies are asked about an ARN whose resource is the whole ARN, so a statement that denies
  the action on the queue does not match.
\<close>

definition ex_by_arn :: aws_request where
  "ex_by_arn = ex_call ''PurgeQueue'' [(''QueueUrl'', ''arn:aws:sqs:us-east-1:123456789012:dead'')]"

theorem arn_url_escapes_deny:
  "fst (purge_queue (ex_env ''e'' 0) ex_by_arn (ex_store ex_work)) = Inr (reply ''PurgeQueue'' ex_by_arn (JObj []))"
  "map_option (\<lambda>st. map (\<lambda>e. q_messages (snd e)) (ss_queues st))
     (regional (snd (purge_queue (ex_env ''e'' 0) ex_by_arn (ex_store ex_work))) ''123456789012'' ''us-east-1'') = Some [[], []]"
  "map_option (\<lambda>ia. evaluate ex_chrono
       [[ex_statement EffAllow ''sqs:*'' ''*'', ex_statement EffDeny ''sqs:*'' ''arn:aws:sqs:us-east-1:123456789012:dead'']]
       (ex_request ''sqs:PurgeQueue'' (ia_resource ia))) (sqs_iam_action_for (ex_env ''e'' 0) ex_by_arn) = Some Allow"
  by code_simp+

lemma resource_policy_found:
  assumes "regional ms (ss_account_id st) (ss_region st) = Some st" "region_wf st" "map_of (ss_queues st) url = Some q"
    and "CHR '':'' \<notin> set (ss_region st)" "ss_region st \<noteq> []" "CHR '':'' \<notin> set (ss_account_id st)" "ss_account_id st \<noteq> []"
    and "q_name q \<noteq> []"
  shows "sqs_resource_policy ms ''sqs'' (q_arn q) = map_of (q_attributes q) ''Policy''"
proof -
  let ?rest = "ss_region st @ '':'' @ ss_account_id st @ '':'' @ q_name q"
  have arn: "q_arn q = ''arn:'' @ partition_for (ss_region st) @ '':sqs:'' @ ?rest"
    using region_wf_parts [OF assms(2)] assms(3) by (simp add: queue_wf_def queue_arn_of_def)
  have "split_once (partition_for (ss_region st) @ '':sqs:'' @ ?rest) (CHR '':'') =
      Some (partition_for (ss_region st), ''sqs:'' @ ?rest)"
    using partition_no_colon by (simp add: split_once_Some)
  then have "arn_resource (q_arn q) ''sqs'' = Some ?rest"
    unfolding arn arn_resource_def using partition_for_known by (simp add: strip_prefix_def starts_with_def)
  moreover have "splitn 3 ?rest (CHR '':'') = [ss_region st, ss_account_id st, q_name q]"
    using assms(4,6) by (simp add: eval_nat_numeral splitn_sep del: splitn.simps(3))
  ultimately have "is_sqs_queue_arn (q_arn q)"
    using assms(5,7,8) by (simp add: is_sqs_queue_arn_def Let_def)
  moreover have "by_arn ms (q_arn q) = Some st"
    using queue_arn_address [OF assms(2-7)] assms(1) by (simp add: by_arn_def)
  moreover have "find (\<lambda>p. q_arn p = q_arn q) (map snd (ss_queues st)) = Some q"
    using delivery_target(1) [OF assms(2,3)] by (simp add: queue_by_arn_def)
  ultimately show ?thesis by (simp add: sqs_resource_policy_def eq_ignore_ascii_case_def)
qed

text \<open>
  C13. A permission added to a queue without a policy grants what it names and nothing else: the policy
  engine finds the document at the queue's ARN, and its decision on that document alone is to allow
  exactly the requests of the named accounts for the named actions on this queue. Removing the label
  takes it back.
\<close>

theorem permission_grants_exactly:
  assumes "json_faithful env" "map_of (q_attributes q) ''Policy'' = None" "\<not> has_variables (q_arn q)"
    and "list_all (\<lambda>a. CHR '':'' \<notin> set a \<and> a \<noteq> []) account_ids"
    and "add_permission_to env label actions account_ids q = (Inr (), q')"
    and "regional ms (ss_account_id st) (ss_region st) = Some st" "region_wf st" "map_of (ss_queues st) url = Some q'"
    and "CHR '':'' \<notin> set (ss_region st)" "ss_region st \<noteq> []" "CHR '':'' \<notin> set (ss_account_id st)" "ss_account_id st \<noteq> []"
    and "q_name q' \<noteq> []"
  shows "\<exists>v. Option.bind (sqs_resource_policy ms ''sqs'' (q_arn q)) (from_json env) = Some v \<and>
      (\<forall>ch req. evaluate_resource_policy_only ch (from_value v) req = Allow \<longleftrightarrow>
        p_account_id (r_principal req) \<in> set account_ids \<and>
        action_matches (Action (map sqs_action actions)) (r_action req) \<and> iam_glob_match (q_arn q) (r_resource req) False) \<and>
      fst (remove_permission_from env label q') = Inr () \<and>
      policy_statements env (snd (remove_permission_from env label q')) = []"
proof -
  have plain: "policy_plain env q" and none: "policy_statements env q = []"
    using assms(2) by (simp_all add: policy_plain_def policy_statements_def)
  let ?v = "policy_value (q_arn q) (map (permission_statement (q_arn q) label actions) account_ids)"
  have arn: "q_arn q' = q_arn q"
    using assms(5) by (auto simp: add_permission_to_def Let_def split: if_splits)
  have "Option.bind (sqs_resource_policy ms ''sqs'' (q_arn q)) (from_json env) = Some ?v"
    using permission_added(1) [OF assms(1) plain assms(5)] resource_policy_found [OF assms(6-13)]
    by (simp add: none arn)
  moreover have "\<forall>ch req. evaluate_resource_policy_only ch (from_value ?v) req = Allow \<longleftrightarrow>
      p_account_id (r_principal req) \<in> set account_ids \<and>
      action_matches (Action (map sqs_action actions)) (r_action req) \<and> iam_glob_match (q_arn q) (r_resource req) False"
    unfolding permission_document [OF assms(4)] using permission_decision [OF assms(3)] by blast
  moreover note permission_removed(1) [OF assms(1) plain assms(5)]
  moreover have "policy_statements env (snd (remove_permission_from env label q')) = []"
    using permission_removed(2) [OF assms(1) plain assms(5)] by (simp add: none without_label_def)
  ultimately show ?thesis by (intro exI conjI)
qed

text \<open>A printer and reader that meet the law: a document is printed as its number, in unary.\<close>

definition ex_json_env :: sqs_env where
  "ex_json_env = (ex_env ''p'' 0)\<lparr>to_json := (\<lambda>v. replicate (to_nat v) CHR ''1''), from_json := (\<lambda>s. Some (from_nat (length s)))\<rparr>"

theorem permission_grants_exactly_witness:
  "\<exists>q' v. add_permission_to ex_json_env ''share'' [''SendMessage''] [''123456789012''] (ex_named ''jobs'' []) = (Inr (), q') \<and>
     Option.bind (map_of (q_attributes q') ''Policy'') (from_json ex_json_env) = Some v \<and>
     evaluate_resource_policy_only ex_chrono (from_value v)
       (ex_request ''sqs:SendMessage'' ''arn:aws:sqs:us-east-1:123456789012:jobs'') = Allow \<and>
     evaluate_resource_policy_only ex_chrono (from_value v)
       (ex_request ''sqs:ReceiveMessage'' ''arn:aws:sqs:us-east-1:123456789012:jobs'') \<noteq> Allow"
proof -
  let ?q = "ex_named ''jobs'' []" and ?arn = "''arn:aws:sqs:us-east-1:123456789012:jobs''"
  obtain q' where add: "add_permission_to ex_json_env ''share'' [''SendMessage''] [''123456789012''] ?q = (Inr (), q')"
    by (simp add: add_permission_to_def ex_named_def ex_queue_def Let_def)
  then have q': "q_name q' = ''jobs''" "q_url q' = ''http://h/123456789012/jobs''" "q_arn q' = ?arn" "\<not> q_is_fifo q'"
    by (auto simp: add_permission_to_def ex_named_def ex_queue_def Let_def split: if_splits)
  define st where "st = ex_work\<lparr>ss_queues := [(''http://h/123456789012/jobs'', q')],
    ss_name_to_url := [(''jobs'', ''http://h/123456789012/jobs'')]\<rparr>"
  have st: "ss_account_id st = ''123456789012''" "ss_region st = ''us-east-1''" "ss_endpoint st = ''http://h''"
    "ss_queues st = [(''http://h/123456789012/jobs'', q')]" "ss_name_to_url st = [(''jobs'', ''http://h/123456789012/jobs'')]"
    by (simp_all add: st_def ex_work_def)
  have part: "partition_for ''us-east-1'' = ''aws''" "\<not> ends_with ''jobs'' ''.fifo''" by code_simp+
  have wf: "region_wf st"
    unfolding region_wf_def st queue_wf_def queue_url_of_def queue_arn_of_def part using q' part(2) by (simp add: bt_wf_def st)
  have faithful: "json_faithful ex_json_env" by (simp add: json_faithful_def ex_json_env_def)
  have var: "\<not> has_variables (q_arn ?q)" by code_simp
  have reg: "regional (ex_store st) (ss_account_id st) (ss_region st) = Some st" unfolding st by (rule ex_store_get)
  have none: "map_of (q_attributes ?q) ''Policy'' = None" and arn: "q_arn ?q = ?arn" by (simp_all add: ex_named_def ex_queue_def)
  have found: "map_of (ss_queues st) ''http://h/123456789012/jobs'' = Some q'" unfolding st by simp
  have stored: "sqs_resource_policy (ex_store st) ''sqs'' ?arn = map_of (q_attributes q') ''Policy''"
    using resource_policy_found [OF reg wf found] q' st by simp
  from permission_grants_exactly [OF faithful none var _ add reg wf found] q' st
  obtain v where v: "Option.bind (sqs_resource_policy (ex_store st) ''sqs'' ?arn) (from_json ex_json_env) = Some v"
    and decision: "\<And>act. evaluate_resource_policy_only ex_chrono (from_value v) (ex_request act ?arn) = Allow \<longleftrightarrow>
      p_account_id (r_principal (ex_request act ?arn)) \<in> set [''123456789012''] \<and>
      action_matches (Action (map sqs_action [''SendMessage''])) (r_action (ex_request act ?arn)) \<and>
      iam_glob_match ?arn (r_resource (ex_request act ?arn)) False"
    unfolding arn by auto
  have "evaluate_resource_policy_only ex_chrono (from_value v) (ex_request ''sqs:SendMessage'' ?arn) = Allow"
    unfolding decision by code_simp
  moreover have "evaluate_resource_policy_only ex_chrono (from_value v) (ex_request ''sqs:ReceiveMessage'' ?arn) \<noteq> Allow"
    unfolding decision by code_simp
  ultimately show ?thesis using add v unfolding stored by (intro exI conjI)
qed

section \<open>Encryption settings\<close>

text \<open>
  Asked for both modes at once, the service ends with neither: each removes the other.
\<close>

theorem both_modes_leave_none:
  "effective_kms_key_id (q_attributes (apply_attributes env
     [(''SqsManagedSseEnabled'', JStr ''true''), (''KmsMasterKeyId'', JStr ''alias/key'')] q)) = None"
  by (simp add: apply_attributes_def switch_modes_def effective_kms_key_id_def map_of_bt_insert map_of_bt_remove Let_def)

section \<open>A move task without end\<close>

theorem self_move_never_ends:
  "\<exists>h w st1. ex_start (Some ''arn:aws:sqs:us-east-1:123456789012:dead'') (Some 5) = (Inr (h, Some w), st1) \<and>
     run_message_move_task w (ex_store st1) = None"
proof -
  let ?start = "ex_start (Some ''arn:aws:sqs:us-east-1:123456789012:dead'') (Some 5)"
  have chase: "(case ?start of (Inr (h, Some w), st1) \<Rightarrow> chases_itself w (ex_store st1) | _ \<Rightarrow> False)" by code_simp
  show ?thesis
  proof (cases "?start")
    case (Pair r st1)
    with chase obtain h w where "r = Inr (h, Some w)" "chases_itself w (ex_store st1)"
      by (cases r) (auto split: prod.splits option.splits)
    then show ?thesis using Pair chase_never_ends by blast
  qed
qed

end
