(* ===== verification/Org_State.thy ===== *)
theory Org_State
  imports Aws_Service
begin

text \<open>
  The state of AWS Organizations (\<^verbatim>\<open>fakecloud-organizations/src/state.rs\<close>): organizations with their
  tree of organizational units, member accounts, policies and attachments, account creation requests,
  handshakes and responsibility transfers, and the registry of all organizations.

  A \<^verbatim>\<open>HashSet\<close> is a list without duplicates; wherever the code iterates over one, the list goes
  through \<open>oe_set_order\<close>, which stands for the order the set happens to have. The other fields of
  \<open>org_env\<close> are the clock (one instant per request), the UUIDs a request draws (their text, and the first
  byte of those an account number is made of), JSON text and the printing of numbers and dates.

  An operation maps a state to a result and the state it leaves. The loop that looks for an unused
  account number is a \<open>partial_function\<close>, because random numbers need not ever be unused.
\<close>

section \<open>Data\<close>

record org_env =
  oe_now :: int
  oe_uuid :: "nat \<Rightarrow> string"
  oe_uuid_byte :: "nat \<Rightarrow> nat"
  oe_parse :: "string \<Rightarrow> json option"
  oe_print :: "json \<Rightarrow> string"
  oe_set_order :: "string list \<Rightarrow> string list"
  oe_f64 :: "int \<Rightarrow> string"
  oe_chrono :: chrono
  oe_rfc3339 :: "int \<Rightarrow> string"

datatype org_error =
    ParentNotFound string
  | DuplicateOrganizationalUnit string
  | OrganizationalUnitNotFound string
  | OrganizationalUnitNotEmpty string
  | AccountNotFound string
  | SourceParentNotFound string
  | DestinationParentNotFound string
  | PolicyNotFound string
  | DuplicatePolicy string
  | MalformedPolicyDocument
  | PolicyTypeNotSupported string
  | PolicyChangesNotAllowed string
  | PolicyInUse string
  | PolicyNotAttached string
  | TargetNotFound string
  | AccountChangesNotAllowed string
  | CreateAccountStatusNotFound string
  | HandshakeNotFound string
  | HandshakeAlreadyResolved string
  | InvalidHandshakeState string
  | InvalidHandshakeParty string
  | DuplicateHandshakeForAccount string
  | AccountAlreadyMember string
  | AccountInAnotherOrganization string
  | AWSServiceAccessNotEnabled string
  | DelegatedAdministratorAlreadyRegistered string
  | DelegatedAdministratorNotRegistered string

record delegated_administrator =
  dg_account_id :: string
  dg_service_principal :: string
  dg_registered_at :: int

record create_account_status =
  cs_id :: string
  cs_account_id :: "string option"
  cs_account_name :: string
  cs_state :: string
  cs_requested :: int
  cs_completed :: "int option"
  cs_failure_reason :: "string option"
  cs_gov_cloud_account_id :: "string option"
  cs_pending_email :: "string option"

record organizational_unit =
  ou_id :: string
  ou_arn :: string
  ou_name :: string
  ou_parent_id :: string

record member_account =
  ac_id :: string
  ac_arn :: string
  ac_email :: string
  ac_name :: string
  ac_status :: string
  ac_joined_method :: string
  ac_joined_timestamp :: int
  ac_parent_id :: string
  ac_gov_cloud_mirror :: bool

record handshake =
  hs_id :: string
  hs_arn :: string
  hs_action :: string
  hs_state :: string
  hs_requested :: int
  hs_expiration :: int
  hs_source_account_id :: string
  hs_target_account_id :: string
  hs_target_email :: "string option"
  hs_target_kind :: string
  hs_notes :: "string option"
  hs_organization_id :: string
  hs_responsibility_transfer_id :: "string option"

record org_policy =
  po_id :: string
  po_arn :: string
  po_name :: string
  po_description :: string
  po_type :: string
  po_aws_managed :: bool
  po_content :: string

record responsibility_transfer =
  rt_id :: string
  rt_arn :: string
  rt_name :: string
  rt_type :: string
  rt_status :: string
  rt_direction :: string
  rt_source_account_id :: string
  rt_source_email :: string
  rt_target_account_id :: string
  rt_target_email :: string
  rt_start :: int
  rt_end :: "int option"
  rt_active_handshake_id :: "string option"

record organization_state =
  og_id :: string
  og_arn :: string
  og_management_account_id :: string
  og_management_account_arn :: string
  og_management_account_email :: string
  og_feature_set :: string
  og_root_id :: string
  og_root_arn :: string
  og_root_name :: string
  og_created_at :: int
  og_ous :: "organizational_unit smap"
  og_accounts :: "member_account smap"
  og_policies :: "org_policy smap"
  og_attachments :: "string list smap"
  og_create_account_requests :: "create_account_status smap"
  og_handshakes :: "handshake smap"
  og_trusted_services :: "int smap"
  og_delegated_administrators :: "delegated_administrator smap smap"
  og_enabled_policy_types :: "string list"
  og_resource_tags :: "string smap smap"
  og_resource_policy :: "string option"
  og_responsibility_transfers :: "responsibility_transfer smap"

type_synonym organizations_registry = "organization_state smap"

text \<open>An operation of the state: a result or a typed error, and the state it leaves.\<close>

type_synonym 'a org_op = "organization_state \<Rightarrow> (org_error + 'a) \<times> organization_state"

text \<open>\<^verbatim>\<open>HashSet::insert\<close> and \<^verbatim>\<open>HashSet::remove\<close>.\<close>

definition set_insert :: "'a \<Rightarrow> 'a list \<Rightarrow> 'a list" where
  "set_insert x xs = (if x \<in> set xs then xs else xs @ [x])"

definition set_remove :: "'a \<Rightarrow> 'a list \<Rightarrow> 'a list" where
  "set_remove x xs = filter (\<lambda>y. y \<noteq> x) xs"

text \<open>The text of a UUID has 32 characters, so \<open>len\<close> of them take this many draws.\<close>

definition random_id :: "org_env \<Rightarrow> nat \<Rightarrow> nat \<Rightarrow> string" where
  "random_id env k len = take len (concat (map (oe_uuid env) [k ..< k + (len + 31) div 32]))"

definition scp_type :: string where
  "scp_type = ''SERVICE_CONTROL_POLICY''"

definition is_supported_policy_type :: "string \<Rightarrow> bool" where
  "is_supported_policy_type t \<longleftrightarrow>
     t \<in> set [scp_type, ''TAG_POLICY'', ''BACKUP_POLICY'', ''AISERVICES_OPT_OUT_POLICY'', ''RESOURCE_CONTROL_POLICY'']"

definition policy_type_path_segment :: "string \<Rightarrow> string" where
  "policy_type_path_segment t =
     (if t = scp_type then ''service_control_policy''
      else if t = ''TAG_POLICY'' then ''tag_policy''
      else if t = ''BACKUP_POLICY'' then ''backup_policy''
      else if t = ''AISERVICES_OPT_OUT_POLICY'' then ''aiservices_opt_out_policy''
      else if t = ''RESOURCE_CONTROL_POLICY'' then ''resource_control_policy''
      else ''policy'')"

section \<open>Organizations\<close>

definition resource_arn :: "organization_state \<Rightarrow> string \<Rightarrow> string" where
  "resource_arn og res =
     arn_to_string (with_partition (partition_of (og_arn og))
       (arn_global ''organizations'' (og_management_account_id og) res))"

definition resource_policy_id :: string where
  "resource_policy_id = ''rp-fakecloud''"

definition resource_policy_arn :: "organization_state \<Rightarrow> string" where
  "resource_policy_arn og = resource_arn og (''resourcepolicy/'' @ og_id og @ ''/'' @ resource_policy_id)"

definition org_partition :: "organization_state \<Rightarrow> string" where
  "org_partition og = partition_of (og_arn og)"

definition mark_legacy_gov_cloud_mirrors :: "organization_state \<Rightarrow> organization_state" where
  "mark_legacy_gov_cloud_mirrors og =
     (if org_partition og \<noteq> ''aws'' then og
      else og\<lparr>og_accounts := map (\<lambda>(k, a).
             (k, if partition_of (ac_arn a) = ''aws-us-gov'' then a\<lparr>ac_gov_cloud_mirror := True\<rparr> else a)) (og_accounts og)\<rparr>)"

definition account_arn :: "organization_state \<Rightarrow> string \<Rightarrow> string" where
  "account_arn og acct = resource_arn og (''account/'' @ og_id og @ ''/'' @ acct)"

definition full_aws_access_id :: string where
  "full_aws_access_id = ''p-FullAWSAccess''"

definition full_aws_access_content :: string where
  "full_aws_access_content =
     (let q = [CHR 0x22]
      in ''{'' @ q @ ''Version'' @ q @ '':'' @ q @ ''2012-10-17'' @ q @ '','' @ q @ ''Statement'' @ q @ '':[{'' @
         q @ ''Effect'' @ q @ '':'' @ q @ ''Allow'' @ q @ '','' @ q @ ''Action'' @ q @ '':'' @ q @ ''*'' @ q @ '','' @
         q @ ''Resource'' @ q @ '':'' @ q @ ''*'' @ q @ ''}]}'')"

definition synthetic_email :: "string \<Rightarrow> string" where
  "synthetic_email acct = acct @ ''@example.com''"

definition full_aws_access :: "string \<Rightarrow> org_policy" where
  "full_aws_access rgn =
     \<lparr>po_id = full_aws_access_id,
      po_arn = arn_to_string (arn_global_in rgn ''organizations'' ''aws'' (''policy/service_control_policy/'' @ full_aws_access_id)),
      po_name = ''FullAWSAccess'', po_description = ''Allows access to every operation'', po_type = scp_type,
      po_aws_managed = True, po_content = full_aws_access_content\<rparr>"

text \<open>A member as \<^verbatim>\<open>bootstrap_in\<close>, \<^verbatim>\<open>resolve_handshake\<close> and \<^verbatim>\<open>enroll_account_if_missing\<close> enter it.\<close>

definition invited_member :: "org_env \<Rightarrow> string \<Rightarrow> string \<Rightarrow> string \<Rightarrow> string \<Rightarrow> member_account" where
  "invited_member env acct a email root_id =
     \<lparr>ac_id = acct, ac_arn = a, ac_email = email, ac_name = ''Account '' @ acct, ac_status = ''ACTIVE'',
      ac_joined_method = ''INVITED'', ac_joined_timestamp = oe_now env, ac_parent_id = root_id, ac_gov_cloud_mirror = False\<rparr>"

definition bootstrap_in :: "org_env \<Rightarrow> string \<Rightarrow> string \<Rightarrow> organization_state" where
  "bootstrap_in env rgn mgmt =
     (let oid = ''o-'' @ random_id env 0 10;
          root_id = ''r-'' @ random_id env 1 12;
          garn = (\<lambda>res. arn_to_string (arn_global_in rgn ''organizations'' mgmt res));
          mgmt_arn = garn (''account/'' @ oid @ ''/'' @ mgmt)
      in \<lparr>og_id = oid, og_arn = garn (''organization/'' @ oid), og_management_account_id = mgmt,
          og_management_account_arn = mgmt_arn, og_management_account_email = synthetic_email mgmt,
          og_feature_set = ''ALL'', og_root_id = root_id, og_root_arn = garn (''root/'' @ oid @ ''/'' @ root_id),
          og_root_name = ''Root'', og_created_at = oe_now env, og_ous = [],
          og_accounts = [(mgmt, invited_member env mgmt mgmt_arn (synthetic_email mgmt) root_id)],
          og_policies = [(full_aws_access_id, full_aws_access rgn)],
          og_attachments = [(root_id, [full_aws_access_id])], og_create_account_requests = [], og_handshakes = [],
          og_trusted_services = [], og_delegated_administrators = [], og_enabled_policy_types = [scp_type],
          og_resource_tags = [], og_resource_policy = None, og_responsibility_transfers = []\<rparr>)"

subsection \<open>Tags, parents and policy types\<close>

definition set_resource_tags :: "string \<Rightarrow> (string \<times> string) list \<Rightarrow> organization_state \<Rightarrow> organization_state" where
  "set_resource_tags res tags og =
     (let old = unwrap_or (map_of (og_resource_tags og) res) []
      in og\<lparr>og_resource_tags := bt_insert res (fold (\<lambda>(k, v). bt_insert k v) tags old) (og_resource_tags og)\<rparr>)"

definition org_untag_resource :: "string \<Rightarrow> string list \<Rightarrow> organization_state \<Rightarrow> organization_state" where
  "org_untag_resource res tag_keys og =
     og\<lparr>og_resource_tags := bt_modify res (\<lambda>tags. fold bt_remove tag_keys tags) (og_resource_tags og)\<rparr>"

definition list_resource_tags :: "organization_state \<Rightarrow> string \<Rightarrow> (string \<times> string) list" where
  "list_resource_tags og res = unwrap_or (map_of (og_resource_tags og) res) []"

definition parent_type_for :: "string \<Rightarrow> string" where
  "parent_type_for parent = (if starts_with parent ''r-'' then ''ROOT'' else ''ORGANIZATIONAL_UNIT'')"

definition parent_of :: "organization_state \<Rightarrow> string \<Rightarrow> (string \<times> string) option" where
  "parent_of og child =
     (case map_of (og_accounts og) child of
        Some a \<Rightarrow> Some (ac_parent_id a, parent_type_for (ac_parent_id a))
      | None \<Rightarrow>
          (case map_of (og_ous og) child of
             Some ou \<Rightarrow> Some (ou_parent_id ou, parent_type_for (ou_parent_id ou))
           | None \<Rightarrow> None))"

definition org_list_children :: "organization_state \<Rightarrow> string \<Rightarrow> string \<Rightarrow> string list" where
  "org_list_children og parent child_type =
     (if child_type = ''ACCOUNT''
      then map ac_id (filter (\<lambda>a. ac_parent_id a = parent) (map snd (og_accounts og)))
      else if child_type = ''ORGANIZATIONAL_UNIT''
      then map ou_id (filter (\<lambda>ou. ou_parent_id ou = parent) (map snd (og_ous og)))
      else [])"

definition org_enable_all_features :: "organization_state \<Rightarrow> organization_state" where
  "org_enable_all_features og = og\<lparr>og_feature_set := ''ALL''\<rparr>"

definition org_enable_policy_type :: "string \<Rightarrow> organization_state \<Rightarrow> organization_state" where
  "org_enable_policy_type t og = og\<lparr>og_enabled_policy_types := set_insert t (og_enabled_policy_types og)\<rparr>"

definition org_disable_policy_type :: "string \<Rightarrow> unit org_op" where
  "org_disable_policy_type t og =
     (if t = scp_type then (Inl (PolicyTypeNotSupported ''SCP cannot be disabled''), og)
      else (Inr (), og\<lparr>og_enabled_policy_types := set_remove t (og_enabled_policy_types og)\<rparr>))"

definition list_policy_type_statuses :: "organization_state \<Rightarrow> (string \<times> string) list" where
  "list_policy_type_statuses og =
     (let known = [scp_type, ''TAG_POLICY'', ''BACKUP_POLICY'', ''AISERVICES_OPT_OUT_POLICY'', ''RESOURCE_CONTROL_POLICY'']
      in map (\<lambda>t. (t, if t \<in> set (og_enabled_policy_types og) then ''ENABLED'' else ''DISABLED'')) known @
         map (\<lambda>t. (t, ''ENABLED'')) (sort (filter (\<lambda>t. t \<notin> set known) (og_enabled_policy_types og))))"

subsection \<open>Creating accounts\<close>

definition begin_create_account ::
  "org_env \<Rightarrow> string \<Rightarrow> string \<Rightarrow> string \<Rightarrow> string option \<Rightarrow> organization_state \<Rightarrow> create_account_status \<times> organization_state" where
  "begin_create_account env email name acct gov_id og =
     (let rid = ''car-'' @ random_id env 0 20;
          status = \<lparr>cs_id = rid, cs_account_id = Some acct, cs_account_name = name, cs_state = ''IN_PROGRESS'',
            cs_requested = oe_now env, cs_completed = None, cs_failure_reason = None, cs_gov_cloud_account_id = gov_id,
            cs_pending_email = Some email\<rparr>
      in (status, og\<lparr>og_create_account_requests := bt_insert rid status (og_create_account_requests og)\<rparr>))"

definition created_member :: "org_env \<Rightarrow> string \<Rightarrow> string \<Rightarrow> string \<Rightarrow> string \<Rightarrow> bool \<Rightarrow> string \<Rightarrow> member_account" where
  "created_member env acct a email name mirror root_id =
     \<lparr>ac_id = acct, ac_arn = a, ac_email = email, ac_name = name, ac_status = ''ACTIVE'',
      ac_joined_method = ''CREATED'', ac_joined_timestamp = oe_now env, ac_parent_id = root_id, ac_gov_cloud_mirror = mirror\<rparr>"

definition complete_create_account ::
  "org_env \<Rightarrow> string \<Rightarrow> organization_state \<Rightarrow> create_account_status option \<times> organization_state" where
  "complete_create_account env rid og =
     (case map_of (og_create_account_requests og) rid of
        None \<Rightarrow> (None, og)
      | Some status \<Rightarrow>
          if cs_state status \<noteq> ''IN_PROGRESS'' then (Some status, og)
          else
            (case cs_account_id status of
               None \<Rightarrow> (None, og)
             | Some acct \<Rightarrow>
                 (let name = cs_account_name status;
                      email = unwrap_or (cs_pending_email status) [];
                      accts = bt_insert acct (created_member env acct (account_arn og acct) email name False (og_root_id og)) (og_accounts og);
                      accts' = (case cs_gov_cloud_account_id status of
                        None \<Rightarrow> accts
                      | Some gov \<Rightarrow>
                          bt_insert gov (created_member env gov
                            (''arn:aws-us-gov:organizations::'' @ og_management_account_id og @ '':account/'' @ og_id og @ ''/'' @ gov)
                            email name True (og_root_id og)) accts);
                      status' = status\<lparr>cs_state := ''SUCCEEDED'', cs_completed := Some (oe_now env), cs_pending_email := None\<rparr>
                  in (Some status', og\<lparr>og_accounts := accts',
                        og_create_account_requests := bt_modify rid (\<lambda>_. status') (og_create_account_requests og)\<rparr>))))"

definition fail_create_account ::
  "org_env \<Rightarrow> string \<Rightarrow> string \<Rightarrow> organization_state \<Rightarrow> create_account_status option \<times> organization_state" where
  "fail_create_account env rid reason og =
     (case map_of (og_create_account_requests og) rid of
        None \<Rightarrow> (None, og)
      | Some status \<Rightarrow>
          if cs_state status \<noteq> ''IN_PROGRESS'' then (Some status, og)
          else
            (let status' = status\<lparr>cs_state := ''FAILED'', cs_completed := Some (oe_now env),
                   cs_failure_reason := Some reason, cs_pending_email := None\<rparr>;
                 drop_tags = (\<lambda>acct tags. case acct of None \<Rightarrow> tags | Some a \<Rightarrow> bt_remove a tags)
             in (Some status', og\<lparr>
                   og_create_account_requests := bt_modify rid (\<lambda>_. status') (og_create_account_requests og),
                   og_resource_tags := drop_tags (cs_gov_cloud_account_id status)
                     (drop_tags (cs_account_id status) (og_resource_tags og))\<rparr>)))"

subsection \<open>Handshakes\<close>

definition target_account_id :: "string \<Rightarrow> string \<Rightarrow> string option" where
  "target_account_id kind target =
     (if kind \<noteq> ''EMAIL'' then Some target
      else Option.bind (strip_suffix target ''@example.com'') (\<lambda>l.
             if length l = 12 \<and> list_all is_ascii_digit l then Some l else None))"

definition live_handshake :: "handshake \<Rightarrow> bool" where
  "live_handshake h \<longleftrightarrow> hs_state h \<in> set [''OPEN'', ''REQUESTED'']"

definition registered_with :: "string \<Rightarrow> member_account \<Rightarrow> bool" where
  "registered_with email a \<longleftrightarrow> ac_email a = email \<and> \<not> ac_gov_cloud_mirror a \<and> ac_status a \<noteq> ''SUSPENDED''"

definition org_invite_account ::
  "org_env \<Rightarrow> string \<Rightarrow> string \<Rightarrow> string \<Rightarrow> string option \<Rightarrow> string option \<Rightarrow> handshake org_op" where
  "org_invite_account env source kind target target_email notes og =
     (let resolved = opt_or
            (map_option ac_id (find (\<lambda>a. kind = ''EMAIL'' \<and> registered_with target a) (map snd (og_accounts og))))
            (target_account_id kind target);
          same_target = (\<lambda>h. hs_target_account_id h = target \<or>
            resolved \<noteq> None \<and> target_account_id (hs_target_kind h) (hs_target_account_id h) = resolved)
      in case opt_filter (\<lambda>t. map_of (og_accounts og) t \<noteq> None) resolved of
           Some t \<Rightarrow> (Inl (AccountAlreadyMember t), og)
         | None \<Rightarrow>
             if list_ex (\<lambda>h. hs_action h = ''INVITE'' \<and> same_target h \<and> live_handshake h) (map snd (og_handshakes og))
             then (Inl (DuplicateHandshakeForAccount target), og)
             else
               (let hid = ''h-'' @ random_id env 0 32;
                    h = \<lparr>hs_id = hid, hs_arn = resource_arn og (''handshake/'' @ og_id og @ ''/invite/'' @ hid),
                         hs_action = ''INVITE'', hs_state = ''OPEN'', hs_requested = oe_now env,
                         hs_expiration = oe_now env + seconds (15 * 86400), hs_source_account_id = source,
                         hs_target_account_id = target, hs_target_email = target_email, hs_target_kind = kind,
                         hs_notes = notes, hs_organization_id = og_id og, hs_responsibility_transfer_id = None\<rparr>
                in (Inr h, og\<lparr>og_handshakes := bt_insert hid h (og_handshakes og)\<rparr>)))"

text \<open>The first transfer that rides on a handshake, and a write through it.\<close>

definition riding_transfer :: "string \<Rightarrow> organization_state \<Rightarrow> (string \<times> responsibility_transfer) option" where
  "riding_transfer hid og =
     find (\<lambda>e. rt_active_handshake_id (snd e) = Some hid) (og_responsibility_transfers og)"

definition settle_transfer :: "org_env \<Rightarrow> string \<Rightarrow> string \<Rightarrow> organization_state \<Rightarrow> organization_state" where
  "settle_transfer env hid new_state og =
     (case riding_transfer hid og of
        None \<Rightarrow> og
      | Some (k, t) \<Rightarrow>
          (let t' = t\<lparr>rt_status := new_state, rt_active_handshake_id := None\<rparr>;
               t'' = (if new_state \<in> set [''DECLINED'', ''CANCELED'', ''EXPIRED''] then t'\<lparr>rt_end := Some (oe_now env)\<rparr> else t')
           in og\<lparr>og_responsibility_transfers := bt_modify k (\<lambda>_. t'') (og_responsibility_transfers og)\<rparr>))"

definition resolve_handshake :: "org_env \<Rightarrow> string \<Rightarrow> string \<Rightarrow> string option \<Rightarrow> string option \<Rightarrow> handshake org_op" where
  "resolve_handshake env hid new_state enrolling enrolling_email og =
     (case map_of (og_handshakes og) hid of
        None \<Rightarrow> (Inl (HandshakeNotFound hid), og)
      | Some h \<Rightarrow>
          if \<not> live_handshake h then (Inl (HandshakeAlreadyResolved (hs_state h)), og)
          else if new_state \<notin> set [''ACCEPTED'', ''DECLINED'', ''CANCELED'', ''EXPIRED'']
          then (Inl (InvalidHandshakeState new_state), og)
          else
            (let h' = h\<lparr>hs_state := new_state\<rparr>;
                 og1 = og\<lparr>og_handshakes := bt_modify hid (\<lambda>_. h') (og_handshakes og)\<rparr>;
                 joining = (if new_state = ''ACCEPTED'' \<and> hs_action h' = ''INVITE''
                            then opt_filter (\<lambda>t. map_of (og_accounts og1) t = None) enrolling else None);
                 og2 = (case joining of
                     None \<Rightarrow> og1
                   | Some t \<Rightarrow>
                       og1\<lparr>og_accounts := bt_insert t
                         (invited_member env t (account_arn og1 t)
                           (unwrap_or (opt_or enrolling_email (hs_target_email h')) (synthetic_email t)) (og_root_id og1))
                         (og_accounts og1)\<rparr>)
             in (Inr h', if hs_action h' = ''TRANSFER_RESPONSIBILITY'' then settle_transfer env hid new_state og2 else og2)))"

definition stale_handshake :: "int \<Rightarrow> handshake \<Rightarrow> bool" where
  "stale_handshake t h \<longleftrightarrow> live_handshake h \<and> hs_expiration h \<le> t"

definition expire_handshake :: "org_env \<Rightarrow> string \<times> int \<Rightarrow> organization_state \<Rightarrow> organization_state" where
  "expire_handshake env e og =
     (let (hid, deadline) = e;
          riding = map_option (\<lambda>x. rt_id (snd x)) (riding_transfer hid og);
          og' = snd (resolve_handshake env hid ''EXPIRED'' None None og)
      in case riding of
           None \<Rightarrow> og'
         | Some tid \<Rightarrow>
             og'\<lparr>og_responsibility_transfers :=
               bt_modify tid (\<lambda>t. t\<lparr>rt_end := Some deadline\<rparr>) (og_responsibility_transfers og')\<rparr>)"

definition org_expire_stale :: "org_env \<Rightarrow> organization_state \<Rightarrow> nat \<times> organization_state" where
  "org_expire_stale env og =
     (let stale = map (\<lambda>h. (hs_id h, hs_expiration h)) (filter (stale_handshake (oe_now env)) (map snd (og_handshakes og)))
      in (length stale, fold (expire_handshake env) stale og))"

definition list_handshakes :: "organization_state \<Rightarrow> handshake list" where
  "list_handshakes og = map snd (og_handshakes og)"

subsection \<open>Trusted services and delegated administrators\<close>

definition org_enable_service_access :: "org_env \<Rightarrow> string \<Rightarrow> organization_state \<Rightarrow> organization_state" where
  "org_enable_service_access env sp og =
     (if map_of (og_trusted_services og) sp \<noteq> None then og
      else og\<lparr>og_trusted_services := bt_insert sp (oe_now env) (og_trusted_services og)\<rparr>)"

definition org_disable_service_access :: "string \<Rightarrow> unit org_op" where
  "org_disable_service_access sp og =
     (if is_some_and (map_of (og_delegated_administrators og) sp) (\<lambda>admins. admins \<noteq> [])
      then (Inl (DelegatedAdministratorAlreadyRegistered sp), og)
      else (Inr (), og\<lparr>og_trusted_services := bt_remove sp (og_trusted_services og),
                      og_delegated_administrators := bt_remove sp (og_delegated_administrators og)\<rparr>))"

definition org_register_delegated :: "org_env \<Rightarrow> string \<Rightarrow> string \<Rightarrow> delegated_administrator org_op" where
  "org_register_delegated env acct sp og =
     (if map_of (og_accounts og) acct = None then (Inl (AccountNotFound acct), og)
      else if map_of (og_trusted_services og) sp = None then (Inl (AWSServiceAccessNotEnabled sp), og)
      else
        (let entry = unwrap_or (map_of (og_delegated_administrators og) sp) [];
             admin = \<lparr>dg_account_id = acct, dg_service_principal = sp, dg_registered_at = oe_now env\<rparr>
         in if map_of entry acct \<noteq> None
            then (Inl (DelegatedAdministratorAlreadyRegistered acct),
                  og\<lparr>og_delegated_administrators := bt_insert sp entry (og_delegated_administrators og)\<rparr>)
            else (Inr admin,
                  og\<lparr>og_delegated_administrators := bt_insert sp (bt_insert acct admin entry) (og_delegated_administrators og)\<rparr>)))"

definition org_deregister_delegated :: "string \<Rightarrow> string \<Rightarrow> unit org_op" where
  "org_deregister_delegated acct sp og =
     (if is_some_and (map_of (og_delegated_administrators og) sp) (\<lambda>admins. map_of admins acct \<noteq> None)
      then (Inr (), og\<lparr>og_delegated_administrators := bt_modify sp (bt_remove acct) (og_delegated_administrators og)\<rparr>)
      else (Inl (DelegatedAdministratorNotRegistered acct), og))"

definition is_delegated_administrator :: "organization_state \<Rightarrow> string \<Rightarrow> bool" where
  "is_delegated_administrator og acct \<longleftrightarrow>
     list_ex (\<lambda>admins. map_of admins acct \<noteq> None) (map snd (og_delegated_administrators og))"

definition org_list_delegated :: "organization_state \<Rightarrow> string option \<Rightarrow> delegated_administrator list" where
  "org_list_delegated og sp =
     concat (map (\<lambda>(_, admins). map snd admins) (filter (\<lambda>e. is_none_or sp (\<lambda>x. x = fst e)) (og_delegated_administrators og)))"

definition org_delegated_services :: "organization_state \<Rightarrow> string \<Rightarrow> (string \<times> int) list" where
  "org_delegated_services og acct =
     List.map_filter (\<lambda>(sp, admins). map_option (\<lambda>ad. (sp, dg_registered_at ad)) (map_of admins acct)) (og_delegated_administrators og)"

subsection \<open>Members\<close>

definition is_management :: "organization_state \<Rightarrow> string \<Rightarrow> bool" where
  "is_management og acct \<longleftrightarrow> acct = og_management_account_id og"

definition org_close_account :: "string \<Rightarrow> unit org_op" where
  "org_close_account acct og =
     (if acct = og_management_account_id og then (Inl (AccountChangesNotAllowed acct), og)
      else if map_of (og_accounts og) acct = None then (Inl (AccountNotFound acct), og)
      else (Inr (), og\<lparr>og_accounts := bt_modify acct (\<lambda>a. a\<lparr>ac_status := ''SUSPENDED''\<rparr>) (og_accounts og)\<rparr>))"

definition org_remove_account :: "string \<Rightarrow> unit org_op" where
  "org_remove_account acct og =
     (if acct = og_management_account_id og then (Inl (AccountChangesNotAllowed acct), og)
      else if map_of (og_accounts og) acct = None then (Inl (AccountNotFound acct), og)
      else (Inr (), og\<lparr>og_accounts := bt_remove acct (og_accounts og),
             og_attachments := bt_remove acct (og_attachments og),
             og_resource_tags := bt_remove acct (og_resource_tags og),
             og_delegated_administrators :=
               bt_retain (\<lambda>_ admins. admins \<noteq> []) (map (\<lambda>(sp, admins). (sp, bt_remove acct admins)) (og_delegated_administrators og))\<rparr>))"

definition enroll_account_if_missing :: "org_env \<Rightarrow> string \<Rightarrow> organization_state \<Rightarrow> organization_state" where
  "enroll_account_if_missing env acct og =
     (if map_of (og_accounts og) acct \<noteq> None then og
      else og\<lparr>og_accounts := bt_insert acct
             (invited_member env acct (account_arn og acct) (synthetic_email acct) (og_root_id og)) (og_accounts og)\<rparr>)"

subsection \<open>Organizational units\<close>

definition org_create_ou :: "org_env \<Rightarrow> string \<Rightarrow> string \<Rightarrow> organizational_unit org_op" where
  "org_create_ou env parent name og =
     (if parent \<noteq> og_root_id og \<and> map_of (og_ous og) parent = None then (Inl (ParentNotFound parent), og)
      else if list_ex (\<lambda>ou. ou_parent_id ou = parent \<and> ou_name ou = name) (map snd (og_ous og))
      then (Inl (DuplicateOrganizationalUnit name), og)
      else
        (let oid = ''ou-'' @ unwrap_or (strip_prefix (og_root_id og) ''r-'') (og_root_id og) @ ''-'' @ random_id env 0 8;
             ou = \<lparr>ou_id = oid, ou_arn = resource_arn og (''ou/'' @ og_id og @ ''/'' @ oid), ou_name = name, ou_parent_id = parent\<rparr>
         in (Inr ou, og\<lparr>og_ous := bt_insert oid ou (og_ous og)\<rparr>)))"

definition org_rename_ou :: "string \<Rightarrow> string \<Rightarrow> organizational_unit org_op" where
  "org_rename_ou oid new_name og =
     (case map_of (og_ous og) oid of
        None \<Rightarrow> (Inl (OrganizationalUnitNotFound oid), og)
      | Some ou \<Rightarrow>
          if list_ex (\<lambda>u. ou_id u \<noteq> oid \<and> ou_parent_id u = ou_parent_id ou \<and> ou_name u = new_name) (map snd (og_ous og))
          then (Inl (DuplicateOrganizationalUnit new_name), og)
          else (Inr (ou\<lparr>ou_name := new_name\<rparr>), og\<lparr>og_ous := bt_modify oid (\<lambda>_. ou\<lparr>ou_name := new_name\<rparr>) (og_ous og)\<rparr>))"

definition org_delete_ou :: "string \<Rightarrow> unit org_op" where
  "org_delete_ou oid og =
     (if map_of (og_ous og) oid = None then (Inl (OrganizationalUnitNotFound oid), og)
      else if list_ex (\<lambda>ou. ou_parent_id ou = oid) (map snd (og_ous og)) \<or>
              list_ex (\<lambda>a. ac_parent_id a = oid) (map snd (og_accounts og))
      then (Inl (OrganizationalUnitNotEmpty oid), og)
      else (Inr (), og\<lparr>og_attachments := bt_remove oid (og_attachments og), og_ous := bt_remove oid (og_ous og)\<rparr>))"

definition org_move_account :: "string \<Rightarrow> string \<Rightarrow> string \<Rightarrow> unit org_op" where
  "org_move_account acct source dest og =
     (case map_of (og_accounts og) acct of
        None \<Rightarrow> (Inl (AccountNotFound acct), og)
      | Some a \<Rightarrow>
          if ac_parent_id a \<noteq> source then (Inl (SourceParentNotFound source), og)
          else if dest \<noteq> og_root_id og \<and> map_of (og_ous og) dest = None then (Inl (DestinationParentNotFound dest), og)
          else (Inr (), og\<lparr>og_accounts := bt_modify acct (\<lambda>a. a\<lparr>ac_parent_id := dest\<rparr>) (og_accounts og)\<rparr>))"

subsection \<open>Policies\<close>

definition org_create_policy :: "org_env \<Rightarrow> string \<Rightarrow> string \<Rightarrow> string \<Rightarrow> string \<Rightarrow> org_policy org_op" where
  "org_create_policy env name description content ptype og =
     (if \<not> is_supported_policy_type ptype then (Inl (PolicyTypeNotSupported ptype), og)
      else if oe_parse env content = None then (Inl MalformedPolicyDocument, og)
      else if list_ex (\<lambda>p. po_type p = ptype \<and> po_name p = name) (map snd (og_policies og))
      then (Inl (DuplicatePolicy name), og)
      else
        (let pid = ''p-'' @ random_id env 0 8;
             p = \<lparr>po_id = pid,
                  po_arn = resource_arn og (''policy/'' @ og_id og @ ''/'' @ policy_type_path_segment ptype @ ''/'' @ pid),
                  po_name = name, po_description = description, po_type = ptype, po_aws_managed = False, po_content = content\<rparr>
         in (Inr p, og\<lparr>og_policies := bt_insert pid p (og_policies og)\<rparr>)))"

definition org_update_policy ::
  "org_env \<Rightarrow> string \<Rightarrow> string option \<Rightarrow> string option \<Rightarrow> string option \<Rightarrow> org_policy org_op" where
  "org_update_policy env pid name description content og =
     (case map_of (og_policies og) pid of
        None \<Rightarrow> (Inl (PolicyNotFound pid), og)
      | Some p \<Rightarrow>
          if po_aws_managed p then (Inl (PolicyChangesNotAllowed pid), og)
          else
            (case opt_filter (\<lambda>n. list_ex (\<lambda>x. po_id x \<noteq> pid \<and> po_type x = po_type p \<and> po_name x = n)
                    (map snd (og_policies og))) name of
               Some n \<Rightarrow> (Inl (DuplicatePolicy n), og)
             | None \<Rightarrow>
                 if is_some_and content (\<lambda>c. oe_parse env c = None) then (Inl MalformedPolicyDocument, og)
                 else
                   (let p' = p\<lparr>po_name := unwrap_or name (po_name p), po_description := unwrap_or description (po_description p),
                               po_content := unwrap_or content (po_content p)\<rparr>
                    in (Inr p', og\<lparr>og_policies := bt_modify pid (\<lambda>_. p') (og_policies og)\<rparr>))))"

definition org_delete_policy :: "string \<Rightarrow> unit org_op" where
  "org_delete_policy pid og =
     (case map_of (og_policies og) pid of
        None \<Rightarrow> (Inl (PolicyNotFound pid), og)
      | Some p \<Rightarrow>
          if po_aws_managed p then (Inl (PolicyChangesNotAllowed pid), og)
          else if list_ex (\<lambda>ids. pid \<in> set ids) (map snd (og_attachments og)) then (Inl (PolicyInUse pid), og)
          else (Inr (), og\<lparr>og_policies := bt_remove pid (og_policies og)\<rparr>))"

definition target_exists :: "organization_state \<Rightarrow> string \<Rightarrow> bool" where
  "target_exists og target \<longleftrightarrow>
     target = og_root_id og \<or> map_of (og_ous og) target \<noteq> None \<or> map_of (og_accounts og) target \<noteq> None"

definition target_type :: "organization_state \<Rightarrow> string \<Rightarrow> string option" where
  "target_type og target =
     (if target = og_root_id og then Some ''ROOT''
      else if map_of (og_ous og) target \<noteq> None then Some ''ORGANIZATIONAL_UNIT''
      else if map_of (og_accounts og) target \<noteq> None then Some ''ACCOUNT''
      else None)"

definition org_attach_policy :: "string \<Rightarrow> string \<Rightarrow> unit org_op" where
  "org_attach_policy pid target og =
     (if map_of (og_policies og) pid = None then (Inl (PolicyNotFound pid), og)
      else if \<not> target_exists og target then (Inl (TargetNotFound target), og)
      else (Inr (), og\<lparr>og_attachments :=
             bt_insert target (set_insert pid (unwrap_or (map_of (og_attachments og) target) [])) (og_attachments og)\<rparr>))"

definition org_detach_policy :: "string \<Rightarrow> string \<Rightarrow> unit org_op" where
  "org_detach_policy pid target og =
     (if map_of (og_policies og) pid = None then (Inl (PolicyNotFound pid), og)
      else if \<not> target_exists og target then (Inl (TargetNotFound target), og)
      else
        (case map_of (og_attachments og) target of
           None \<Rightarrow> (Inl (PolicyNotAttached pid), og)
         | Some ids \<Rightarrow>
             if pid \<notin> set ids then (Inl (PolicyNotAttached pid), og)
             else
               (let ids' = set_remove pid ids
                in (Inr (), og\<lparr>og_attachments :=
                      (if ids' = [] then bt_remove target (og_attachments og) else bt_insert target ids' (og_attachments og))\<rparr>))))"

definition policies_for_target :: "org_env \<Rightarrow> organization_state \<Rightarrow> string \<Rightarrow> org_error + org_policy list" where
  "policies_for_target env og target =
     (if \<not> target_exists og target then Inl (TargetNotFound target)
      else
        Inr (List.map_filter (map_of (og_policies og))
               (oe_set_order env (unwrap_or (map_of (og_attachments og) target) []))))"

definition target_name :: "organization_state \<Rightarrow> string \<Rightarrow> string \<Rightarrow> string" where
  "target_name og target ttype =
     (if ttype = ''ROOT'' then og_root_name og
      else if ttype = ''ORGANIZATIONAL_UNIT'' then unwrap_or (map_option ou_name (map_of (og_ous og) target)) []
      else if ttype = ''ACCOUNT'' then unwrap_or (map_option ac_name (map_of (og_accounts og) target)) []
      else [])"

text \<open>\<open>None\<close> is the panic of \<^verbatim>\<open>expect("attachment target must still exist")\<close>.\<close>

fun targets_of :: "organization_state \<Rightarrow> string \<Rightarrow> string list smap \<Rightarrow> (string \<times> string \<times> string) list option" where
  "targets_of og pid [] = Some []"
| "targets_of og pid ((target, ids) # m) =
     (if pid \<notin> set ids then targets_of og pid m
      else
        Option.bind (target_type og target) (\<lambda>ttype.
          map_option (\<lambda>out. (target, target_name og target ttype, ttype) # out) (targets_of og pid m)))"

definition targets_for_policy ::
  "organization_state \<Rightarrow> string \<Rightarrow> (org_error + (string \<times> string \<times> string) list) option" where
  "targets_for_policy og pid =
     (if map_of (og_policies og) pid = None then Some (Inl (PolicyNotFound pid))
      else map_option Inr (targets_of og pid (og_attachments og)))"

section \<open>The registry\<close>

definition find_org :: "(organization_state \<Rightarrow> bool) \<Rightarrow> organizations_registry \<Rightarrow> (string \<times> organization_state) option" where
  "find_org p reg = find (\<lambda>e. p (snd e)) reg"

definition has_member :: "string \<Rightarrow> organization_state \<Rightarrow> bool" where
  "has_member acct og \<longleftrightarrow> map_of (og_accounts og) acct \<noteq> None"

definition org_of_account :: "string \<Rightarrow> organizations_registry \<Rightarrow> organization_state option" where
  "org_of_account acct reg = map_option snd (find_org (has_member acct) reg)"

definition has_stale_handshakes :: "int \<Rightarrow> organizations_registry \<Rightarrow> bool" where
  "has_stale_handshakes t reg \<longleftrightarrow> list_ex (\<lambda>og. list_ex (stale_handshake t) (map snd (og_handshakes og))) (map snd reg)"

definition expire_stale_handshakes :: "org_env \<Rightarrow> organizations_registry \<Rightarrow> nat \<times> organizations_registry" where
  "expire_stale_handshakes env reg =
     (sum_list (map (\<lambda>(_, og). fst (org_expire_stale env og)) reg), map (\<lambda>(k, og). (k, snd (org_expire_stale env og))) reg)"

definition org_of_handshake :: "string \<Rightarrow> organizations_registry \<Rightarrow> (string \<times> organization_state) option" where
  "org_of_handshake hid reg = find_org (\<lambda>og. map_of (og_handshakes og) hid \<noteq> None) reg"

definition org_of_create_account_request :: "string \<Rightarrow> organizations_registry \<Rightarrow> (string \<times> organization_state) option" where
  "org_of_create_account_request rid reg = find_org (\<lambda>og. map_of (og_create_account_requests og) rid \<noteq> None) reg"

definition org_of_responsibility_transfer :: "string \<Rightarrow> organizations_registry \<Rightarrow> (string \<times> organization_state) option" where
  "org_of_responsibility_transfer tid reg = find_org (\<lambda>og. map_of (og_responsibility_transfers og) tid \<noteq> None) reg"

definition all_members :: "organizations_registry \<Rightarrow> member_account list" where
  "all_members reg = concat (map (\<lambda>(_, og). map snd (og_accounts og)) reg)"

definition all_requests :: "organizations_registry \<Rightarrow> (string \<times> create_account_status) list" where
  "all_requests reg = concat (map (\<lambda>(_, og). og_create_account_requests og) reg)"

definition resolve_target_account :: "organizations_registry \<Rightarrow> string \<Rightarrow> string \<Rightarrow> string \<Rightarrow> string option" where
  "resolve_target_account reg kind target oid =
     (case (if kind = ''EMAIL''
            then Option.bind (map_of reg oid) (\<lambda>og. find (registered_with target) (map snd (og_accounts og)))
            else None) of
        Some a \<Rightarrow> Some (ac_id a)
      | None \<Rightarrow> target_account_id kind target)"

definition reserves :: "string \<Rightarrow> create_account_status \<Rightarrow> bool" where
  "reserves acct req \<longleftrightarrow> cs_account_id req = Some acct \<or> cs_gov_cloud_account_id req = Some acct"

definition account_id_taken :: "organizations_registry \<Rightarrow> string list \<Rightarrow> string \<Rightarrow> bool" where
  "account_id_taken reg besides acct \<longleftrightarrow>
     acct \<in> set besides \<or>
     list_ex (\<lambda>(_, og). has_member acct og \<or> list_ex (reserves acct) (map snd (og_create_account_requests og))) reg"

text \<open>
  Twelve draws make one candidate; \<open>k\<close> counts the draws and is returned, so that a second search goes
  on where the first one stopped.
\<close>

definition account_id_from :: "org_env \<Rightarrow> nat \<Rightarrow> string" where
  "account_id_from env k = map (\<lambda>i. char_of (48 + oe_uuid_byte env (k + i) mod 10)) [0 ..< 12]"

partial_function (option) mint_account_id :: "org_env \<Rightarrow> (string \<Rightarrow> bool) \<Rightarrow> nat \<Rightarrow> (string \<times> nat) option" where
  "mint_account_id env is_taken k =
     (let acct = account_id_from env k
      in if \<not> starts_with acct ''0'' \<and> \<not> is_taken acct then Some (acct, k + 12) else mint_account_id env is_taken (k + 12))"

definition next_account_id_besides :: "org_env \<Rightarrow> organizations_registry \<Rightarrow> string list \<Rightarrow> nat \<Rightarrow> (string \<times> nat) option" where
  "next_account_id_besides env reg besides k = mint_account_id env (account_id_taken reg besides) k"

definition account_registered_with :: "organizations_registry \<Rightarrow> string \<Rightarrow> string option" where
  "account_registered_with reg email = map_option ac_id (find (registered_with email) (all_members reg))"

definition email_reserved_for_other :: "string \<Rightarrow> string \<Rightarrow> bool" where
  "email_reserved_for_other email acct \<longleftrightarrow> is_some_and (target_account_id ''EMAIL'' email) (\<lambda>spelled. spelled \<noteq> acct)"

definition reservation_holds :: "string \<Rightarrow> create_account_status \<Rightarrow> bool" where
  "reservation_holds email req \<longleftrightarrow>
     cs_state req = ''IN_PROGRESS'' \<and> cs_pending_email req = Some email \<and>
     \<not> is_some_and (cs_account_id req) (email_reserved_for_other email)"

definition uses_email :: "string \<Rightarrow> member_account \<Rightarrow> bool" where
  "uses_email email a \<longleftrightarrow> ac_email a = email \<and> ac_status a \<noteq> ''SUSPENDED''"

definition email_in_use_besides :: "organizations_registry \<Rightarrow> string \<Rightarrow> string \<Rightarrow> bool" where
  "email_in_use_besides reg email rid \<longleftrightarrow>
     (let mine = map_of (all_requests reg) rid
      in list_ex (uses_email email) (all_members reg) \<or>
         list_ex (\<lambda>(rid', req). rid' \<noteq> rid \<and> reservation_holds email req \<and>
           is_some_and mine (\<lambda>m. cs_requested req < cs_requested m \<or> cs_requested req = cs_requested m \<and> rid' < rid)) (all_requests reg))"

definition email_in_use :: "organizations_registry \<Rightarrow> string \<Rightarrow> bool" where
  "email_in_use reg email \<longleftrightarrow>
     list_ex (uses_email email) (all_members reg) \<or> list_ex (\<lambda>(_, req). reservation_holds email req) (all_requests reg)"

definition account_matches_target :: "organizations_registry \<Rightarrow> string \<Rightarrow> string \<Rightarrow> string \<Rightarrow> bool" where
  "account_matches_target reg kind target acct =
     (case (if kind = ''EMAIL'' then account_registered_with reg target else None) of
        Some registered \<Rightarrow> registered = acct
      | None \<Rightarrow> target_account_id kind target = Some acct)"

definition registry_insert :: "organization_state \<Rightarrow> organizations_registry \<Rightarrow> organizations_registry" where
  "registry_insert og reg = bt_insert (og_id og) og reg"

definition in_flight :: "string \<Rightarrow> organization_state \<Rightarrow> bool" where
  "in_flight acct og \<longleftrightarrow>
     list_ex (\<lambda>req. cs_state req = ''IN_PROGRESS'' \<and> reserves acct req) (map snd (og_create_account_requests og))"

definition account_is_reserved :: "organizations_registry \<Rightarrow> string \<Rightarrow> bool" where
  "account_is_reserved reg acct \<longleftrightarrow> list_ex (in_flight acct) (map snd reg)"

definition account_is_enrolled :: "organizations_registry \<Rightarrow> string \<Rightarrow> bool" where
  "account_is_enrolled reg acct \<longleftrightarrow> org_of_account acct reg \<noteq> None \<or> account_is_reserved reg acct"

definition claimed_by_other_org :: "organizations_registry \<Rightarrow> string \<Rightarrow> string \<Rightarrow> string option" where
  "claimed_by_other_org reg acct oid =
     (case org_of_account acct reg of
        Some og \<Rightarrow> if og_id og \<noteq> oid then Some (og_id og) else None
      | None \<Rightarrow> map_option og_id (find (\<lambda>og. og_id og \<noteq> oid \<and> in_flight acct og) (map snd reg)))"

text \<open>Loading a snapshot: one of the first format holds a single organization.\<close>

definition into_registry :: "organization_state option \<Rightarrow> organizations_registry \<Rightarrow> organizations_registry" where
  "into_registry single reg =
     map (\<lambda>(k, og). (k, mark_legacy_gov_cloud_mirrors og)) (case single of Some og \<Rightarrow> registry_insert og reg | None \<Rightarrow> reg)"

end
