(* ===== verification/Org_Service.thy ===== *)
theory Org_Service
  imports Org_State
begin

text \<open>
  The handlers of AWS Organizations (\<^verbatim>\<open>fakecloud-organizations/src/service\<close>) on organizations, organizational
  units, accounts, policies, trusted services, delegated administrators and tags, with the gates of
  \<^verbatim>\<open>mod.rs\<close> in front of them and the JSON of their answers. Handshakes and transfers are in
  \<open>Org_Handshakes\<close>, the dispatch in \<open>Org_Server\<close>.

  A write through \<^verbatim>\<open>org_of_account_mut\<close> or \<^verbatim>\<open>org_by_id_mut\<close> goes to the entry of the registry the
  lookup found; that an organization is filed under its own id, which the code's \<^verbatim>\<open>expect\<close> calls rely
  on, is part of the invariant of \<open>Org_Facts\<close>.
\<close>

section \<open>Errors and answers\<close>

definition organizations_not_in_use :: service_error where
  "organizations_not_in_use =
     aws_error 400 ''AWSOrganizationsNotInUseException'' ''Your account is not a member of an organization.''"

definition not_management :: service_error where
  "not_management =
     aws_error 403 ''AccessDeniedException''
       (''This operation can be called only from the organization'' @ [CHR 0x27] @ ''s management account.'')"

definition already_in_an_organization :: "string \<Rightarrow> service_error" where
  "already_in_an_organization message =
     aws_error_with_fields 400 ''HandshakeConstraintViolationException'' message [(''Reason'', ''ALREADY_IN_AN_ORGANIZATION'')]"

definition org_invalid_input :: "string \<Rightarrow> service_error" where
  "org_invalid_input msg = aws_error 400 ''InvalidInputException'' msg"

fun org_error_to_aws :: "org_error \<Rightarrow> service_error" where
  "org_error_to_aws (ParentNotFound i) =
     aws_error 400 ''ParentNotFoundException'' (''The parent with id '' @ i @ '' was not found.'')"
| "org_error_to_aws (DuplicateOrganizationalUnit n) =
     aws_error 400 ''DuplicateOrganizationalUnitException''
       (''An organizational unit named '' @ n @ '' already exists under this parent.'')"
| "org_error_to_aws (OrganizationalUnitNotFound i) =
     aws_error 400 ''OrganizationalUnitNotFoundException'' (''The organizational unit with id '' @ i @ '' was not found.'')"
| "org_error_to_aws (OrganizationalUnitNotEmpty i) =
     aws_error 400 ''OrganizationalUnitNotEmptyException''
       (''The organizational unit '' @ i @ '' still contains accounts or child OUs.'')"
| "org_error_to_aws (AccountNotFound i) =
     aws_error 400 ''AccountNotFoundException'' (''The account with id '' @ i @ '' was not found.'')"
| "org_error_to_aws (SourceParentNotFound i) =
     aws_error 400 ''SourceParentNotFoundException'' (''The source parent '' @ i @ '' does not contain this account.'')"
| "org_error_to_aws (DestinationParentNotFound i) =
     aws_error 400 ''DestinationParentNotFoundException'' (''The destination parent '' @ i @ '' does not exist.'')"
| "org_error_to_aws (PolicyNotFound i) =
     aws_error 400 ''PolicyNotFoundException'' (''The policy with id '' @ i @ '' was not found.'')"
| "org_error_to_aws (DuplicatePolicy n) =
     aws_error 400 ''DuplicatePolicyException'' (''A policy named '' @ n @ '' already exists for this policy type.'')"
| "org_error_to_aws MalformedPolicyDocument =
     aws_error 400 ''MalformedPolicyDocumentException'' ''The policy document is not valid JSON.''"
| "org_error_to_aws (PolicyTypeNotSupported t) =
     aws_error 400 ''PolicyTypeNotSupportedException'' (''fakecloud only supports SERVICE_CONTROL_POLICY; got '' @ t @ ''.'')"
| "org_error_to_aws (PolicyChangesNotAllowed i) =
     aws_error 400 ''PolicyChangesNotAllowedException''
       (''Policy '' @ i @ '' is AWS-managed and cannot be modified or deleted.'')"
| "org_error_to_aws (PolicyInUse i) =
     aws_error 400 ''PolicyInUseException''
       (''Policy '' @ i @ '' is attached to one or more targets; detach before deleting.'')"
| "org_error_to_aws (PolicyNotAttached i) =
     aws_error 400 ''PolicyNotAttachedException'' (''Policy '' @ i @ '' is not attached to this target.'')"
| "org_error_to_aws (TargetNotFound i) =
     aws_error 400 ''TargetNotFoundException'' (''The target with id '' @ i @ '' was not found.'')"
| "org_error_to_aws (AccountChangesNotAllowed i) =
     aws_error 403 ''ConstraintViolationException''
       (''Account '' @ i @ '' cannot be removed or closed (management account).'')"
| "org_error_to_aws (CreateAccountStatusNotFound i) =
     aws_error 400 ''CreateAccountStatusNotFoundException'' (''Create account status with id '' @ i @ '' was not found.'')"
| "org_error_to_aws (HandshakeNotFound i) =
     aws_error 400 ''HandshakeNotFoundException'' (''The handshake with id '' @ i @ '' was not found.'')"
| "org_error_to_aws (HandshakeAlreadyResolved s) =
     aws_error 400 ''InvalidHandshakeTransitionException'' (''Handshake is already in terminal state '' @ s @ ''.'')"
| "org_error_to_aws (InvalidHandshakeState s) =
     aws_error 400 ''InvalidHandshakeTransitionException'' (''State '' @ s @ '' is not a valid terminal handshake state.'')"
| "org_error_to_aws (InvalidHandshakeParty a) =
     aws_error 400 ''AccessDeniedException''
       (''Account '' @ a @ '' is not party to this handshake'' @ [CHR 0x27] @ ''s transition.'')"
| "org_error_to_aws (DuplicateHandshakeForAccount a) =
     aws_error 400 ''DuplicateHandshakeException'' (''An OPEN handshake already exists for account '' @ a @ ''.'')"
| "org_error_to_aws (AccountAlreadyMember a) =
     already_in_an_organization (''Account '' @ a @ '' is already a member of this organization.'')"
| "org_error_to_aws (AccountInAnotherOrganization a) =
     already_in_an_organization (''Account '' @ a @ '' is already a member of an organization.'')"
| "org_error_to_aws (AWSServiceAccessNotEnabled s) =
     aws_error 400 ''AWSOrganizationsNotInUseException'' (''AWS service access for '' @ s @ '' is not enabled.'')"
| "org_error_to_aws (DelegatedAdministratorAlreadyRegistered i) =
     aws_error 400 ''AccountAlreadyRegisteredException''
       (''Account '' @ i @ '' is already registered as a delegated administrator.'')"
| "org_error_to_aws (DelegatedAdministratorNotRegistered i) =
     aws_error 400 ''AccountNotRegisteredException''
       (''Account '' @ i @ '' is not registered as a delegated administrator.'')"

definition org_body :: "org_env \<Rightarrow> aws_request \<Rightarrow> json" where
  "org_body env req = unwrap_or (oe_parse env (req_body req)) JNull"

definition org_str :: "json \<Rightarrow> string \<Rightarrow> string option" where
  "org_str body key = Option.bind (json_get body key) as_str"

definition org_required_str :: "json \<Rightarrow> string \<Rightarrow> service_error + string" where
  "org_required_str body key = ok_or (org_str body key) (org_invalid_input (''Missing required parameter: '' @ key))"

definition parse_tags :: "json option \<Rightarrow> (string \<times> string) list" where
  "parse_tags v =
     List.map_filter (\<lambda>t.
       Option.bind (org_str t ''Key'') (\<lambda>k. map_option (Pair k) (org_str t ''Value'')))
       (unwrap_or (Option.bind v as_array) [])"

definition json_secs :: "org_env \<Rightarrow> int \<Rightarrow> json" where
  "json_secs env t = JNum (FloatNum (oe_f64 env (timestamp_secs t)))"

definition policy_summary :: "org_policy \<Rightarrow> json" where
  "policy_summary p =
     JObj [(''Id'', JStr (po_id p)), (''Arn'', JStr (po_arn p)), (''Name'', JStr (po_name p)),
           (''Description'', JStr (po_description p)), (''Type'', JStr (po_type p)), (''AwsManaged'', JBool (po_aws_managed p))]"

definition policy_with_content :: "org_policy \<Rightarrow> json" where
  "policy_with_content p = JObj [(''PolicySummary'', policy_summary p), (''Content'', JStr (po_content p))]"

definition target_arn :: "organization_state \<Rightarrow> string \<Rightarrow> string \<Rightarrow> string" where
  "target_arn og target ttype =
     (if ttype = ''ROOT'' then og_root_arn og
      else if ttype = ''ORGANIZATIONAL_UNIT'' then unwrap_or (map_option ou_arn (map_of (og_ous og) target)) []
      else if ttype = ''ACCOUNT'' then unwrap_or (map_option ac_arn (map_of (og_accounts og) target)) []
      else [])"

definition ou_payload :: "organizational_unit \<Rightarrow> json" where
  "ou_payload ou = JObj [(''Id'', JStr (ou_id ou)), (''Arn'', JStr (ou_arn ou)), (''Name'', JStr (ou_name ou))]"

definition account_payload :: "org_env \<Rightarrow> member_account \<Rightarrow> json" where
  "account_payload env a =
     JObj [(''Id'', JStr (ac_id a)), (''Arn'', JStr (ac_arn a)), (''Email'', JStr (ac_email a)), (''Name'', JStr (ac_name a)),
           (''Status'', JStr (ac_status a)), (''JoinedMethod'', JStr (ac_joined_method a)),
           (''JoinedTimestamp'', json_secs env (ac_joined_timestamp a))]"

text \<open>\<^verbatim>\<open>obj[key] = v\<close> where the value is there.\<close>

definition opt_entry :: "string \<Rightarrow> json option \<Rightarrow> (string \<times> json) list" where
  "opt_entry key v = (case v of None \<Rightarrow> [] | Some x \<Rightarrow> [(key, x)])"

definition create_account_status_payload :: "org_env \<Rightarrow> create_account_status \<Rightarrow> json" where
  "create_account_status_payload env s =
     JObj ([(''Id'', JStr (cs_id s)), (''AccountName'', JStr (cs_account_name s)), (''State'', JStr (cs_state s)),
            (''RequestedTimestamp'', json_secs env (cs_requested s))] @
           opt_entry ''AccountId'' (map_option JStr (cs_account_id s)) @
           opt_entry ''CompletedTimestamp'' (map_option (json_secs env) (cs_completed s)) @
           opt_entry ''FailureReason'' (map_option JStr (cs_failure_reason s)) @
           opt_entry ''GovCloudAccountId'' (map_option JStr (cs_gov_cloud_account_id s)))"

definition organization_payload :: "organization_state \<Rightarrow> json" where
  "organization_payload og =
     JObj [(''Id'', JStr (og_id og)), (''Arn'', JStr (og_arn og)), (''FeatureSet'', JStr (og_feature_set og)),
           (''MasterAccountArn'', JStr (og_management_account_arn og)), (''MasterAccountId'', JStr (og_management_account_id og)),
           (''MasterAccountEmail'', JStr (og_management_account_email og)),
           (''AvailablePolicyTypes'', JArr [JObj [(''Type'', JStr ''SERVICE_CONTROL_POLICY''), (''Status'', JStr ''ENABLED'')]])]"

definition is_known_policy_type :: "string \<Rightarrow> bool" where
  "is_known_policy_type t \<longleftrightarrow>
     t \<in> set [scp_type, ''TAG_POLICY'', ''BACKUP_POLICY'', ''AISERVICES_OPT_OUT_POLICY'', ''RESOURCE_CONTROL_POLICY'']"

definition is_valid_policy_type :: "string \<Rightarrow> bool" where
  "is_valid_policy_type t \<longleftrightarrow>
     t \<in> set [''SERVICE_CONTROL_POLICY'', ''RESOURCE_CONTROL_POLICY'', ''TAG_POLICY'', ''BACKUP_POLICY'',
       ''AISERVICES_OPT_OUT_POLICY'', ''CHATBOT_POLICY'', ''DECLARATIVE_POLICY_EC2'', ''SECURITYHUB_POLICY'',
       ''INSPECTOR_POLICY'', ''UPGRADE_ROLLOUT_POLICY'', ''BEDROCK_POLICY'', ''S3_POLICY'',
       ''NETWORK_SECURITY_DIRECTOR_POLICY'', ''GUARDDUTY_POLICY'']"

definition invalid_policy_filter :: "string \<Rightarrow> service_error" where
  "invalid_policy_filter f = org_invalid_input (''You specified an invalid value for the Filter parameter: '' @ f)"

definition check_create_policy_type :: "string \<Rightarrow> service_error + unit" where
  "check_create_policy_type t =
     (if \<not> is_valid_policy_type t then Inl (org_invalid_input (''You specified an invalid value for the Type parameter: '' @ t))
      else if \<not> is_known_policy_type t
      then Inl (aws_error 400 ''PolicyTypeNotAvailableForOrganizationException''
                 (''The '' @ t @ '' policy type is not available for this organization.''))
      else Inr ())"

section \<open>Pages\<close>

text \<open>\<^verbatim>\<open>paginate_checked\<close> of \<^verbatim>\<open>fakecloud-core/src/pagination.rs\<close>; \<open>None\<close> is the invalid token.\<close>

definition paginate_checked :: "'a list \<Rightarrow> string option \<Rightarrow> nat \<Rightarrow> ('a list \<times> string option) option" where
  "paginate_checked items token mx =
     map_option (\<lambda>offset.
       if mx = 0 then ([], None)
       else
         (let page = drop offset items
          in (take mx page, if mx < length page then Some (show_nat (offset + mx)) else None)))
       (case token of None \<Rightarrow> Some 0 | Some t \<Rightarrow> parse_u64 t)"

definition parse_list_pagination :: "json \<Rightarrow> service_error + nat \<times> string option" where
  "parse_list_pagination body =
     and_then
       (case json_get body ''MaxResults'' of
          None \<Rightarrow> Inr 20
        | Some JNull \<Rightarrow> Inr 20
        | Some v \<Rightarrow>
            and_then (ok_or (as_u64 v) (org_invalid_input ''MaxResults must be a positive integer between 1 and 20.''))
              (\<lambda>n. if 1 \<le> n \<and> n \<le> 20 then Inr n else Inl (org_invalid_input ''MaxResults must be between 1 and 20.''))) (\<lambda>mx.
     and_then
       (case json_get body ''NextToken'' of
          None \<Rightarrow> Inr None
        | Some JNull \<Rightarrow> Inr None
        | Some v \<Rightarrow>
            and_then (ok_or (as_str v) (org_invalid_input ''NextToken must be a string.''))
              (\<lambda>s. if parse_u64 s = None then Inl (org_invalid_input ''NextToken is not a valid pagination token.'') else Inr (Some s)))
       (\<lambda>token. Inr (mx, token)))"

definition page_reply :: "string \<Rightarrow> json list \<Rightarrow> nat \<times> string option \<Rightarrow> service_error + aws_response" where
  "page_reply key items paging =
     (case paginate_checked items (snd paging) (fst paging) of
        None \<Rightarrow> Inl (org_invalid_input ''Invalid NextToken'')
      | Some (page, token) \<Rightarrow> Inr (ok_json (JObj ((key, JArr page) # opt_entry ''NextToken'' (map_option JStr token)))))"

section \<open>Gates\<close>

definition require_member :: "string \<Rightarrow> organizations_registry \<Rightarrow> service_error + organization_state" where
  "require_member acct reg = ok_or (org_of_account acct reg) organizations_not_in_use"

definition management_or_delegated_org :: "string \<Rightarrow> organizations_registry \<Rightarrow> service_error + organization_state" where
  "management_or_delegated_org acct reg =
     and_then (require_member acct reg) (\<lambda>og.
       if \<not> is_management og acct \<and> \<not> is_delegated_administrator og acct then Inl not_management else Inr og)"

definition set_org :: "string \<Rightarrow> organization_state \<Rightarrow> organizations_registry \<Rightarrow> organizations_registry" where
  "set_org k og reg = bt_modify k (\<lambda>_. og) reg"

definition management_entry :: "string \<Rightarrow> organizations_registry \<Rightarrow> service_error + string \<times> organization_state" where
  "management_entry acct reg =
     and_then (ok_or (find_org (has_member acct) reg) organizations_not_in_use) (\<lambda>e.
       if \<not> is_management (snd e) acct then Inl not_management else Inr e)"

text \<open>\<^verbatim>\<open>management_org_mut\<close> and what the handler does to the organization it returns.\<close>

definition management_org_mut ::
  "string \<Rightarrow> (organization_state, 'a) handler \<Rightarrow> (organizations_registry, 'a) handler" where
  "management_org_mut acct f reg =
     (case management_entry acct reg of
        Inl e \<Rightarrow> (Inl e, reg)
      | Inr (k, og) \<Rightarrow> (let (r, og') = f og in (r, set_org k og' reg)))"

text \<open>\<^verbatim>\<open>map_err(org_error_to_aws)?\<close>, a write that cannot fail, and a required parameter.\<close>

definition org_lift :: "'a org_op \<Rightarrow> (organization_state, 'a) handler" where
  "org_lift f og =
     (case f og of (Inl e, og') \<Rightarrow> (Inl (org_error_to_aws e), og') | (Inr x, og') \<Rightarrow> (Inr x, og'))"

definition h_update :: "('s \<Rightarrow> 's) \<Rightarrow> ('s, unit) handler" where
  "h_update g s = (Inr (), g s)"

definition with_str :: "json \<Rightarrow> string \<Rightarrow> (string \<Rightarrow> ('s, 'a) handler) \<Rightarrow> ('s, 'a) handler" where
  "with_str body key f = h_bind (h_lift (org_required_str body key)) f"

definition h_done :: "json \<Rightarrow> ('s, aws_response) handler" where
  "h_done v = h_ok (ok_json v)"

text \<open>A handler that reads the caller's organization.\<close>

definition member_org ::
  "string \<Rightarrow> (organization_state \<Rightarrow> service_error + 'a) \<Rightarrow> (organizations_registry, 'a) handler" where
  "member_org acct f = h_read (\<lambda>reg. and_then (require_member acct reg) f)"

definition delegated_org ::
  "string \<Rightarrow> (organization_state \<Rightarrow> service_error + 'a) \<Rightarrow> (organizations_registry, 'a) handler" where
  "delegated_org acct f = h_read (\<lambda>reg. and_then (management_or_delegated_org acct reg) f)"

definition tag_created :: "json \<Rightarrow> string \<Rightarrow> organization_state \<Rightarrow> organization_state" where
  "tag_created body res og =
     (let tags = parse_tags (json_get body ''Tags'') in if tags \<noteq> [] then set_resource_tags res tags og else og)"

section \<open>Organizations\<close>

definition create_organization :: "org_env \<Rightarrow> aws_request \<Rightarrow> (organizations_registry, aws_response) handler" where
  "create_organization env req reg =
     (let feature_set = unwrap_or (org_str (org_body env req) ''FeatureSet'') ''ALL'';
          management_email = synthetic_email (req_account_id req);
          og = bootstrap_in env (req_region req) (req_account_id req);
          og' = (if feature_set = ''CONSOLIDATED_BILLING''
                 then og\<lparr>og_feature_set := ''CONSOLIDATED_BILLING'', og_enabled_policy_types := []\<rparr> else og)
      in if feature_set \<noteq> ''ALL'' \<and> feature_set \<noteq> ''CONSOLIDATED_BILLING''
         then h_err (org_invalid_input (''FeatureSet must be one of [ALL, CONSOLIDATED_BILLING], got '' @ feature_set)) reg
         else if account_is_enrolled reg (req_account_id req)
         then h_err (aws_error 400 ''AlreadyInOrganizationException''
                ''The AWS account is already a member of an organization.'') reg
         else if email_in_use reg management_email
         then h_err (aws_error 400 ''ConstraintViolationException''
                (''The email address '' @ management_email @ '' is already associated with another account.'')) reg
         else (Inr (ok_json (JObj [(''Organization'', organization_payload og')])), registry_insert og' reg))"

definition describe_organization :: "aws_request \<Rightarrow> (organizations_registry, aws_response) handler" where
  "describe_organization req =
     member_org (req_account_id req) (\<lambda>og. Inr (ok_json (JObj [(''Organization'', organization_payload og)])))"

definition delete_organization :: "aws_request \<Rightarrow> (organizations_registry, aws_response) handler" where
  "delete_organization req reg =
     (case org_of_account (req_account_id req) reg of
        None \<Rightarrow> h_err organizations_not_in_use reg
      | Some og \<Rightarrow>
          if \<not> is_management og (req_account_id req)
          then h_err (aws_error 403 ''AccessDeniedException'' ''Only the management account can delete the organization.'') reg
          else if 0 < length (filter (\<lambda>a. a \<noteq> og_management_account_id og) (map fst (og_accounts og)))
          then h_err (aws_error 400 ''OrganizationNotEmptyException''
                 ''The organization still has member accounts. Remove them first.'') reg
          else (Inr (ok_json JNull), bt_remove (og_id og) reg))"

section \<open>Roots, parents and children\<close>

definition enabled_policy_types_json :: "organization_state \<Rightarrow> json" where
  "enabled_policy_types_json og =
     JArr (map (\<lambda>(t, status). JObj [(''Type'', JStr t), (''Status'', JStr status)])
       (filter (\<lambda>(t, status). status = ''ENABLED'') (list_policy_type_statuses og)))"

definition root_json :: "organization_state \<Rightarrow> json" where
  "root_json og =
     JObj [(''Id'', JStr (og_root_id og)), (''Arn'', JStr (og_root_arn og)), (''Name'', JStr (og_root_name og)),
           (''PolicyTypes'', enabled_policy_types_json og)]"

definition list_roots :: "aws_request \<Rightarrow> (organizations_registry, aws_response) handler" where
  "list_roots req = member_org (req_account_id req) (\<lambda>og. Inr (ok_json (JObj [(''Roots'', JArr [root_json og])])))"

definition list_parents :: "org_env \<Rightarrow> aws_request \<Rightarrow> (organizations_registry, aws_response) handler" where
  "list_parents env req =
     with_str (org_body env req) ''ChildId'' (\<lambda>child. member_org (req_account_id req) (\<lambda>og.
       Inr (ok_json (JObj [(''Parents'', JArr (case parent_of og child of
         Some (i, kind) \<Rightarrow> [JObj [(''Id'', JStr i), (''Type'', JStr kind)]] | None \<Rightarrow> []))]))))"

definition list_children :: "org_env \<Rightarrow> aws_request \<Rightarrow> (organizations_registry, aws_response) handler" where
  "list_children env req =
     (let body = org_body env req
      in with_str body ''ParentId'' (\<lambda>parent. with_str body ''ChildType'' (\<lambda>child_type.
           member_org (req_account_id req) (\<lambda>og.
             Inr (ok_json (JObj [(''Children'', JArr (map (\<lambda>i. JObj [(''Id'', JStr i), (''Type'', JStr child_type)])
               (org_list_children og parent child_type)))]))))))"

section \<open>Organizational units\<close>

definition create_organizational_unit :: "org_env \<Rightarrow> aws_request \<Rightarrow> (organizations_registry, aws_response) handler" where
  "create_organizational_unit env req =
     (let body = org_body env req
      in with_str body ''ParentId'' (\<lambda>parent. with_str body ''Name'' (\<lambda>name.
           management_org_mut (req_account_id req)
             (h_bind (org_lift (org_create_ou env parent name)) (\<lambda>ou.
              h_bind (h_update (tag_created body (ou_id ou))) (\<lambda>_.
              h_done (JObj [(''OrganizationalUnit'', ou_payload ou)])))))))"

definition update_organizational_unit :: "org_env \<Rightarrow> aws_request \<Rightarrow> (organizations_registry, aws_response) handler" where
  "update_organizational_unit env req =
     (let body = org_body env req
      in with_str body ''OrganizationalUnitId'' (\<lambda>oid. with_str body ''Name'' (\<lambda>new_name.
           management_org_mut (req_account_id req)
             (h_bind (org_lift (org_rename_ou oid new_name)) (\<lambda>ou.
              h_done (JObj [(''OrganizationalUnit'', ou_payload ou)]))))))"

definition delete_organizational_unit :: "org_env \<Rightarrow> aws_request \<Rightarrow> (organizations_registry, aws_response) handler" where
  "delete_organizational_unit env req =
     with_str (org_body env req) ''OrganizationalUnitId'' (\<lambda>oid.
       management_org_mut (req_account_id req) (h_bind (org_lift (org_delete_ou oid)) (\<lambda>_. h_done JNull)))"

definition describe_organizational_unit :: "org_env \<Rightarrow> aws_request \<Rightarrow> (organizations_registry, aws_response) handler" where
  "describe_organizational_unit env req =
     with_str (org_body env req) ''OrganizationalUnitId'' (\<lambda>oid. member_org (req_account_id req) (\<lambda>og.
       and_then (ok_or (map_of (og_ous og) oid) (org_error_to_aws (OrganizationalUnitNotFound oid))) (\<lambda>ou.
         Inr (ok_json (JObj [(''OrganizationalUnit'', ou_payload ou)])))))"

definition check_parent :: "organization_state \<Rightarrow> string \<Rightarrow> service_error + unit" where
  "check_parent og parent =
     (if parent \<noteq> og_root_id og \<and> map_of (og_ous og) parent = None then Inl (org_error_to_aws (ParentNotFound parent)) else Inr ())"

definition list_organizational_units_for_parent :: "org_env \<Rightarrow> aws_request \<Rightarrow> (organizations_registry, aws_response) handler" where
  "list_organizational_units_for_parent env req =
     with_str (org_body env req) ''ParentId'' (\<lambda>parent. member_org (req_account_id req) (\<lambda>og.
       and_then (check_parent og parent) (\<lambda>_.
         Inr (ok_json (JObj [(''OrganizationalUnits'',
           JArr (map ou_payload (filter (\<lambda>ou. ou_parent_id ou = parent) (map snd (og_ous og)))))])))))"

section \<open>Accounts\<close>

definition list_accounts :: "org_env \<Rightarrow> aws_request \<Rightarrow> (organizations_registry, aws_response) handler" where
  "list_accounts env req =
     member_org (req_account_id req) (\<lambda>og.
       Inr (ok_json (JObj [(''Accounts'', JArr (map (account_payload env) (map snd (og_accounts og))))])))"

definition list_accounts_for_parent :: "org_env \<Rightarrow> aws_request \<Rightarrow> (organizations_registry, aws_response) handler" where
  "list_accounts_for_parent env req =
     with_str (org_body env req) ''ParentId'' (\<lambda>parent. member_org (req_account_id req) (\<lambda>og.
       and_then (check_parent og parent) (\<lambda>_.
         Inr (ok_json (JObj [(''Accounts'',
           JArr (map (account_payload env) (filter (\<lambda>a. ac_parent_id a = parent) (map snd (og_accounts og)))))])))))"

definition describe_account :: "org_env \<Rightarrow> aws_request \<Rightarrow> (organizations_registry, aws_response) handler" where
  "describe_account env req =
     with_str (org_body env req) ''AccountId'' (\<lambda>acct. member_org (req_account_id req) (\<lambda>og.
       and_then (ok_or (map_of (og_accounts og) acct) (org_error_to_aws (AccountNotFound acct))) (\<lambda>a.
         Inr (ok_json (JObj [(''Account'', account_payload env a)])))))"

definition move_account :: "org_env \<Rightarrow> aws_request \<Rightarrow> (organizations_registry, aws_response) handler" where
  "move_account env req =
     (let body = org_body env req
      in with_str body ''AccountId'' (\<lambda>acct. with_str body ''SourceParentId'' (\<lambda>source. with_str body ''DestinationParentId'' (\<lambda>dest.
           management_org_mut (req_account_id req) (h_bind (org_lift (org_move_account acct source dest)) (\<lambda>_. h_done JNull))))))"

text \<open>
  What \<^verbatim>\<open>create_account\<close> and \<^verbatim>\<open>create_gov_cloud_account\<close> do once the account ids are minted. The id of the
  request is returned beside the answer: it is what the completion task is spawned with.
\<close>

definition start_creation ::
  "org_env \<Rightarrow> json \<Rightarrow> string \<Rightarrow> string \<Rightarrow> string \<Rightarrow> string option \<Rightarrow> organization_state \<Rightarrow> (aws_response \<times> string) \<times> organization_state" where
  "start_creation env body email name acct gov_id og =
     (let (status, og1) = begin_create_account env email name acct gov_id og;
          og2 = (case cs_account_id status of Some a \<Rightarrow> tag_created body a og1 | None \<Rightarrow> og1)
      in ((ok_json (JObj [(''CreateAccountStatus'', create_account_status_payload env status)]), cs_id status), og2))"

type_synonym creation = "((service_error + aws_response \<times> string) \<times> organizations_registry) option"

definition create_account :: "org_env \<Rightarrow> aws_request \<Rightarrow> organizations_registry \<Rightarrow> creation" where
  "create_account env req reg =
     (let body = org_body env req
      in case and_then (org_required_str body ''Email'') (\<lambda>email.
              and_then (org_required_str body ''AccountName'') (\<lambda>name.
              and_then (management_entry (req_account_id req) reg) (\<lambda>e. Inr (email, name, e)))) of
           Inl err \<Rightarrow> Some (Inl err, reg)
         | Inr (email, name, k, og) \<Rightarrow>
             Option.bind (next_account_id_besides env reg [] 0) (\<lambda>(acct, _).
               let (answer, og') = start_creation env body email name acct None og
               in Some (Inr answer, set_org k og' reg)))"

definition create_gov_cloud_account :: "org_env \<Rightarrow> aws_request \<Rightarrow> organizations_registry \<Rightarrow> creation" where
  "create_gov_cloud_account env req reg =
     (let body = org_body env req
      in case and_then (org_required_str body ''Email'') (\<lambda>email.
              and_then (org_required_str body ''AccountName'') (\<lambda>name.
              and_then (management_entry (req_account_id req) reg) (\<lambda>e.
                if org_partition (snd e) \<noteq> ''aws''
                then Inl (aws_error 400 ''UnsupportedAPIEndpointException''
                       (''This action isn'' @ [CHR 0x27] @ ''t available in the current AWS Region.''))
                else Inr (email, name, e)))) of
           Inl err \<Rightarrow> Some (Inl err, reg)
         | Inr (email, name, k, og) \<Rightarrow>
             Option.bind (next_account_id_besides env reg [] 0) (\<lambda>(acct, n).
             Option.bind (next_account_id_besides env reg [acct] n) (\<lambda>(gov, _).
               let (answer, og') = start_creation env body email name acct (Some gov) og
               in Some (Inr answer, set_org k og' reg))))"

definition create_status_of :: "string \<Rightarrow> organizations_registry \<Rightarrow> create_account_status option" where
  "create_status_of rid reg =
     Option.bind (org_of_create_account_request rid reg) (\<lambda>(_, og). map_of (og_create_account_requests og) rid)"

text \<open>
  The body of the task \<^verbatim>\<open>spawn_create_account_completion\<close> starts: whether the state has to be saved, and
  the registry it leaves.
\<close>

definition email_taken :: "string \<Rightarrow> organizations_registry \<Rightarrow> bool" where
  "email_taken rid reg =
     is_some_and (Option.bind (create_status_of rid reg) cs_pending_email) (\<lambda>email.
       is_some_and (Option.bind (create_status_of rid reg) cs_account_id) (email_reserved_for_other email) \<or>
       email_in_use_besides reg email rid)"

definition completion_tick :: "org_env \<Rightarrow> string \<Rightarrow> organizations_registry \<Rightarrow> bool \<times> organizations_registry" where
  "completion_tick env rid reg =
     (case org_of_create_account_request rid reg of
        None \<Rightarrow> (False, reg)
      | Some (k, og) \<Rightarrow>
          if email_taken rid reg
          then (True, set_org k (snd (fail_create_account env rid ''EMAIL_ALREADY_EXISTS'' og)) reg)
          else (True, set_org k (snd (complete_create_account env rid og)) reg))"

definition describe_create_account_status :: "org_env \<Rightarrow> aws_request \<Rightarrow> (organizations_registry, aws_response) handler" where
  "describe_create_account_status env req =
     with_str (org_body env req) ''CreateAccountRequestId'' (\<lambda>rid. member_org (req_account_id req) (\<lambda>og.
       and_then (ok_or (map_of (og_create_account_requests og) rid)
           (aws_error 400 ''CreateAccountStatusNotFoundException'' (''Create account status with id '' @ rid @ '' was not found.''))) (\<lambda>status.
         Inr (ok_json (JObj [(''CreateAccountStatus'', create_account_status_payload env status)])))))"

definition str_items :: "json option \<Rightarrow> string list" where
  "str_items v = List.map_filter as_str (unwrap_or (Option.bind v as_array) [])"

definition list_create_account_status :: "org_env \<Rightarrow> aws_request \<Rightarrow> (organizations_registry, aws_response) handler" where
  "list_create_account_status env req =
     (let body = org_body env req; states = str_items (json_get body ''States'')
      in h_bind (h_lift (parse_list_pagination body)) (\<lambda>paging. member_org (req_account_id req) (\<lambda>og.
           page_reply ''CreateAccountStatuses''
             (map (create_account_status_payload env)
               (filter (\<lambda>s. states = [] \<or> cs_state s \<in> set states) (map snd (og_create_account_requests og)))) paging)))"

definition close_account :: "org_env \<Rightarrow> aws_request \<Rightarrow> (organizations_registry, aws_response) handler" where
  "close_account env req =
     with_str (org_body env req) ''AccountId'' (\<lambda>target.
       management_org_mut (req_account_id req) (h_bind (org_lift (org_close_account target)) (\<lambda>_. h_done (JObj []))))"

definition remove_account_from_organization :: "org_env \<Rightarrow> aws_request \<Rightarrow> (organizations_registry, aws_response) handler" where
  "remove_account_from_organization env req =
     with_str (org_body env req) ''AccountId'' (\<lambda>target.
       management_org_mut (req_account_id req) (h_bind (org_lift (org_remove_account target)) (\<lambda>_. h_done (JObj []))))"

definition leave_organization :: "aws_request \<Rightarrow> (organizations_registry, aws_response) handler" where
  "leave_organization req reg =
     (case find_org (has_member (req_account_id req)) reg of
        None \<Rightarrow> h_err organizations_not_in_use reg
      | Some (k, og) \<Rightarrow>
          if is_management og (req_account_id req)
          then h_err (aws_error 400 ''MasterCannotLeaveOrganizationException''
                 ''The management account in an organization cannot be removed; delete the organization instead.'') reg
          else
            (let (r, og') = h_bind (org_lift (org_remove_account (req_account_id req))) (\<lambda>_. h_done (JObj [])) og
             in (r, set_org k og' reg)))"

section \<open>Policies\<close>

definition create_policy :: "org_env \<Rightarrow> aws_request \<Rightarrow> (organizations_registry, aws_response) handler" where
  "create_policy env req =
     (let body = org_body env req; description = unwrap_or (org_str body ''Description'') []
      in with_str body ''Name'' (\<lambda>name. with_str body ''Type'' (\<lambda>ptype. with_str body ''Content'' (\<lambda>content.
           h_bind (h_lift (check_create_policy_type ptype)) (\<lambda>_.
           management_org_mut (req_account_id req)
             (h_bind (org_lift (org_create_policy env name description content ptype)) (\<lambda>p.
              h_bind (h_update (tag_created body (po_id p))) (\<lambda>_.
              h_done (JObj [(''Policy'', policy_with_content p)]))))))))) "

definition update_policy :: "org_env \<Rightarrow> aws_request \<Rightarrow> (organizations_registry, aws_response) handler" where
  "update_policy env req =
     (let body = org_body env req
      in with_str body ''PolicyId'' (\<lambda>pid. management_org_mut (req_account_id req)
           (h_bind (org_lift (org_update_policy env pid (org_str body ''Name'') (org_str body ''Description'') (org_str body ''Content''))) (\<lambda>p.
            h_done (JObj [(''Policy'', policy_with_content p)])))))"

definition delete_policy :: "org_env \<Rightarrow> aws_request \<Rightarrow> (organizations_registry, aws_response) handler" where
  "delete_policy env req =
     with_str (org_body env req) ''PolicyId'' (\<lambda>pid.
       management_org_mut (req_account_id req) (h_bind (org_lift (org_delete_policy pid)) (\<lambda>_. h_done JNull)))"

definition describe_policy :: "org_env \<Rightarrow> aws_request \<Rightarrow> (organizations_registry, aws_response) handler" where
  "describe_policy env req =
     with_str (org_body env req) ''PolicyId'' (\<lambda>pid. member_org (req_account_id req) (\<lambda>og.
       and_then (ok_or (map_of (og_policies og) pid) (org_error_to_aws (PolicyNotFound pid))) (\<lambda>p.
         Inr (ok_json (JObj [(''Policy'', policy_with_content p)])))))"

definition policy_filter :: "string \<Rightarrow> service_error + unit" where
  "policy_filter f = (if is_valid_policy_type f then Inr () else Inl (invalid_policy_filter f))"

definition policy_list :: "org_policy list \<Rightarrow> aws_response" where
  "policy_list ps = ok_json (JObj [(''Policies'', JArr (map policy_summary (sort_key po_name ps)))])"

definition list_policies :: "org_env \<Rightarrow> aws_request \<Rightarrow> (organizations_registry, aws_response) handler" where
  "list_policies env req =
     with_str (org_body env req) ''Filter'' (\<lambda>f. h_bind (h_lift (policy_filter f)) (\<lambda>_. member_org (req_account_id req) (\<lambda>og.
       Inr (policy_list (filter (\<lambda>p. po_type p = f) (map snd (og_policies og)))))))"

definition attach_policy :: "org_env \<Rightarrow> aws_request \<Rightarrow> (organizations_registry, aws_response) handler" where
  "attach_policy env req =
     (let body = org_body env req
      in with_str body ''PolicyId'' (\<lambda>pid. with_str body ''TargetId'' (\<lambda>target.
           management_org_mut (req_account_id req) (h_bind (org_lift (org_attach_policy pid target)) (\<lambda>_. h_done JNull)))))"

definition detach_policy :: "org_env \<Rightarrow> aws_request \<Rightarrow> (organizations_registry, aws_response) handler" where
  "detach_policy env req =
     (let body = org_body env req
      in with_str body ''PolicyId'' (\<lambda>pid. with_str body ''TargetId'' (\<lambda>target.
           management_org_mut (req_account_id req) (h_bind (org_lift (org_detach_policy pid target)) (\<lambda>_. h_done JNull)))))"

definition list_policies_for_target :: "org_env \<Rightarrow> aws_request \<Rightarrow> (organizations_registry, aws_response) handler" where
  "list_policies_for_target env req =
     (let body = org_body env req
      in with_str body ''TargetId'' (\<lambda>target. with_str body ''Filter'' (\<lambda>f. h_bind (h_lift (policy_filter f)) (\<lambda>_.
           member_org (req_account_id req) (\<lambda>og.
             case policies_for_target env og target of
               Inl e \<Rightarrow> Inl (org_error_to_aws e)
             | Inr ps \<Rightarrow> Inr (policy_list ps))))))"

text \<open>\<open>None\<close> is the panic of \<^verbatim>\<open>targets_for_policy\<close>.\<close>

definition target_json :: "organization_state \<Rightarrow> string \<times> string \<times> string \<Rightarrow> json" where
  "target_json og t =
     (case t of (i, name, ttype) \<Rightarrow>
        JObj [(''TargetId'', JStr i), (''Name'', JStr name), (''Type'', JStr ttype), (''Arn'', JStr (target_arn og i ttype))])"

definition list_targets_for_policy :: "org_env \<Rightarrow> aws_request \<Rightarrow> organizations_registry \<Rightarrow> (service_error + aws_response) option" where
  "list_targets_for_policy env req reg =
     (case and_then (org_required_str (org_body env req) ''PolicyId'') (\<lambda>pid.
           and_then (require_member (req_account_id req) reg) (\<lambda>og. Inr (pid, og))) of
        Inl e \<Rightarrow> Some (Inl e)
      | Inr (pid, og) \<Rightarrow>
          map_option (\<lambda>r. case r of
              Inl e \<Rightarrow> Inl (org_error_to_aws e)
            | Inr targets \<Rightarrow> Inr (ok_json (JObj [(''Targets'', JArr (map (target_json og) targets))])))
            (targets_for_policy og pid))"

definition enable_policy_type :: "org_env \<Rightarrow> aws_request \<Rightarrow> (organizations_registry, aws_response) handler" where
  "enable_policy_type env req =
     with_str (org_body env req) ''PolicyType'' (\<lambda>t.
       if \<not> is_valid_policy_type t
       then h_err (org_invalid_input (''You specified an invalid value for the PolicyType parameter: '' @ t))
       else management_org_mut (req_account_id req)
         (h_bind (h_update (org_enable_policy_type t)) (\<lambda>_. h_read (\<lambda>og. Inr (ok_json (JObj [(''Root'', root_json og)]))))))"

definition disable_policy_type :: "org_env \<Rightarrow> aws_request \<Rightarrow> (organizations_registry, aws_response) handler" where
  "disable_policy_type env req =
     with_str (org_body env req) ''PolicyType'' (\<lambda>t. management_org_mut (req_account_id req)
       (h_bind (org_lift (org_disable_policy_type t)) (\<lambda>_. h_read (\<lambda>og. Inr (ok_json (JObj [(''Root'', root_json og)]))))))"

text \<open>\<^verbatim>\<open>ancestors_for\<close>: the walk ends only where the parents do.\<close>

partial_function (option) walk_up :: "organization_state \<Rightarrow> string \<Rightarrow> string list option" where
  "walk_up og cursor =
     (case parent_of og cursor of
        None \<Rightarrow> Some []
      | Some pt \<Rightarrow>
          if fst pt = [] then Some []
          else if starts_with (fst pt) ''r-'' then Some [fst pt]
          else Option.bind (walk_up og (fst pt)) (\<lambda>rest. Some (fst pt # rest)))"

definition ancestors_for :: "organization_state \<Rightarrow> string \<Rightarrow> string list option" where
  "ancestors_for og target = map_option ((#) target) (walk_up og target)"

definition effective_statements :: "org_env \<Rightarrow> organization_state \<Rightarrow> string \<Rightarrow> string \<Rightarrow> json list" where
  "effective_statements env og ptype pid =
     (case map_of (og_policies og) pid of
        None \<Rightarrow> []
      | Some p \<Rightarrow>
          if po_type p \<noteq> ptype then []
          else unwrap_or (Option.bind (oe_parse env (po_content p)) (\<lambda>c. Option.bind (json_get c ''Statement'') as_array)) [])"

definition describe_effective_policy :: "org_env \<Rightarrow> aws_request \<Rightarrow> organizations_registry \<Rightarrow> (service_error + aws_response) option" where
  "describe_effective_policy env req reg =
     (let body = org_body env req; target = unwrap_or (org_str body ''TargetId'') (req_account_id req)
      in case and_then (org_required_str body ''PolicyType'') (\<lambda>t.
              and_then (require_member (req_account_id req) reg) (\<lambda>og.
                if \<not> target_exists og target then Inl (org_error_to_aws (TargetNotFound target)) else Inr (t, og))) of
           Inl e \<Rightarrow> Some (Inl e)
         | Inr (t, og) \<Rightarrow>
             map_option (\<lambda>chain.
               let statements = concat (map (\<lambda>a. concat (map (effective_statements env og t)
                     (case map_of (og_attachments og) a of Some ids \<Rightarrow> oe_set_order env ids | None \<Rightarrow> []))) chain)
               in Inr (ok_json (JObj [(''EffectivePolicy'', JObj [(''PolicyType'', JStr t), (''TargetId'', JStr target),
                    (''PolicyContent'', JStr (oe_print env (JObj [(''Version'', JStr ''2012-10-17''), (''Statement'', JArr statements)]))),
                    (''LastUpdatedTimestamp'', json_secs env (oe_now env))])])))
               (ancestors_for og target))"

definition resource_policy_json :: "organization_state \<Rightarrow> string \<Rightarrow> json" where
  "resource_policy_json og content =
     JObj [(''ResourcePolicy'', JObj [(''ResourcePolicySummary'',
       JObj [(''Id'', JStr resource_policy_id), (''Arn'', JStr (resource_policy_arn og))]), (''Content'', JStr content)])]"

definition put_resource_policy :: "org_env \<Rightarrow> aws_request \<Rightarrow> (organizations_registry, aws_response) handler" where
  "put_resource_policy env req =
     with_str (org_body env req) ''Content'' (\<lambda>content.
       if oe_parse env content = None then h_err (org_invalid_input ''Content must be valid JSON'')
       else management_org_mut (req_account_id req)
         (h_bind (h_update (\<lambda>og. og\<lparr>og_resource_policy := Some content\<rparr>)) (\<lambda>_.
          h_read (\<lambda>og. Inr (ok_json (resource_policy_json og content))))))"

definition delete_resource_policy :: "aws_request \<Rightarrow> (organizations_registry, aws_response) handler" where
  "delete_resource_policy req =
     management_org_mut (req_account_id req)
       (h_bind (h_update (\<lambda>og. og\<lparr>og_resource_policy := None\<rparr>)) (\<lambda>_. h_done (JObj [])))"

definition describe_resource_policy :: "aws_request \<Rightarrow> (organizations_registry, aws_response) handler" where
  "describe_resource_policy req =
     delegated_org (req_account_id req) (\<lambda>og.
       and_then (ok_or (og_resource_policy og)
           (aws_error 400 ''ResourcePolicyNotFoundException'' ''No resource policy is attached to this organization.''))
         (\<lambda>content. Inr (ok_json (resource_policy_json og content))))"

definition list_accounts_with_invalid_effective_policy :: "org_env \<Rightarrow> aws_request \<Rightarrow> (organizations_registry, aws_response) handler" where
  "list_accounts_with_invalid_effective_policy env req =
     with_str (org_body env req) ''PolicyType'' (\<lambda>t. member_org (req_account_id req) (\<lambda>_.
       Inr (ok_json (JObj [(''Accounts'', JArr []), (''PolicyType'', JStr t)]))))"

definition list_effective_policy_validation_errors :: "org_env \<Rightarrow> aws_request \<Rightarrow> (organizations_registry, aws_response) handler" where
  "list_effective_policy_validation_errors env req =
     (let body = org_body env req
      in with_str body ''AccountId'' (\<lambda>acct. with_str body ''PolicyType'' (\<lambda>t. member_org (req_account_id req) (\<lambda>_.
           Inr (ok_json (JObj [(''AccountId'', JStr acct), (''PolicyType'', JStr t), (''EffectivePolicyValidationErrors'', JArr [])]))))))"

definition enable_all_features :: "aws_request \<Rightarrow> (organizations_registry, aws_response) handler" where
  "enable_all_features req =
     management_org_mut (req_account_id req)
       (h_bind (h_update org_enable_all_features) (\<lambda>_. h_read (\<lambda>og.
         Inr (ok_json (JObj [(''Handshake'', JObj [(''Id'', JStr ''h-enableallfeatures''),
           (''Arn'', JStr (resource_arn og (''handshake/'' @ og_id og @ ''/enable-all-features/h-enableallfeatures''))),
           (''Action'', JStr ''ENABLE_ALL_FEATURES''), (''State'', JStr ''ACCEPTED''),
           (''Parties'', JArr []), (''Resources'', JArr [])])])))))"

section \<open>Trusted services and delegated administrators\<close>

definition enable_aws_service_access :: "org_env \<Rightarrow> aws_request \<Rightarrow> (organizations_registry, aws_response) handler" where
  "enable_aws_service_access env req =
     with_str (org_body env req) ''ServicePrincipal'' (\<lambda>sp.
       management_org_mut (req_account_id req) (h_bind (h_update (org_enable_service_access env sp)) (\<lambda>_. h_done (JObj []))))"

definition disable_aws_service_access :: "org_env \<Rightarrow> aws_request \<Rightarrow> (organizations_registry, aws_response) handler" where
  "disable_aws_service_access env req =
     with_str (org_body env req) ''ServicePrincipal'' (\<lambda>sp.
       management_org_mut (req_account_id req) (h_bind (org_lift (org_disable_service_access sp)) (\<lambda>_. h_done (JObj []))))"

definition list_aws_service_access_for_organization :: "org_env \<Rightarrow> aws_request \<Rightarrow> (organizations_registry, aws_response) handler" where
  "list_aws_service_access_for_organization env req =
     h_bind (h_lift (parse_list_pagination (org_body env req))) (\<lambda>paging. delegated_org (req_account_id req) (\<lambda>og.
       page_reply ''EnabledServicePrincipals''
         (map (\<lambda>(sp, t). JObj [(''ServicePrincipal'', JStr sp), (''DateEnabled'', json_secs env t)]) (og_trusted_services og)) paging))"

definition register_delegated_administrator :: "org_env \<Rightarrow> aws_request \<Rightarrow> (organizations_registry, aws_response) handler" where
  "register_delegated_administrator env req =
     (let body = org_body env req
      in with_str body ''AccountId'' (\<lambda>acct. with_str body ''ServicePrincipal'' (\<lambda>sp.
           management_org_mut (req_account_id req) (h_bind (org_lift (org_register_delegated env acct sp)) (\<lambda>_. h_done (JObj []))))))"

definition deregister_delegated_administrator :: "org_env \<Rightarrow> aws_request \<Rightarrow> (organizations_registry, aws_response) handler" where
  "deregister_delegated_administrator env req =
     (let body = org_body env req
      in with_str body ''AccountId'' (\<lambda>acct. with_str body ''ServicePrincipal'' (\<lambda>sp.
           management_org_mut (req_account_id req) (h_bind (org_lift (org_deregister_delegated acct sp)) (\<lambda>_. h_done (JObj []))))))"

definition delegated_payload :: "org_env \<Rightarrow> delegated_administrator \<Rightarrow> member_account \<Rightarrow> json" where
  "delegated_payload env admin a =
     JObj [(''Id'', JStr (ac_id a)), (''Arn'', JStr (ac_arn a)), (''Email'', JStr (ac_email a)), (''Name'', JStr (ac_name a)),
           (''Status'', JStr (ac_status a)), (''JoinedMethod'', JStr (ac_joined_method a)),
           (''JoinedTimestamp'', json_secs env (ac_joined_timestamp a)),
           (''DelegationEnabledDate'', json_secs env (dg_registered_at admin))]"

definition list_delegated_administrators :: "org_env \<Rightarrow> aws_request \<Rightarrow> (organizations_registry, aws_response) handler" where
  "list_delegated_administrators env req =
     (let body = org_body env req
      in h_bind (h_lift (parse_list_pagination body)) (\<lambda>paging. delegated_org (req_account_id req) (\<lambda>og.
           page_reply ''DelegatedAdministrators''
             (List.map_filter (\<lambda>admin. map_option (delegated_payload env admin) (map_of (og_accounts og) (dg_account_id admin)))
               (org_list_delegated og (org_str body ''ServicePrincipal''))) paging)))"

definition list_delegated_services_for_account :: "org_env \<Rightarrow> aws_request \<Rightarrow> (organizations_registry, aws_response) handler" where
  "list_delegated_services_for_account env req =
     (let body = org_body env req
      in with_str body ''AccountId'' (\<lambda>acct. h_bind (h_lift (parse_list_pagination body)) (\<lambda>paging.
           delegated_org (req_account_id req) (\<lambda>og.
             page_reply ''DelegatedServices''
               (map (\<lambda>(sp, t). JObj [(''ServicePrincipal'', JStr sp), (''DelegationEnabledDate'', json_secs env t)])
                 (org_delegated_services og acct)) paging))))"

section \<open>Tags\<close>

definition tag_resource :: "org_env \<Rightarrow> aws_request \<Rightarrow> (organizations_registry, aws_response) handler" where
  "tag_resource env req =
     (let body = org_body env req
      in with_str body ''ResourceId'' (\<lambda>res. management_org_mut (req_account_id req)
           (h_bind (h_update (set_resource_tags res (parse_tags (json_get body ''Tags'')))) (\<lambda>_. h_done (JObj [])))))"

definition untag_resource :: "org_env \<Rightarrow> aws_request \<Rightarrow> (organizations_registry, aws_response) handler" where
  "untag_resource env req =
     (let body = org_body env req
      in with_str body ''ResourceId'' (\<lambda>res. management_org_mut (req_account_id req)
           (h_bind (h_update (org_untag_resource res (str_items (json_get body ''TagKeys'')))) (\<lambda>_. h_done (JObj [])))))"

definition list_tags_for_resource :: "org_env \<Rightarrow> aws_request \<Rightarrow> (organizations_registry, aws_response) handler" where
  "list_tags_for_resource env req =
     with_str (org_body env req) ''ResourceId'' (\<lambda>res. member_org (req_account_id req) (\<lambda>og.
       Inr (ok_json (JObj [(''Tags'', JArr (map (\<lambda>(k, v). JObj [(''Key'', JStr k), (''Value'', JStr v)]) (list_resource_tags og res)))]))))"

end
