(* ===== verification/Org_Handshakes.thy ===== *)
theory Org_Handshakes
  imports Org_Service
begin

text \<open>
  Invitations, the transitions of a handshake and the transfers of billing responsibility that ride on
  handshakes (\<^verbatim>\<open>handshakes.rs\<close>, \<^verbatim>\<open>responsibility.rs\<close> and the invitation handlers of \<^verbatim>\<open>accounts.rs\<close> in
  \<^verbatim>\<open>fakecloud-organizations/src/service\<close>). These look at the whole registry: the account that answers
  an invitation is not yet in the organization that holds it.
\<close>

section \<open>Filters and answers\<close>

record handshake_filter =
  hf_action_type :: "string option"
  hf_parent_handshake_id :: "string option"

definition parse_handshake_filter :: "json \<Rightarrow> service_error + handshake_filter" where
  "parse_handshake_filter body =
     (let none = \<lparr>hf_action_type = None, hf_parent_handshake_id = None\<rparr>
      in case json_get body ''Filter'' of
           None \<Rightarrow> Inr none
         | Some JNull \<Rightarrow> Inr none
         | Some v \<Rightarrow>
             and_then (ok_or (as_object v) (org_invalid_input ''Filter must be an object.'')) (\<lambda>_.
               case opt_filter (\<lambda>a. a \<notin> set [''INVITE'', ''ENABLE_ALL_FEATURES'', ''APPROVE_ALL_FEATURES'',
                      ''ADD_ORGANIZATIONS_SERVICE_LINKED_ROLE'', ''TRANSFER_RESPONSIBILITY'']) (org_str v ''ActionType'') of
                 Some a \<Rightarrow> Inl (org_invalid_input (''Filter.ActionType '' @ a @ '' is not a recognized handshake action.''))
               | None \<Rightarrow> Inr \<lparr>hf_action_type = org_str v ''ActionType'', hf_parent_handshake_id = org_str v ''ParentHandshakeId''\<rparr>))"

definition handshake_matches_filter :: "handshake \<Rightarrow> handshake_filter \<Rightarrow> bool" where
  "handshake_matches_filter h f \<longleftrightarrow>
     is_none_or (hf_action_type f) (\<lambda>a. hs_action h = a) \<and> hf_parent_handshake_id f = None"

definition handshake_target :: "handshake \<Rightarrow> string" where
  "handshake_target h =
     (if hs_target_kind h = ''EMAIL'' then unwrap_or (hs_target_email h) (hs_target_account_id h) else hs_target_account_id h)"

definition offered_transfer :: "organization_state \<Rightarrow> handshake \<Rightarrow> responsibility_transfer option" where
  "offered_transfer og h =
     opt_or (Option.bind (hs_responsibility_transfer_id h) (map_of (og_responsibility_transfers og)))
       (map_option snd (riding_transfer (hs_id h) og))"

definition typed_value_json :: "string \<Rightarrow> string \<Rightarrow> json" where
  "typed_value_json t v = JObj [(''Type'', JStr t), (''Value'', JStr v)]"

definition party_json :: "string \<Rightarrow> string \<Rightarrow> json" where
  "party_json i t = JObj [(''Id'', JStr i), (''Type'', JStr t)]"

definition transfer_resource :: "org_env \<Rightarrow> responsibility_transfer \<Rightarrow> json" where
  "transfer_resource env t =
     JObj [(''Type'', JStr ''RESPONSIBILITY_TRANSFER''), (''Value'', JStr (rt_id t)),
       (''Resources'', JArr [typed_value_json ''TRANSFER_TYPE'' (rt_type t),
          typed_value_json ''TRANSFER_START_TIMESTAMP'' (oe_rfc3339 env (rt_start t)),
          typed_value_json ''MANAGEMENT_ACCOUNT'' (rt_source_account_id t),
          typed_value_json ''MANAGEMENT_EMAIL'' (rt_source_email t)])]"

definition handshake_payload :: "org_env \<Rightarrow> organization_state \<Rightarrow> handshake \<Rightarrow> json" where
  "handshake_payload env og h =
     (let parties = [party_json (hs_organization_id h) ''ORGANIZATION'', party_json (hs_source_account_id h) ''ACCOUNT'',
            party_json (handshake_target h) (hs_target_kind h)];
          resources = [typed_value_json ''ORGANIZATION'' (hs_organization_id h),
              typed_value_json (if hs_target_kind h = ''EMAIL'' then ''EMAIL'' else ''ACCOUNT'') (handshake_target h)] @
            (case offered_transfer og h of Some t \<Rightarrow> [transfer_resource env t] | None \<Rightarrow> [])
      in JObj ([(''Id'', JStr (hs_id h)), (''Arn'', JStr (hs_arn h)), (''Action'', JStr (hs_action h)), (''State'', JStr (hs_state h)),
                (''RequestedTimestamp'', json_secs env (hs_requested h)), (''ExpirationTimestamp'', json_secs env (hs_expiration h)),
                (''Parties'', JArr parties), (''Resources'', JArr resources)] @
               opt_entry ''Notes'' (map_option JStr (hs_notes h))))"

definition handshake_json :: "org_env \<Rightarrow> organization_state \<Rightarrow> handshake \<Rightarrow> aws_response" where
  "handshake_json env og h = ok_json (JObj [(''Handshake'', handshake_payload env og h)])"

section \<open>Invitations\<close>

definition is_account_number :: "string \<Rightarrow> bool" where
  "is_account_number s \<longleftrightarrow> length s = 12 \<and> list_all is_ascii_digit s"

definition validate_invite_target :: "string \<Rightarrow> string \<Rightarrow> service_error + unit" where
  "validate_invite_target kind i =
     (if kind = ''ACCOUNT''
      then if is_account_number i then Inr ()
           else Inl (org_invalid_input ''Target.Id must be a 12-digit account id when Target.Type is ACCOUNT'')
      else if kind = ''EMAIL''
      then if CHR ''@'' \<notin> set i then Inl (org_invalid_input ''Target.Id must be an email address when Target.Type is EMAIL'') else Inr ()
      else Inl (org_invalid_input (''Target.Type must be one of [ACCOUNT, EMAIL], got '' @ kind)))"

definition invite_target :: "json \<Rightarrow> service_error + string \<times> string" where
  "invite_target body =
     and_then (ok_or (json_get body ''Target'') (org_invalid_input ''Target is required'')) (\<lambda>t.
     and_then (ok_or (org_str t ''Type'') (org_invalid_input ''Target.Type is required'')) (\<lambda>kind.
     and_then (ok_or (org_str t ''Id'') (org_invalid_input ''Target.Id is required'')) (\<lambda>i.
     and_then (validate_invite_target kind i) (\<lambda>_. Inr (kind, i)))))"

definition invite_account_to_organization :: "org_env \<Rightarrow> aws_request \<Rightarrow> (organizations_registry, aws_response) handler" where
  "invite_account_to_organization env req reg =
     (let body = org_body env req
      in case and_then (invite_target body) (\<lambda>t. and_then (management_entry (req_account_id req) reg) (\<lambda>e. Inr (t, e))) of
           Inl err \<Rightarrow> h_err err reg
         | Inr ((kind, i), k, og) \<Rightarrow>
             (case opt_filter (\<lambda>t. claimed_by_other_org reg t (og_id og) \<noteq> None) (resolve_target_account reg kind i (og_id og)) of
                Some t \<Rightarrow> h_err (org_error_to_aws (AccountInAnotherOrganization t)) reg
              | None \<Rightarrow>
                  (let (r, og') = h_bind (org_lift (org_invite_account env (req_account_id req) kind i
                           (if kind = ''EMAIL'' then Some i else None) (org_str body ''Notes''))) (\<lambda>h.
                         h_read (\<lambda>og'. Inr (handshake_json env og' h))) og
                   in (r, set_org k og' reg))))"

definition list_handshakes_for_account :: "org_env \<Rightarrow> aws_request \<Rightarrow> (organizations_registry, aws_response) handler" where
  "list_handshakes_for_account env req =
     (let body = org_body env req
      in h_bind (h_lift (parse_handshake_filter body)) (\<lambda>f. h_bind (h_lift (parse_list_pagination body)) (\<lambda>paging.
           h_read (\<lambda>reg.
             let mine = filter (\<lambda>(_, h). hs_source_account_id h = req_account_id req \<or>
                     account_matches_target reg (hs_target_kind h) (hs_target_account_id h) (req_account_id req))
                   (concat (map (\<lambda>(_, og). map (Pair og) (list_handshakes og)) reg));
                 wanted = filter (\<lambda>(_, h). handshake_matches_filter h f) mine
             in page_reply ''Handshakes'' (map (\<lambda>(og, h). handshake_payload env og h) (sort_key (\<lambda>(_, h). hs_id h) wanted)) paging))))"

definition list_handshakes_for_organization :: "org_env \<Rightarrow> aws_request \<Rightarrow> (organizations_registry, aws_response) handler" where
  "list_handshakes_for_organization env req =
     (let body = org_body env req
      in h_bind (h_lift (parse_handshake_filter body)) (\<lambda>f. h_bind (h_lift (parse_list_pagination body)) (\<lambda>paging.
           delegated_org (req_account_id req) (\<lambda>og.
             page_reply ''Handshakes''
               (map (handshake_payload env og) (filter (\<lambda>h. handshake_matches_filter h f) (list_handshakes og))) paging))))"

section \<open>Transitions\<close>

definition handshake_allowed :: "organizations_registry \<Rightarrow> organization_state \<Rightarrow> handshake \<Rightarrow> string \<Rightarrow> string \<Rightarrow> bool" where
  "handshake_allowed reg og h new_state acct =
     (if hs_action h \<in> set [''ENABLE_ALL_FEATURES'', ''APPROVE_ALL_FEATURES'']
      then is_some_and (org_of_account acct reg) (\<lambda>o'. og_id o' = og_id og)
      else if new_state \<in> set [''ACCEPTED'', ''DECLINED'']
      then account_matches_target reg (hs_target_kind h) (hs_target_account_id h) acct
      else new_state = ''CANCELED'' \<and> acct = hs_source_account_id h)"

definition enrolling_email :: "organizations_registry \<Rightarrow> handshake \<Rightarrow> string \<Rightarrow> service_error + string" where
  "enrolling_email reg h acct =
     (let named = unwrap_or (hs_target_email h) (synthetic_email acct); synthetic = synthetic_email acct
      in if \<not> email_in_use reg named then Inr named
         else if \<not> email_in_use reg synthetic then Inr synthetic
         else Inl (aws_error 400 ''ConstraintViolationException''
                (''No free email address for account '' @ acct @ '': both '' @ named @ '' and '' @ synthetic @
                 '' are already associated with an account.'')))"

definition transfer_constraint :: service_error where
  "transfer_constraint =
     aws_error_with_fields 400 ''HandshakeConstraintViolationException''
       (''A responsibility transfer targets another organization'' @ [CHR 0x27] @ ''s management account.'')
       [(''Reason'', ''SOURCE_AND_TARGET_CANNOT_MATCH'')]"

text \<open>What has to hold before a handshake is resolved; the address an accepted invitation enrolls with.\<close>

definition transition_checks ::
  "organizations_registry \<Rightarrow> organization_state \<Rightarrow> handshake \<Rightarrow> string \<Rightarrow> string \<Rightarrow> service_error + string option" where
  "transition_checks reg og h new_state acct =
     (let joins = (new_state = ''ACCEPTED'' \<and> hs_action h = ''INVITE'')
      in if \<not> handshake_allowed reg og h new_state acct then Inl (org_error_to_aws (InvalidHandshakeParty acct))
         else if \<not> live_handshake h then Inl (org_error_to_aws (HandshakeAlreadyResolved (hs_state h)))
         else if joins \<and> claimed_by_other_org reg acct (og_id og) \<noteq> None
         then Inl (org_error_to_aws (AccountInAnotherOrganization acct))
         else if joins \<and> is_some_and (map_of reg (og_id og)) (has_member acct)
         then Inl (org_error_to_aws (AccountAlreadyMember acct))
         else
           and_then (if joins then and_then (enrolling_email reg h acct) (\<lambda>e. Inr (Some e)) else Inr None) (\<lambda>email.
             if new_state = ''ACCEPTED'' \<and> hs_action h = ''TRANSFER_RESPONSIBILITY'' \<and>
                is_some_and (org_of_account acct reg) (\<lambda>o'. og_management_account_id o' \<noteq> acct)
             then Inl transfer_constraint
             else Inr email))"

definition transition_handshake :: "org_env \<Rightarrow> string \<Rightarrow> aws_request \<Rightarrow> (organizations_registry, aws_response) handler" where
  "transition_handshake env new_state req =
     with_str (org_body env req) ''HandshakeId'' (\<lambda>hid reg.
       case org_of_handshake hid reg of
         None \<Rightarrow> h_err (org_error_to_aws (HandshakeNotFound hid)) reg
       | Some (k, og) \<Rightarrow>
           (case map_of (og_handshakes og) hid of
              None \<Rightarrow> h_err (org_error_to_aws (HandshakeNotFound hid)) reg
            | Some h \<Rightarrow>
                (case transition_checks reg og h new_state (req_account_id req) of
                   Inl e \<Rightarrow> h_err e reg
                 | Inr email \<Rightarrow>
                     (let (r, og') = h_bind (org_lift (resolve_handshake env hid new_state (Some (req_account_id req)) email)) (\<lambda>h'.
                            h_read (\<lambda>og'. Inr (handshake_json env og' h'))) og
                      in (r, set_org k og' reg)))))"

definition accept_handshake :: "org_env \<Rightarrow> aws_request \<Rightarrow> (organizations_registry, aws_response) handler" where
  "accept_handshake env req = transition_handshake env ''ACCEPTED'' req"

definition decline_handshake :: "org_env \<Rightarrow> aws_request \<Rightarrow> (organizations_registry, aws_response) handler" where
  "decline_handshake env req = transition_handshake env ''DECLINED'' req"

definition cancel_handshake :: "org_env \<Rightarrow> aws_request \<Rightarrow> (organizations_registry, aws_response) handler" where
  "cancel_handshake env req = transition_handshake env ''CANCELED'' req"

definition describe_handshake :: "org_env \<Rightarrow> aws_request \<Rightarrow> (organizations_registry, aws_response) handler" where
  "describe_handshake env req =
     with_str (org_body env req) ''HandshakeId'' (\<lambda>hid. h_read (\<lambda>reg.
       let not_found = org_error_to_aws (HandshakeNotFound hid)
       in and_then (ok_or (org_of_handshake hid reg) not_found) (\<lambda>(_, og).
          and_then (ok_or (map_of (og_handshakes og) hid) not_found) (\<lambda>h.
            if req_account_id req = hs_source_account_id h \<or>
               account_matches_target reg (hs_target_kind h) (hs_target_account_id h) (req_account_id req) \<or>
               has_member (req_account_id req) og
            then Inr (handshake_json env og h) else Inl not_found))))"

section \<open>Responsibility transfers\<close>

definition transfer_not_found :: "string \<Rightarrow> service_error" where
  "transfer_not_found i =
     aws_error 400 ''ResponsibilityTransferNotFoundException'' (''No responsibility transfer was found with id '' @ i @ ''.'')"

definition require_transfer_type :: "json \<Rightarrow> service_error + string" where
  "require_transfer_type body =
     and_then (org_required_str body ''Type'') (\<lambda>t.
       if t \<noteq> ''BILLING'' then Inl (org_invalid_input (''Type must be one of [BILLING], got '' @ t)) else Inr t)"

definition is_transfer_target :: "organizations_registry \<Rightarrow> responsibility_transfer \<Rightarrow> string \<Rightarrow> bool" where
  "is_transfer_target reg t acct \<longleftrightarrow>
     rt_target_account_id t = acct \<or>
     \<not> is_account_number (rt_target_account_id t) \<and> account_matches_target reg ''EMAIL'' (rt_target_account_id t) acct"

definition is_transfer_party :: "organizations_registry \<Rightarrow> responsibility_transfer \<Rightarrow> string \<Rightarrow> bool" where
  "is_transfer_party reg t acct \<longleftrightarrow> rt_source_account_id t = acct \<or> is_transfer_target reg t acct"

definition target_participant :: "organizations_registry \<Rightarrow> responsibility_transfer \<Rightarrow> string \<Rightarrow> json" where
  "target_participant reg t caller =
     (let stored = rt_target_account_id t;
          resolved = (if is_account_number stored then Some stored
            else opt_or (target_account_id ''EMAIL'' stored)
                   (if account_matches_target reg ''EMAIL'' stored caller then Some caller else None))
      in JObj ((''ManagementAccountEmail'', JStr (rt_target_email t)) # opt_entry ''ManagementAccountId'' (map_option JStr resolved)))"

definition transfer_payload :: "org_env \<Rightarrow> organizations_registry \<Rightarrow> responsibility_transfer \<Rightarrow> string \<Rightarrow> json" where
  "transfer_payload env reg t caller =
     JObj ([(''Arn'', JStr (rt_arn t)), (''Name'', JStr (rt_name t)), (''Id'', JStr (rt_id t)), (''Type'', JStr (rt_type t)),
            (''Status'', JStr (rt_status t)),
            (''Source'', JObj [(''ManagementAccountId'', JStr (rt_source_account_id t)),
                             (''ManagementAccountEmail'', JStr (rt_source_email t))]),
            (''Target'', target_participant reg t caller), (''StartTimestamp'', json_secs env (rt_start t))] @
           opt_entry ''EndTimestamp'' (map_option (json_secs env) (rt_end t)) @
           opt_entry ''ActiveHandshakeId'' (map_option JStr (rt_active_handshake_id t)))"

definition transfer_json :: "org_env \<Rightarrow> organizations_registry \<Rightarrow> responsibility_transfer \<Rightarrow> string \<Rightarrow> aws_response" where
  "transfer_json env reg t caller = ok_json (JObj [(''ResponsibilityTransfer'', transfer_payload env reg t caller)])"

text \<open>The entry of the organization that stores a transfer, and the transfer.\<close>

definition party_org_of_transfer ::
  "organizations_registry \<Rightarrow> string \<Rightarrow> string \<Rightarrow> bool \<Rightarrow> service_error + string \<times> organization_state \<times> responsibility_transfer" where
  "party_org_of_transfer reg i caller source_only =
     and_then (ok_or (org_of_responsibility_transfer i reg) (transfer_not_found i)) (\<lambda>(k, og).
     and_then (ok_or (map_of (og_responsibility_transfers og) i) (transfer_not_found i)) (\<lambda>t.
       if \<not> is_transfer_party reg t caller then Inl (transfer_not_found i)
       else if rt_source_account_id t \<noteq> caller \<and> (source_only \<or> rt_status t = ''REQUESTED'')
       then Inl (aws_error 403 ''AccessDeniedException''
              (if source_only then ''Only the source management account can rename a responsibility transfer.''
               else ''Only the source management account can withdraw a transfer that has not been accepted; decline the handshake instead.''))
       else Inr (k, og, t)))"

definition json_as_f64 :: "json \<Rightarrow> f64 option" where
  "json_as_f64 v =
     (case v of
        JNum (PosInt n) \<Rightarrow> Some (round_f64 False (of_nat n))
      | JNum (NegInt i) \<Rightarrow> Some (round_f64 True (of_nat (nat (- i))))
      | JNum (FloatNum s) \<Rightarrow> parse_f64 s
      | _ \<Rightarrow> None)"

text \<open>\<^verbatim>\<open>x as i64\<close>: towards zero, saturating, zero for NaN.\<close>

fun f64_as_i64 :: "f64 \<Rightarrow> int" where
  "f64_as_i64 F64_NaN = 0"
| "f64_as_i64 (F64_Inf neg) = (if neg then i64_min else i64_max)"
| "f64_as_i64 (F64_Val r) = clamp i64_min i64_max (if 0 \<le> r then \<lfloor>r\<rfloor> else \<lceil>r\<rceil>)"

definition json_to_datetime :: "org_env \<Rightarrow> json \<Rightarrow> int option" where
  "json_to_datetime env v =
     (case json_as_f64 v of
        Some secs \<Rightarrow> from_timestamp (oe_chrono env) (f64_as_i64 secs)
      | None \<Rightarrow> Option.bind (as_str v) (parse_rfc3339 (oe_chrono env)))"

definition all_account_ids :: "organizations_registry \<Rightarrow> string list" where
  "all_account_ids reg = concat (map (\<lambda>(_, og). map fst (og_accounts og)) reg)"

definition resolved_target :: "organizations_registry \<Rightarrow> string \<Rightarrow> string \<Rightarrow> string option" where
  "resolved_target reg kind i = find (account_matches_target reg kind i) (all_account_ids reg)"

definition canonical_target :: "organizations_registry \<Rightarrow> string \<Rightarrow> string \<Rightarrow> string" where
  "canonical_target reg kind i = unwrap_or (opt_or (resolved_target reg kind i) (target_account_id kind i)) i"

definition transfer_refused :: "organizations_registry \<Rightarrow> organization_state \<Rightarrow> string \<Rightarrow> string \<Rightarrow> bool" where
  "transfer_refused reg og kind i =
     (case resolved_target reg kind i of
        None \<Rightarrow> False
      | Some t \<Rightarrow> is_some_and (org_of_account t reg) (\<lambda>o'. og_id o' = og_id og \<or> og_management_account_id o' \<noteq> t))"

definition transfer_duplicate :: "organizations_registry \<Rightarrow> organization_state \<Rightarrow> string \<Rightarrow> string \<Rightarrow> bool" where
  "transfer_duplicate reg og kind i \<longleftrightarrow>
     list_ex (\<lambda>h. hs_action h = ''TRANSFER_RESPONSIBILITY'' \<and> live_handshake h \<and>
       canonical_target reg (hs_target_kind h) (hs_target_account_id h) = canonical_target reg kind i) (map snd (og_handshakes og))"

definition open_transfer ::
  "org_env \<Rightarrow> string \<Rightarrow> string \<Rightarrow> int \<Rightarrow> string \<Rightarrow> string \<Rightarrow> string option \<Rightarrow> organization_state \<Rightarrow> handshake \<times> organization_state" where
  "open_transfer env ttype name start kind i notes og =
     (let hid = ''h-'' @ random_id env 0 32;
          tid = ''rt-'' @ random_id env 1 32;
          email = (if kind = ''EMAIL'' then i else synthetic_email i);
          h = \<lparr>hs_id = hid, hs_arn = resource_arn og (''handshake/'' @ og_id og @ ''/transfer/'' @ hid),
               hs_action = ''TRANSFER_RESPONSIBILITY'', hs_state = ''OPEN'', hs_requested = oe_now env,
               hs_expiration = oe_now env + seconds (15 * 86400), hs_source_account_id = og_management_account_id og,
               hs_target_account_id = i, hs_target_email = Some email, hs_target_kind = kind, hs_notes = notes,
               hs_organization_id = og_id og, hs_responsibility_transfer_id = Some tid\<rparr>;
          t = \<lparr>rt_id = tid, rt_arn = resource_arn og (''responsibilitytransfer/'' @ og_id og @ ''/'' @ tid), rt_name = name,
               rt_type = ttype, rt_status = ''REQUESTED'', rt_direction = ''OUTBOUND'',
               rt_source_account_id = og_management_account_id og, rt_source_email = og_management_account_email og,
               rt_target_account_id = i, rt_target_email = email, rt_start = start, rt_end = None,
               rt_active_handshake_id = Some hid\<rparr>
      in (h, og\<lparr>og_handshakes := bt_insert hid h (og_handshakes og),
                 og_responsibility_transfers := bt_insert tid t (og_responsibility_transfers og)\<rparr>))"

definition transfer_target :: "json \<Rightarrow> service_error + string \<times> string" where
  "transfer_target body =
     and_then (ok_or (json_get body ''Target'') (org_invalid_input ''Target is required'')) (\<lambda>t.
     and_then (ok_or (org_str t ''Id'') (org_invalid_input ''Target.Id is required'')) (\<lambda>i.
     and_then (ok_or (org_str t ''Type'') (org_invalid_input ''Target.Type is required'')) (\<lambda>kind.
     and_then (validate_invite_target kind i) (\<lambda>_. Inr (kind, i)))))"

definition invite_organization_to_transfer_responsibility ::
  "org_env \<Rightarrow> aws_request \<Rightarrow> (organizations_registry, aws_response) handler" where
  "invite_organization_to_transfer_responsibility env req reg =
     (let body = org_body env req;
          start = unwrap_or (Option.bind (json_get body ''StartTimestamp'') (json_to_datetime env)) (oe_now env)
      in case and_then (require_transfer_type body) (\<lambda>ttype.
              and_then (org_required_str body ''SourceName'') (\<lambda>name.
              and_then (transfer_target body) (\<lambda>target.
              and_then (management_entry (req_account_id req) reg) (\<lambda>e. Inr (ttype, name, target, e))))) of
           Inl err \<Rightarrow> h_err err reg
         | Inr (ttype, name, (kind, i), k, og) \<Rightarrow>
             if transfer_refused reg og kind i then h_err transfer_constraint reg
             else if transfer_duplicate reg og kind i
             then h_err (aws_error 400 ''DuplicateHandshakeException''
                    (''An OPEN responsibility transfer already targets '' @ i @ ''.'')) reg
             else
               (let (h, og') = open_transfer env ttype name start kind i (org_str body ''Notes'') og
                in (Inr (handshake_json env og' h), set_org k og' reg)))"

definition describe_responsibility_transfer :: "org_env \<Rightarrow> aws_request \<Rightarrow> (organizations_registry, aws_response) handler" where
  "describe_responsibility_transfer env req =
     with_str (org_body env req) ''Id'' (\<lambda>i. h_read (\<lambda>reg.
       and_then (ok_or (opt_filter (\<lambda>t. is_transfer_party reg t (req_account_id req))
           (Option.bind (org_of_responsibility_transfer i reg) (\<lambda>(_, og). map_of (og_responsibility_transfers og) i))) (transfer_not_found i))
         (\<lambda>t. Inr (transfer_json env reg t (req_account_id req)))))"

definition put_transfer :: "string \<Rightarrow> responsibility_transfer \<Rightarrow> organization_state \<Rightarrow> organization_state" where
  "put_transfer i t og = og\<lparr>og_responsibility_transfers := bt_modify i (\<lambda>_. t) (og_responsibility_transfers og)\<rparr>"

definition update_responsibility_transfer :: "org_env \<Rightarrow> aws_request \<Rightarrow> (organizations_registry, aws_response) handler" where
  "update_responsibility_transfer env req =
     (let body = org_body env req
      in with_str body ''Id'' (\<lambda>i. with_str body ''Name'' (\<lambda>name reg.
           case party_org_of_transfer reg i (req_account_id req) True of
             Inl e \<Rightarrow> h_err e reg
           | Inr (k, og, t) \<Rightarrow>
               (let t' = t\<lparr>rt_name := name\<rparr>; reg' = set_org k (put_transfer i t' og) reg
                in (Inr (transfer_json env reg' t' (req_account_id req)), reg')))))"

definition terminate_responsibility_transfer :: "org_env \<Rightarrow> aws_request \<Rightarrow> (organizations_registry, aws_response) handler" where
  "terminate_responsibility_transfer env req =
     (let body = org_body env req;
          end_at = unwrap_or (Option.bind (json_get body ''EndTimestamp'') (json_to_datetime env)) (oe_now env)
      in with_str body ''Id'' (\<lambda>i reg.
           case party_org_of_transfer reg i (req_account_id req) False of
             Inl e \<Rightarrow> h_err e reg
           | Inr (k, og, t) \<Rightarrow>
               if rt_status t = ''WITHDRAWN''
               then h_err (aws_error 400 ''ResponsibilityTransferAlreadyInStatusException''
                      ''The responsibility transfer is already withdrawn.'') reg
               else if rt_status t \<notin> set [''REQUESTED'', ''ACCEPTED'']
               then h_err (aws_error 400 ''InvalidResponsibilityTransferTransitionException''
                      (''A responsibility transfer in status '' @ rt_status t @ '' cannot be terminated.'')) reg
               else
                 (let t' = t\<lparr>rt_status := ''WITHDRAWN'', rt_end := Some end_at, rt_active_handshake_id := None\<rparr>;
                      og1 = put_transfer i t' og;
                      og2 = (case rt_active_handshake_id t of
                          None \<Rightarrow> og1
                        | Some hid \<Rightarrow> og1\<lparr>og_handshakes := bt_modify hid (\<lambda>h. h\<lparr>hs_state := ''CANCELED''\<rparr>) (og_handshakes og1)\<rparr>);
                      reg' = set_org k og2 reg
                  in (Inr (transfer_json env reg' t' (req_account_id req)), reg'))))"

definition list_responsibility_transfers :: "org_env \<Rightarrow> bool \<Rightarrow> aws_request \<Rightarrow> (organizations_registry, aws_response) handler" where
  "list_responsibility_transfers env outbound req =
     (let body = org_body env req; acct = req_account_id req;
          only_id = (if outbound then None else org_str body ''Id'')
      in h_bind (h_lift (require_transfer_type body)) (\<lambda>ttype. h_bind (h_lift (parse_list_pagination body)) (\<lambda>paging.
           h_read (\<lambda>reg.
             and_then (if outbound then and_then (require_member acct reg) (\<lambda>_. Inr ()) else Inr ()) (\<lambda>_.
               let rows = filter (\<lambda>t. is_none_or only_id (\<lambda>i. rt_id t = i) \<and> rt_type t = ttype \<and>
                     (if outbound then rt_source_account_id t = acct else is_transfer_target reg t acct))
                     (concat (map (\<lambda>(_, og). map snd (og_responsibility_transfers og)) reg))
               in case only_id of
                    Some i \<Rightarrow>
                      if rows = [] then Inl (transfer_not_found i)
                      else page_reply ''ResponsibilityTransfers'' (map (\<lambda>t. transfer_payload env reg t acct) (sort_key rt_id rows)) paging
                  | None \<Rightarrow> page_reply ''ResponsibilityTransfers'' (map (\<lambda>t. transfer_payload env reg t acct) (sort_key rt_id rows)) paging)))))"

end
