(* ===== verification/Org_Resolver.thy ===== *)
theory Org_Resolver
  imports Org_State Policy_Store
begin

text \<open>
  What the organizations say about a principal (\<^verbatim>\<open>fakecloud-organizations/src/resolver.rs\<close>): its
  organization and path, the service control policies that bound it, and whether it may act as the
  root of another account. The walk up the tree of units stops only at the root or at an id that is
  no unit, so it is a \<open>partial_function\<close>; \<open>None\<close> of a function that walks is a walk that does not end.
\<close>

partial_function (option) unit_walk :: "organization_state \<Rightarrow> string \<Rightarrow> (string list \<times> bool) option" where
  "unit_walk og cursor =
     (if cursor = og_root_id og then Some ([cursor], True)
      else
        (case map_of (og_ous og) cursor of
           None \<Rightarrow> Some ([cursor], False)
         | Some ou \<Rightarrow> Option.bind (unit_walk og (ou_parent_id ou)) (\<lambda>r. Some (cursor # fst r, snd r))))"

definition principal_org :: "organizations_registry \<Rightarrow> string \<Rightarrow> (string \<times> string) option option" where
  "principal_org reg acct =
     (case org_of_account acct reg of
        None \<Rightarrow> Some None
      | Some og \<Rightarrow>
          (case map_of (og_accounts og) acct of
             None \<Rightarrow> Some None
           | Some a \<Rightarrow>
               map_option (\<lambda>w. Some (og_id og, og_id og @ ''/'' @ concat (map (\<lambda>i. i @ ''/'') (rev (fst w)))))
                 (unit_walk og (ac_parent_id a))))"

definition slr_role_name :: "string \<Rightarrow> string option" where
  "slr_role_name a =
     (let parts = splitn 6 a (CHR '':'')
      in if length parts < 6 then None
         else map_option (\<lambda>r. takeWhile (\<lambda>c. c \<noteq> CHR ''/'') r) (strip_prefix (parts ! 5) ''assumed-role/''))"

definition is_service_linked :: "principal \<Rightarrow> bool" where
  "is_service_linked p \<longleftrightarrow>
     p_type p = AssumedRole \<and> is_some_and (slr_role_name (p_arn p)) (\<lambda>n. starts_with n ''AWSServiceRoleFor'')"

text \<open>The statements of a policy document, and those of all policies attached to one target.\<close>

definition statement_values :: "json \<Rightarrow> json list" where
  "statement_values v =
     (case json_get v ''Statement'' of Some (JArr arr) \<Rightarrow> arr | Some (JObj m) \<Rightarrow> [JObj m] | _ \<Rightarrow> [])"

definition policy_values :: "org_env \<Rightarrow> organization_state \<Rightarrow> string \<Rightarrow> json list" where
  "policy_values env og pid =
     (case Option.bind (map_of (og_policies og) pid) (\<lambda>p. oe_parse env (po_content p)) of
        Some v \<Rightarrow> statement_values v
      | None \<Rightarrow> [])"

definition level_values :: "org_env \<Rightarrow> organization_state \<Rightarrow> string \<Rightarrow> json list" where
  "level_values env og target =
     (case map_of (og_attachments og) target of
        None \<Rightarrow> []
      | Some ids \<Rightarrow> concat (map (policy_values env og) (oe_set_order env ids)))"

definition merged_document :: "json list \<Rightarrow> json" where
  "merged_document statements = JObj [(''Version'', JStr ''2012-10-17''), (''Statement'', JArr statements)]"

definition level_documents :: "org_env \<Rightarrow> organization_state \<Rightarrow> string list \<Rightarrow> string list" where
  "level_documents env og path =
     map (\<lambda>statements. oe_print env (merged_document statements))
       (filter (\<lambda>statements. statements \<noteq> []) (map (level_values env og) path))"

definition scps_for :: "org_env \<Rightarrow> organizations_registry \<Rightarrow> principal \<Rightarrow> string list option option" where
  "scps_for env reg p =
     (case org_of_account (p_account_id p) reg of
        None \<Rightarrow> Some None
      | Some og \<Rightarrow>
          if is_management og (p_account_id p) then Some None
          else if is_service_linked p then Some None
          else
            (case map_of (og_accounts og) (p_account_id p) of
               None \<Rightarrow> Some None
             | Some a \<Rightarrow>
                 map_option (\<lambda>w.
                   if \<not> snd w then None
                   else Some (level_documents env og (rev (fst w) @ [p_account_id p])))
                   (unit_walk og (ac_parent_id a))))"

definition can_assume_root_into :: "organizations_registry \<Rightarrow> string \<Rightarrow> string \<Rightarrow> bool" where
  "can_assume_root_into reg caller target =
     (case org_of_account caller reg of
        None \<Rightarrow> False
      | Some og \<Rightarrow>
          if \<not> has_member target og then False
          else if is_management og caller then True
          else is_some_and (map_of (og_delegated_administrators og) ''iam.amazonaws.com'') (\<lambda>admins. map_of admins caller \<noteq> None))"

end
