(* ===== verification/Org_Provisioning.thy ===== *)
theory Org_Provisioning
  imports Org_Service
begin

text \<open>
  Organizations as stack resources (\<^verbatim>\<open>fakecloud-cloudformation/src/resource_provisioner/organizations.rs\<close>).
  A provisioner works for the account and region of its stack, fails with a text, and writes to the
  registry directly, past the handlers of \<open>Org_Service\<close>. \<open>cf_name\<close> is the name the provisioner generates
  for a resource that has none, \<open>cf_debug\<close> the debug print of an error, \<open>cf_rfc3339\<close> that of a date.
\<close>

record cfn_env =
  cf_account_id :: string
  cf_region :: string
  cf_name :: string
  cf_debug :: "org_error \<Rightarrow> string"
  cf_rfc3339 :: "int \<Rightarrow> string"

record provision_result =
  pr_physical_id :: string
  pr_attributes :: "string smap"

type_synonym 'a provision = "organizations_registry \<Rightarrow> (string + 'a) \<times> organizations_registry"

definition provisioned :: "string \<Rightarrow> (string \<times> string) list \<Rightarrow> provision_result" where
  "provisioned i attrs = \<lparr>pr_physical_id = i, pr_attributes = fold (\<lambda>(k, v). bt_insert k v) attrs []\<rparr>"

fun error_code :: "service_error \<Rightarrow> string" where
  "error_code (ServiceNotFound _) = ''UnknownService''"
| "error_code (ActionNotImplemented _ _) = ''InvalidAction''"
| "error_code (AwsError _ code _ _ _) = code"

fun error_message :: "service_error \<Rightarrow> string" where
  "error_message (ServiceNotFound svc) = ''service not found: '' @ svc"
| "error_message (ActionNotImplemented svc act) = ''action '' @ act @ '' not implemented for service '' @ svc"
| "error_message (AwsError _ _ message _ _) = message"

definition aws_failure :: "service_error \<Rightarrow> string" where
  "aws_failure e = error_code e @ '': '' @ error_message e"

definition org_failure :: "org_error \<Rightarrow> string" where
  "org_failure e = aws_failure (org_error_to_aws e)"

definition stack_org ::
  "cfn_env \<Rightarrow> (organization_state \<Rightarrow> (string + 'a) \<times> organization_state) \<Rightarrow> 'a provision" where
  "stack_org cf f reg =
     (case find_org (has_member (cf_account_id cf)) reg of
        None \<Rightarrow> (Inl ''Organization not yet created'', reg)
      | Some (k, og) \<Rightarrow> (let (r, og') = f og in (r, set_org k og' reg)))"

text \<open>\<^verbatim>\<open>if let Some(org) = org_of_account_mut(..)\<close>, as the deletions do it.\<close>

definition stack_org_if_any :: "cfn_env \<Rightarrow> (organization_state \<Rightarrow> organization_state) \<Rightarrow> organizations_registry \<Rightarrow> organizations_registry" where
  "stack_org_if_any cf f reg =
     (case find_org (has_member (cf_account_id cf)) reg of None \<Rightarrow> reg | Some (k, og) \<Rightarrow> set_org k (f og) reg)"

definition cfn_create_organization :: "org_env \<Rightarrow> cfn_env \<Rightarrow> json \<Rightarrow> provision_result provision" where
  "cfn_create_organization env cf props reg =
     (let acct = cf_account_id cf; management_email = synthetic_email acct;
          og = (bootstrap_in env (cf_region cf) acct)\<lparr>og_feature_set := unwrap_or (org_str props ''FeatureSet'') ''ALL''\<rparr>
      in if account_is_enrolled reg acct then (Inl (''Account '' @ acct @ '' is already a member of an organization''), reg)
         else if email_in_use reg management_email
         then (Inl (''The email address '' @ management_email @ '' is already associated with another account''), reg)
         else (Inr (provisioned (og_id og) [(''Id'', og_id og), (''Arn'', og_arn og),
                 (''ManagementAccountArn'', og_management_account_arn og), (''RootId'', og_root_id og)]), registry_insert og reg))"

definition cfn_delete_organization :: "string \<Rightarrow> organizations_registry \<Rightarrow> organizations_registry" where
  "cfn_delete_organization physical_id reg = bt_remove physical_id reg"

definition cfn_create_unit :: "org_env \<Rightarrow> cfn_env \<Rightarrow> json \<Rightarrow> provision_result provision" where
  "cfn_create_unit env cf props reg =
     (let name = unwrap_or (org_str props ''Name'') (cf_name cf)
      in case org_str props ''ParentId'' of
           None \<Rightarrow> (Inl ''ParentId is required'', reg)
         | Some parent \<Rightarrow>
             stack_org cf (\<lambda>og.
               case org_create_ou env parent name og of
                 (Inl e, og') \<Rightarrow> (Inl (org_failure e), og')
               | (Inr ou, og') \<Rightarrow> (Inr (provisioned (ou_id ou) [(''Id'', ou_id ou), (''Arn'', ou_arn ou), (''Name'', name)]), og')) reg)"

definition cfn_delete_unit :: "cfn_env \<Rightarrow> string \<Rightarrow> organizations_registry \<Rightarrow> organizations_registry" where
  "cfn_delete_unit cf physical_id =
     stack_org_if_any cf (\<lambda>og. og\<lparr>og_ous := bt_remove physical_id (og_ous og), og_attachments := bt_remove physical_id (og_attachments og)\<rparr>)"

definition cfn_tags :: "json \<Rightarrow> (string \<times> string) list" where
  "cfn_tags props =
     List.map_filter (\<lambda>t. map_option (\<lambda>k. (k, unwrap_or (org_str t ''Value'') [])) (org_str t ''Key''))
       (unwrap_or (Option.bind (json_get props ''Tags'') as_array) [])"

definition account_attributes :: "cfn_env \<Rightarrow> member_account \<Rightarrow> (string \<times> string) list" where
  "account_attributes cf a =
     [(''Arn'', ac_arn a), (''JoinedMethod'', ac_joined_method a), (''JoinedTimestamp'', cf_rfc3339 cf (ac_joined_timestamp a)),
      (''Status'', ac_status a)]"

text \<open>The move to the first of \<^verbatim>\<open>ParentIds\<close>.\<close>

definition move_to_parent ::
  "cfn_env \<Rightarrow> json \<Rightarrow> string \<Rightarrow> organization_state \<Rightarrow> (string + unit) \<times> organization_state" where
  "move_to_parent cf props acct og =
     (let source = unwrap_or (map_option ac_parent_id (map_of (og_accounts og) acct)) (og_root_id og)
      in case str_items (json_get props ''ParentIds'') of
           [] \<Rightarrow> (Inr (), og)
         | parent # _ \<Rightarrow>
             if parent = source then (Inr (), og)
             else
               (case org_move_account acct source parent og of
                  (Inl e, og') \<Rightarrow> (Inl (''Failed to move account to parent '' @ parent @ '': '' @ cf_debug cf e), og')
                | (Inr _, og') \<Rightarrow> (Inr (), og')))"

definition provision_account ::
  "org_env \<Rightarrow> cfn_env \<Rightarrow> json \<Rightarrow> string \<Rightarrow> string \<Rightarrow> string \<Rightarrow> organization_state \<Rightarrow> (string + provision_result) \<times> organization_state" where
  "provision_account env cf props email name new_id og =
     (let (pending, og1) = begin_create_account env email name new_id None og;
          (done, og2) = complete_create_account env (cs_id pending) og1
      in case cs_account_id (unwrap_or done pending) of
           None \<Rightarrow> (Inl ''create_account did not return an account id'', og2)
         | Some acct \<Rightarrow>
             (let attrs = (case map_of (og_accounts og2) acct of
                    Some a \<Rightarrow> account_attributes cf a
                  | None \<Rightarrow> [(''Arn'', []), (''JoinedMethod'', ''CREATED''), (''JoinedTimestamp'', []), (''Status'', ''ACTIVE'')]);
                  tags = cfn_tags props
              in case move_to_parent cf props acct og2 of
                   (Inl e, og3) \<Rightarrow> (Inl e, og3)
                 | (Inr _, og3) \<Rightarrow>
                     (Inr (provisioned acct ([(''AccountId'', acct), (''AccountName'', name), (''Email'', email)] @ attrs)),
                      if tags \<noteq> [] then set_resource_tags acct tags og3 else og3)))"

text \<open>\<open>None\<close> is the search for an account number that does not end.\<close>

definition cfn_create_account ::
  "org_env \<Rightarrow> cfn_env \<Rightarrow> json \<Rightarrow> organizations_registry \<Rightarrow> ((string + provision_result) \<times> organizations_registry) option" where
  "cfn_create_account env cf props reg =
     (case (org_str props ''Email'', org_str props ''AccountName'') of
        (None, _) \<Rightarrow> Some (Inl ''Email is required'', reg)
      | (Some email, None) \<Rightarrow> Some (Inl ''AccountName is required'', reg)
      | (Some email, Some name) \<Rightarrow>
          if org_of_account (cf_account_id cf) reg = None then Some (Inl ''Organization not yet created'', reg)
          else if email_in_use reg email
          then Some (Inl (''The email address '' @ email @ '' is already associated with an account''), reg)
          else
            Option.bind (next_account_id_besides env reg [] 0) (\<lambda>(acct, _).
              if email_reserved_for_other email acct
              then Some (Inl (''The email address '' @ email @ '' is reserved for another account''), reg)
              else Some (stack_org cf (provision_account env cf props email name acct) reg)))"

definition cfn_delete_account :: "cfn_env \<Rightarrow> string \<Rightarrow> organizations_registry \<Rightarrow> organizations_registry" where
  "cfn_delete_account cf physical_id = stack_org_if_any cf (\<lambda>og. snd (org_close_account physical_id og))"

definition content_text :: "org_env \<Rightarrow> json \<Rightarrow> string" where
  "content_text env v = (case as_str v of Some s \<Rightarrow> s | None \<Rightarrow> oe_print env v)"

definition drop_attachments :: "string \<Rightarrow> organization_state \<Rightarrow> organization_state" where
  "drop_attachments pid og = og\<lparr>og_attachments := map (\<lambda>(t, ids). (t, set_remove pid ids)) (og_attachments og)\<rparr>"

fun attach_all :: "string \<Rightarrow> string list \<Rightarrow> organization_state \<Rightarrow> (string + unit) \<times> organization_state" where
  "attach_all pid [] og = (Inr (), og)"
| "attach_all pid (t # ts) og =
     (case org_attach_policy pid t og of
        (Inl e, og') \<Rightarrow> (Inl (org_failure e), drop_attachments pid (og'\<lparr>og_policies := bt_remove pid (og_policies og')\<rparr>))
      | (Inr _, og') \<Rightarrow> attach_all pid ts og')"

definition cfn_create_policy :: "org_env \<Rightarrow> cfn_env \<Rightarrow> json \<Rightarrow> provision_result provision" where
  "cfn_create_policy env cf props reg =
     (let name = unwrap_or (org_str props ''Name'') (cf_name cf);
          description = unwrap_or (org_str props ''Description'') [];
          ptype = unwrap_or (org_str props ''Type'') scp_type;
          content = unwrap_or (map_option (content_text env) (json_get props ''Content'')) []
      in case check_create_policy_type ptype of
           Inl e \<Rightarrow> (Inl (aws_failure e), reg)
         | Inr _ \<Rightarrow>
             stack_org cf (\<lambda>og.
               case org_create_policy env name description content ptype og of
                 (Inl e, og') \<Rightarrow> (Inl (org_failure e), og')
               | (Inr p, og') \<Rightarrow>
                   (case attach_all (po_id p) (str_items (json_get props ''TargetIds'')) og' of
                      (Inl e, og'') \<Rightarrow> (Inl e, og'')
                    | (Inr _, og'') \<Rightarrow> (Inr (provisioned (po_id p) [(''Id'', po_id p), (''Arn'', po_arn p), (''Name'', name)]), og''))) reg)"

definition cfn_delete_policy :: "cfn_env \<Rightarrow> string \<Rightarrow> organizations_registry \<Rightarrow> organizations_registry" where
  "cfn_delete_policy cf physical_id =
     stack_org_if_any cf (\<lambda>og. drop_attachments physical_id (og\<lparr>og_policies := bt_remove physical_id (og_policies og)\<rparr>))"

definition cfn_create_resource_policy :: "org_env \<Rightarrow> cfn_env \<Rightarrow> json \<Rightarrow> provision_result provision" where
  "cfn_create_resource_policy env cf props reg =
     (case map_option (content_text env) (json_get props ''Content'') of
        None \<Rightarrow> (Inl ''Content is required'', reg)
      | Some content \<Rightarrow>
          if oe_parse env content = None then (Inl ''InvalidInputException: Content must be valid JSON'', reg)
          else
            stack_org cf (\<lambda>og.
              (Inr (provisioned (resource_policy_arn og) [(''Arn'', resource_policy_arn og), (''Id'', resource_policy_id)]),
               og\<lparr>og_resource_policy := Some content\<rparr>)) reg)"

definition cfn_delete_resource_policy :: "cfn_env \<Rightarrow> organizations_registry \<Rightarrow> organizations_registry" where
  "cfn_delete_resource_policy cf = stack_org_if_any cf (\<lambda>og. og\<lparr>og_resource_policy := None\<rparr>)"

section \<open>Updates in place\<close>

definition cfn_update_unit :: "cfn_env \<Rightarrow> string \<Rightarrow> json \<Rightarrow> provision_result provision" where
  "cfn_update_unit cf i props =
     stack_org cf (\<lambda>og.
       case map_of (og_ous og) i of
         None \<Rightarrow> (Inl (''Organizational unit '' @ i @ '' not yet provisioned''), og)
       | Some ou \<Rightarrow>
           (let ou' = ou\<lparr>ou_name := unwrap_or (org_str props ''Name'') (ou_name ou)\<rparr>
            in (Inr (provisioned i [(''Id'', i), (''Arn'', ou_arn ou'), (''Name'', ou_name ou')]),
                og\<lparr>og_ous := bt_modify i (\<lambda>_. ou') (og_ous og)\<rparr>)))"

definition cfn_update_account :: "cfn_env \<Rightarrow> string \<Rightarrow> json \<Rightarrow> provision_result provision" where
  "cfn_update_account cf acct props =
     stack_org cf (\<lambda>og.
       if \<not> has_member acct og then (Inl (''Account '' @ acct @ '' not yet provisioned''), og)
       else
         (case move_to_parent cf props acct og of
            (Inl e, og1) \<Rightarrow> (Inl e, og1)
          | (Inr _, og1) \<Rightarrow>
              (let og2 = set_resource_tags acct (cfn_tags props) og1
               in case map_of (og_accounts og2) acct of
                    None \<Rightarrow> (Inl (''Account '' @ acct @ '' vanished during update''), og2)
                  | Some a \<Rightarrow>
                      (Inr (provisioned acct ([(''AccountId'', acct), (''AccountName'', ac_name a), (''Email'', ac_email a)] @
                         account_attributes cf a)), og2))))"

definition cfn_update_policy :: "org_env \<Rightarrow> cfn_env \<Rightarrow> string \<Rightarrow> json \<Rightarrow> provision_result provision" where
  "cfn_update_policy env cf i props =
     (let description = unwrap_or (org_str props ''Description'') [];
          content = unwrap_or (map_option (content_text env) (json_get props ''Content'')) []
      in stack_org cf (\<lambda>og.
           case map_of (og_policies og) i of
             None \<Rightarrow> (Inl (''Policy '' @ i @ '' not yet provisioned''), og)
           | Some p \<Rightarrow>
               (let p' = p\<lparr>po_name := unwrap_or (org_str props ''Name'') (po_name p), po_description := description, po_content := content\<rparr>;
                    og1 = drop_attachments i (og\<lparr>og_policies := bt_modify i (\<lambda>_. p') (og_policies og)\<rparr>);
                    attached = fold (\<lambda>t m. bt_insert t (set_insert i (unwrap_or (map_of m t) [])) m)
                      (str_items (json_get props ''TargetIds'')) (og_attachments og1)
                in (Inr (provisioned i [(''Id'', i), (''Arn'', po_arn p'), (''Name'', po_name p')]), og1\<lparr>og_attachments := attached\<rparr>))))"

end
