(* ===== verification/Org_Server.thy ===== *)
theory Org_Server
  imports Org_Handshakes Org_Resolver Org_Provisioning
begin

text \<open>
  The dispatch of AWS Organizations (\<^verbatim>\<open>handle\<close> in \<^verbatim>\<open>fakecloud-organizations/src/service/mod.rs\<close>) and the
  server around it as a step relation: requests, the background completion of account creations, the
  routes that bypass the API, stacks that provision organization resources, and restarts from the
  last snapshot. The observers of membership changes are not modelled.

  A request that does not return (a search for an account number that never ends, a walk up a
  cyclic tree, a panic) is \<open>None\<close>, and takes no step.
\<close>

definition org_is_mutating :: "string \<Rightarrow> bool" where
  "org_is_mutating act \<longleftrightarrow> \<not> (starts_with act ''Describe'' \<or> starts_with act ''List'')"

text \<open>The handlers that always return, by action.\<close>

definition org_handlers :: "org_env \<Rightarrow> aws_request \<Rightarrow> (string \<times> (organizations_registry, aws_response) handler) list" where
  "org_handlers env req =
     [(''CreateOrganization'', create_organization env req),
      (''DescribeOrganization'', describe_organization req),
      (''DeleteOrganization'', delete_organization req),
      (''ListRoots'', list_roots req),
      (''CreateOrganizationalUnit'', create_organizational_unit env req),
      (''UpdateOrganizationalUnit'', update_organizational_unit env req),
      (''DeleteOrganizationalUnit'', delete_organizational_unit env req),
      (''DescribeOrganizationalUnit'', describe_organizational_unit env req),
      (''ListOrganizationalUnitsForParent'', list_organizational_units_for_parent env req),
      (''ListAccounts'', list_accounts env req),
      (''ListAccountsForParent'', list_accounts_for_parent env req),
      (''DescribeAccount'', describe_account env req),
      (''MoveAccount'', move_account env req),
      (''CreatePolicy'', create_policy env req),
      (''UpdatePolicy'', update_policy env req),
      (''DeletePolicy'', delete_policy env req),
      (''DescribePolicy'', describe_policy env req),
      (''ListPolicies'', list_policies env req),
      (''AttachPolicy'', attach_policy env req),
      (''DetachPolicy'', detach_policy env req),
      (''ListPoliciesForTarget'', list_policies_for_target env req),
      (''DescribeCreateAccountStatus'', describe_create_account_status env req),
      (''ListCreateAccountStatus'', list_create_account_status env req),
      (''CloseAccount'', close_account env req),
      (''RemoveAccountFromOrganization'', remove_account_from_organization env req),
      (''InviteAccountToOrganization'', invite_account_to_organization env req),
      (''AcceptHandshake'', accept_handshake env req),
      (''DeclineHandshake'', decline_handshake env req),
      (''CancelHandshake'', cancel_handshake env req),
      (''DescribeHandshake'', describe_handshake env req),
      (''ListHandshakesForAccount'', list_handshakes_for_account env req),
      (''ListHandshakesForOrganization'', list_handshakes_for_organization env req),
      (''EnableAWSServiceAccess'', enable_aws_service_access env req),
      (''DisableAWSServiceAccess'', disable_aws_service_access env req),
      (''ListAWSServiceAccessForOrganization'', list_aws_service_access_for_organization env req),
      (''RegisterDelegatedAdministrator'', register_delegated_administrator env req),
      (''DeregisterDelegatedAdministrator'', deregister_delegated_administrator env req),
      (''ListDelegatedAdministrators'', list_delegated_administrators env req),
      (''ListDelegatedServicesForAccount'', list_delegated_services_for_account env req),
      (''EnableAllFeatures'', enable_all_features req),
      (''EnablePolicyType'', enable_policy_type env req),
      (''DisablePolicyType'', disable_policy_type env req),
      (''TagResource'', tag_resource env req),
      (''UntagResource'', untag_resource env req),
      (''ListTagsForResource'', list_tags_for_resource env req),
      (''ListParents'', list_parents env req),
      (''ListChildren'', list_children env req),
      (''PutResourcePolicy'', put_resource_policy env req),
      (''DeleteResourcePolicy'', delete_resource_policy req),
      (''DescribeResourcePolicy'', describe_resource_policy req),
      (''LeaveOrganization'', leave_organization req),
      (''ListAccountsWithInvalidEffectivePolicy'', list_accounts_with_invalid_effective_policy env req),
      (''ListEffectivePolicyValidationErrors'', list_effective_policy_validation_errors env req),
      (''InviteOrganizationToTransferResponsibility'', invite_organization_to_transfer_responsibility env req),
      (''DescribeResponsibilityTransfer'', describe_responsibility_transfer env req),
      (''UpdateResponsibilityTransfer'', update_responsibility_transfer env req),
      (''TerminateResponsibilityTransfer'', terminate_responsibility_transfer env req),
      (''ListInboundResponsibilityTransfers'', list_responsibility_transfers env False req),
      (''ListOutboundResponsibilityTransfers'', list_responsibility_transfers env True req)]"

text \<open>The answer, the requests whose completion is spawned, and the registry.\<close>

type_synonym org_served = "(service_error + aws_response) \<times> string list \<times> organizations_registry"

fun of_creation :: "(service_error + aws_response \<times> string) \<times> organizations_registry \<Rightarrow> org_served" where
  "of_creation (Inl e, reg) = (Inl e, [], reg)"
| "of_creation (Inr (r, rid), reg) = (Inr r, [rid], reg)"

definition org_dispatch :: "org_env \<Rightarrow> aws_request \<Rightarrow> organizations_registry \<Rightarrow> org_served option" where
  "org_dispatch env req reg =
     (let act = req_action req
      in if act = ''CreateAccount'' then map_option of_creation (create_account env req reg)
         else if act = ''CreateGovCloudAccount'' then map_option of_creation (create_gov_cloud_account env req reg)
         else if act = ''ListTargetsForPolicy'' then map_option (\<lambda>r. (r, [], reg)) (list_targets_for_policy env req reg)
         else if act = ''DescribeEffectivePolicy'' then map_option (\<lambda>r. (r, [], reg)) (describe_effective_policy env req reg)
         else
           (case map_of (org_handlers env req) act of
              Some h \<Rightarrow> (case h reg of (r, reg') \<Rightarrow> Some (r, [], reg'))
            | None \<Rightarrow> Some (Inl (ActionNotImplemented ''organizations'' act), [], reg)))"

section \<open>The server\<close>

record org_server =
  os_registry :: organizations_registry
  os_disk :: organizations_registry
  os_pending :: "string list"

definition expire_first :: "org_env \<Rightarrow> organizations_registry \<Rightarrow> nat \<times> organizations_registry" where
  "expire_first env reg =
     (if has_stale_handshakes (oe_now env) reg then expire_stale_handshakes env reg else (0, reg))"

definition org_handle :: "org_env \<Rightarrow> aws_request \<Rightarrow> org_server \<Rightarrow> ((service_error + aws_response) \<times> org_server) option" where
  "org_handle env req srv =
     (let (expired, reg1) = expire_first env (os_registry srv)
      in map_option (\<lambda>(r, spawned, reg2).
           (r, \<lparr>os_registry = reg2,
                os_disk = (if 0 < expired \<or> org_is_mutating (req_action req) \<and> (case r of Inr resp \<Rightarrow> is_success resp | Inl _ \<Rightarrow> False) then reg2 else os_disk srv),
                os_pending = os_pending srv @ spawned\<rparr>))
           (org_dispatch env req reg1))"

definition org_tick :: "org_env \<Rightarrow> string \<Rightarrow> org_server \<Rightarrow> org_server" where
  "org_tick env rid srv =
     (let (finished, reg) = completion_tick env rid (os_registry srv)
      in \<lparr>os_registry = reg, os_disk = (if finished then reg else os_disk srv), os_pending = remove1 rid (os_pending srv)\<rparr>)"

definition rearm_in_progress_account_creations :: "organizations_registry \<Rightarrow> string list" where
  "rearm_in_progress_account_creations reg =
     map fst (filter (\<lambda>e. cs_state (snd e) = ''IN_PROGRESS'') (all_requests reg))"

definition org_restart :: "org_server \<Rightarrow> org_server" where
  "org_restart srv =
     (let reg = into_registry None (os_disk srv)
      in srv\<lparr>os_registry := reg, os_pending := rearm_in_progress_account_creations reg\<rparr>)"

text \<open>The part of \<^verbatim>\<open>create_admin_in_account\<close> that touches organizations; \<open>None\<close> is its error.\<close>

definition enroll_admin :: "org_env \<Rightarrow> string \<Rightarrow> string \<Rightarrow> organizations_registry \<Rightarrow> organizations_registry option" where
  "enroll_admin env acct oid reg =
     (if map_of reg oid = None then None
      else if claimed_by_other_org reg acct oid \<noteq> None then None
      else Some (bt_modify oid (enroll_account_if_missing env acct) reg))"

definition org_admin :: "org_env \<Rightarrow> string \<Rightarrow> string \<Rightarrow> org_server \<Rightarrow> org_server" where
  "org_admin env acct oid srv =
     (let was_member = is_some_and (map_of (os_registry srv) oid) (has_member acct)
      in case enroll_admin env acct oid (os_registry srv) of
           None \<Rightarrow> srv
         | Some reg \<Rightarrow> srv\<lparr>os_registry := reg, os_disk := (if was_member then os_disk srv else reg)\<rparr>)"

definition introspect_transfers :: "org_env \<Rightarrow> org_server \<Rightarrow> org_server" where
  "introspect_transfers env srv = srv\<lparr>os_registry := snd (expire_first env (os_registry srv))\<rparr>"

end
