(* ===== verification/Org_Facts.thy ===== *)
theory Org_Facts
  imports Org_Server
begin

text \<open>
  What the operations of AWS Organizations may change. \<open>steady J C\<close> relates two states of one
  organization: only accounts of \<open>J\<close> have joined, only those of \<open>C\<close> have been claimed (joined or been
  reserved by a pending creation), and a sound tree and sound attachments stay so. It is a preorder,
  so the locale \<open>handler_preorder\<close> carries it through every handler, and \<open>all_within\<close> lifts it to the
  registry (\<open>org_preorder\<close>).
\<close>

named_theorems stays_intros \<open>handlers that stay within a preorder\<close>
named_theorems steady_ops \<open>operations of an organization that are steady\<close>

section \<open>Handlers and preorders\<close>

definition stays :: "('s \<Rightarrow> 's \<Rightarrow> bool) \<Rightarrow> ('s, 'a) handler \<Rightarrow> bool" where
  "stays R h \<longleftrightarrow> (\<forall>s. R s (snd (h s)))"

locale handler_preorder =
  fixes R :: "'s \<Rightarrow> 's \<Rightarrow> bool"
  assumes R_refl: "R s s"
    and R_trans: "R s t \<Longrightarrow> R t u \<Longrightarrow> R s u"
begin

lemma stays_ok: "stays R (h_ok x)" "stays R (h_err e)" "stays R (h_lift r)" "stays R (h_read f)" "stays R (h_done v)"
  by (simp_all add: stays_def R_refl h_read_def h_done_def)

lemma stays_update: "(\<And>s. R s (g s)) \<Longrightarrow> stays R (h_update g)"
  by (simp add: stays_def h_update_def)

lemma stays_bind:
  assumes "stays R m" and "\<And>x. stays R (f x)"
  shows "stays R (h_bind m f)"
proof -
  have "R s (snd (h_bind m f s))" for s
  proof (cases "m s")
    case (Pair r t)
    then have "R s t" using assms(1) unfolding stays_def by (metis snd_conv)
    then show ?thesis
      using Pair assms(2) R_trans by (cases r) (auto simp: h_bind_def stays_def)
  qed
  then show ?thesis by (simp add: stays_def)
qed

lemma stays_with_str: "(\<And>x. stays R (f x)) \<Longrightarrow> stays R (with_str body key f)"
  unfolding with_str_def by (intro stays_bind stays_ok)

lemma stays_if: "(c \<Longrightarrow> stays R f) \<Longrightarrow> (\<not> c \<Longrightarrow> stays R g) \<Longrightarrow> stays R (if c then f else g)"
  by simp

lemmas stays_rules = stays_ok stays_bind stays_with_str stays_update

end

section \<open>Accounts an organization claims\<close>

definition members :: "organization_state \<Rightarrow> string set" where
  "members og = fst ` set (og_accounts og)"

definition claims :: "organization_state \<Rightarrow> string set" where
  "claims og = members og \<union> {a. in_flight a og}"

lemma has_member_iff: "has_member a og \<longleftrightarrow> a \<in> members og"
  by (simp add: has_member_def members_def map_of_eq_None_iff)

lemma in_flight_iff:
  "in_flight a og \<longleftrightarrow> (\<exists>e \<in> set (og_create_account_requests og). cs_state (snd e) = ''IN_PROGRESS'' \<and> reserves a (snd e))"
  by (simp add: in_flight_def list_ex_iff)

lemma members_claims: "members og \<subseteq> claims og"
  by (auto simp: claims_def)

section \<open>The tree of units\<close>

inductive reaches :: "organizational_unit smap \<Rightarrow> string \<Rightarrow> string \<Rightarrow> bool" for ous rt where
  reaches_top: "reaches ous rt rt"
| reaches_unit: "map_of ous i = Some ou \<Longrightarrow> reaches ous rt (ou_parent_id ou) \<Longrightarrow> reaches ous rt i"

lemma reaches_mono:
  assumes "reaches ous rt i"
    and "\<And>k ou. map_of ous k = Some ou \<Longrightarrow> \<exists>ou'. map_of ous' k = Some ou' \<and> ou_parent_id ou' = ou_parent_id ou"
  shows "reaches ous' rt i"
  using assms(1)
proof induction
  case (reaches_unit i ou)
  from assms(2) [OF reaches_unit(1)] obtain ou'
    where "map_of ous' i = Some ou'" "ou_parent_id ou' = ou_parent_id ou" by blast
  with reaches_unit(3) show ?case by (auto intro: reaches.reaches_unit)
qed (rule reaches.reaches_top)

lemma reaches_remove:
  assumes "reaches ous rt i" and "i \<noteq> x"
    and "\<And>k ou. map_of ous k = Some ou \<Longrightarrow> ou_parent_id ou \<noteq> x"
  shows "reaches (bt_remove x ous) rt i"
  using assms(1,2)
proof induction
  case (reaches_unit i ou)
  then have "map_of (bt_remove x ous) i = Some ou" by (simp add: map_of_bt_remove)
  moreover have "reaches (bt_remove x ous) rt (ou_parent_id ou)"
    using reaches_unit(3) assms(3) [OF reaches_unit(1)] by simp
  ultimately show ?case by (rule reaches.reaches_unit)
qed (rule reaches.reaches_top)

definition tree_ok :: "organization_state \<Rightarrow> bool" where
  "tree_ok og \<longleftrightarrow>
     starts_with (og_root_id og) ''r-'' \<and>
     (\<forall>k ou. map_of (og_ous og) k = Some ou \<longrightarrow>
        starts_with k ''ou-'' \<and> reaches (og_ous og) (og_root_id og) (ou_parent_id ou)) \<and>
     (\<forall>e \<in> set (og_accounts og). reaches (og_ous og) (og_root_id og) (ac_parent_id (snd e)))"

definition targets_ok :: "organization_state \<Rightarrow> bool" where
  "targets_ok og \<longleftrightarrow> (\<forall>t \<in> fst ` set (og_attachments og). target_exists og t)"

lemma target_exists_attachments [simp]: "target_exists (og\<lparr>og_attachments := m\<rparr>) t = target_exists og t"
  by (simp add: target_exists_def)

definition steady :: "string set \<Rightarrow> string set \<Rightarrow> organization_state \<Rightarrow> organization_state \<Rightarrow> bool" where
  "steady J C og og' \<longleftrightarrow>
     og_id og' = og_id og \<and> members og' \<subseteq> members og \<union> J \<and> claims og' \<subseteq> claims og \<union> C \<and>
     (tree_ok og \<longrightarrow> tree_ok og') \<and> (targets_ok og \<longrightarrow> targets_ok og')"

interpretation st: handler_preorder "steady J C" for J C
  by unfold_locales (auto simp: steady_def)

lemma steady_unchanged:
  assumes "og_id og' = og_id og" "og_root_id og' = og_root_id og" "og_ous og' = og_ous og" "og_accounts og' = og_accounts og"
    and "og_create_account_requests og' = og_create_account_requests og" "og_attachments og' = og_attachments og"
  shows "steady J C og og'"
  using assms by (auto simp: steady_def members_def claims_def in_flight_def tree_ok_def targets_ok_def target_exists_def)

section \<open>The operations of an organization\<close>

lemma set_bt_insert: "set (bt_insert k v m) \<subseteq> insert (k, v) (set m)"
  by (induction m) auto

lemma bt_insertD: "e \<in> set (bt_insert k v m) \<Longrightarrow> e = (k, v) \<or> e \<in> set m"
  using set_bt_insert [of k v m] by blast

lemma new_member_parent [simp]:
  "ac_parent_id (invited_member env acct a email root_id) = root_id"
  "ac_parent_id (created_member env acct a email name mirror root_id) = root_id"
  by (simp_all add: invited_member_def created_member_def)

lemma set_bt_modify: "e \<in> set (bt_modify k f m) \<Longrightarrow> e \<in> set m \<and> fst e \<noteq> k \<or> (\<exists>v. (k, v) \<in> set m \<and> e = (k, f v))"
  by (auto simp: bt_modify_def split: if_splits)

lemma fst_set_bt_modify: "fst ` set (bt_modify k f m) = fst ` set m"
  by (metis list.set_map map_fst_bt_modify)

lemma set_bt_remove: "set (bt_remove k m) = {e \<in> set m. fst e \<noteq> k}"
  by (auto simp: bt_remove_def)

lemma map_of_Some_fst: "k \<in> fst ` set m \<Longrightarrow> map_of m k \<noteq> None"
  by (simp add: map_of_eq_None_iff)

lemmas org_writes_nothing_else =
  set_resource_tags_def org_untag_resource_def org_enable_all_features_def org_enable_policy_type_def
  org_disable_policy_type_def org_enable_service_access_def org_disable_service_access_def
  org_register_delegated_def org_deregister_delegated_def org_create_policy_def org_update_policy_def
  org_delete_policy_def org_invite_account_def open_transfer_def put_transfer_def settle_transfer_def Let_def

lemma steady_set_resource_tags [steady_ops]: "steady J C og (set_resource_tags res tags og)"
  by (rule steady_unchanged) (simp_all add: org_writes_nothing_else)

lemma steady_tag_created [steady_ops]: "steady J C og (tag_created body res og)"
  by (simp add: tag_created_def Let_def steady_set_resource_tags st.R_refl)

lemma steady_untag [steady_ops]: "steady J C og (org_untag_resource res tag_keys og)"
  by (rule steady_unchanged) (simp_all add: org_writes_nothing_else)

lemma steady_enable [steady_ops]:
  "steady J C og (org_enable_all_features og)" "steady J C og (org_enable_policy_type t og)"
  "steady J C og (org_enable_service_access env sp og)" "steady J C og (og\<lparr>og_resource_policy := p\<rparr>)"
  by (rule steady_unchanged; simp add: org_writes_nothing_else)+

lemma steady_quiet_ops [steady_ops]:
  "steady J C og (snd (org_disable_policy_type t og))"
  "steady J C og (snd (org_disable_service_access sp og))"
  "steady J C og (snd (org_register_delegated env acct sp og))"
  "steady J C og (snd (org_deregister_delegated acct sp og))"
  "steady J C og (snd (org_create_policy env name description content ptype og))"
  "steady J C og (snd (org_delete_policy pid og))"
  "steady J C og (snd (org_invite_account env source kind target target_email notes og))"
  by (rule steady_unchanged; simp add: org_writes_nothing_else split: option.split)+

lemma steady_update_policy [steady_ops]:
  "steady J C og (snd (org_update_policy env pid name description content og))"
  by (rule steady_unchanged; simp add: org_update_policy_def Let_def split: option.split)

lemma steady_open_transfer: "steady J C og (snd (open_transfer env ttype name start kind i notes og))"
  by (rule steady_unchanged) (simp_all add: open_transfer_def Let_def)

lemma steady_put_transfer: "steady J C og (put_transfer i t og)"
  by (rule steady_unchanged) (simp_all add: put_transfer_def)

lemma steady_settle: "steady J C og (settle_transfer env hid new_state og)"
  by (rule steady_unchanged) (simp_all add: settle_transfer_def Let_def split: option.split prod.split)

subsection \<open>Accounts and attachments\<close>

lemma steady_close_account [steady_ops]: "steady J C og (snd (org_close_account acct og))"
proof (cases "acct = og_management_account_id og \<or> map_of (og_accounts og) acct = None")
  case False
  let ?og = "og\<lparr>og_accounts := bt_modify acct (\<lambda>a. a\<lparr>ac_status := ''SUSPENDED''\<rparr>) (og_accounts og)\<rparr>"
  have "members ?og = members og" by (simp add: members_def fst_set_bt_modify)
  moreover from this have "claims ?og = claims og" by (simp add: claims_def in_flight_def)
  moreover have "tree_ok og \<Longrightarrow> tree_ok ?og"
    unfolding tree_ok_def by (auto dest!: set_bt_modify)
  moreover have "targets_ok og \<Longrightarrow> targets_ok ?og"
    by (auto simp: targets_ok_def target_exists_def map_of_bt_modify)
  ultimately show ?thesis using False by (simp add: org_close_account_def steady_def)
qed (auto simp: org_close_account_def st.R_refl)

lemma steady_remove_account [steady_ops]: "steady J C og (snd (org_remove_account acct og))"
proof (cases "acct = og_management_account_id og \<or> map_of (og_accounts og) acct = None")
  case False
  let ?og = "snd (org_remove_account acct og)"
  have fields: "og_id ?og = og_id og" "og_root_id ?og = og_root_id og" "og_ous ?og = og_ous og"
    "og_accounts ?og = bt_remove acct (og_accounts og)" "og_attachments ?og = bt_remove acct (og_attachments og)"
    "og_create_account_requests ?og = og_create_account_requests og"
    using False by (auto simp: org_remove_account_def)
  then have "members ?og \<subseteq> members og" by (auto simp: members_def set_bt_remove)
  moreover from this fields have "claims ?og \<subseteq> claims og" by (auto simp: claims_def in_flight_def)
  moreover have "tree_ok og \<Longrightarrow> tree_ok ?og" by (auto simp: tree_ok_def fields set_bt_remove)
  moreover have "targets_ok og \<Longrightarrow> targets_ok ?og"
    by (auto simp: targets_ok_def target_exists_def fields set_bt_remove map_of_bt_remove)
  ultimately show ?thesis using fields by (auto simp: steady_def)
qed (auto simp: org_remove_account_def st.R_refl)

lemma steady_add_account:
  assumes "og_id og' = og_id og" "og_root_id og' = og_root_id og" "og_ous og' = og_ous og" "og_attachments og' = og_attachments og"
    and "og_create_account_requests og' = og_create_account_requests og"
    and accts: "og_accounts og' = bt_insert acct a (og_accounts og)"
    and a: "ac_parent_id a = og_root_id og"
  shows "steady {acct} {acct} og og'"
proof -
  have "members og' = insert acct (members og)" by (simp add: members_def accts fst_set_bt_insert)
  moreover from this have "claims og' \<subseteq> insert acct (claims og)"
    using assms(5) by (auto simp: claims_def in_flight_def)
  moreover have "tree_ok og \<Longrightarrow> tree_ok og'"
    using set_bt_insert [of acct a "og_accounts og"] reaches.reaches_top a
    by (force simp: tree_ok_def accts assms(1-5))
  moreover have "targets_ok og \<Longrightarrow> targets_ok og'"
    by (auto simp: targets_ok_def target_exists_def assms(1-5) accts map_of_bt_insert)
  ultimately show ?thesis using assms(1) by (auto simp: steady_def)
qed

lemma steady_weaken: "steady J C og og' \<Longrightarrow> J \<subseteq> J' \<Longrightarrow> C \<subseteq> C' \<Longrightarrow> steady J' C' og og'"
  by (auto simp: steady_def)

lemma steady_enroll: "steady {acct} {acct} og (enroll_account_if_missing env acct og)"
  by (cases "map_of (og_accounts og) acct")
    (auto simp: enroll_account_if_missing_def invited_member_def st.R_refl intro!: steady_add_account)

lemma steady_attach [steady_ops]: "steady J C og (snd (org_attach_policy pid target og))"
proof (cases "map_of (og_policies og) pid = None \<or> \<not> target_exists og target")
  case False
  let ?ids = "set_insert pid (unwrap_or (map_of (og_attachments og) target) [])"
  have "targets_ok og \<Longrightarrow> targets_ok (og\<lparr>og_attachments := bt_insert target ?ids (og_attachments og)\<rparr>)"
    using False by (simp add: targets_ok_def fst_set_bt_insert)
  with False show ?thesis
    by (auto simp: org_attach_policy_def steady_def members_def claims_def in_flight_def tree_ok_def)
qed (auto simp: org_attach_policy_def st.R_refl)

lemma steady_attachments:
  assumes "fst ` set m \<subseteq> fst ` set (og_attachments og)"
  shows "steady J C og (og\<lparr>og_attachments := m\<rparr>)"
proof -
  have "targets_ok (og\<lparr>og_attachments := m\<rparr>)" if ok: "targets_ok og"
    unfolding targets_ok_def target_exists_attachments
  proof
    fix t
    assume "t \<in> fst ` set (og_attachments (og\<lparr>og_attachments := m\<rparr>))"
    then have "t \<in> fst ` set m" by simp
    with assms have "t \<in> fst ` set (og_attachments og)" by (rule subsetD)
    with ok show "target_exists og t" unfolding targets_ok_def by (rule bspec)
  qed
  then show ?thesis by (simp add: steady_def members_def claims_def in_flight_def tree_ok_def)
qed

lemma steady_detach [steady_ops]: "steady J C og (snd (org_detach_policy pid target og))"
proof -
  have ins: "steady J C og (og\<lparr>og_attachments := bt_insert target ids (og_attachments og)\<rparr>)"
    if "map_of (og_attachments og) target = Some old" for ids old
    using that by (intro steady_attachments) (auto simp: fst_set_bt_insert rev_image_eqI dest: map_of_SomeD)
  have rem: "steady J C og (og\<lparr>og_attachments := bt_remove target (og_attachments og)\<rparr>)"
    by (intro steady_attachments) (auto simp: set_bt_remove)
  show ?thesis
    by (simp add: org_detach_policy_def Let_def st.R_refl ins rem split: option.split)
qed

subsection \<open>Units\<close>

definition drawn_unit :: "org_env \<Rightarrow> organization_state \<Rightarrow> string" where
  "drawn_unit env og = ''ou-'' @ unwrap_or (strip_prefix (og_root_id og) ''r-'') (og_root_id og) @ ''-'' @ random_id env 0 8"

text \<open>The units of two states agree on parents, up to added ones.\<close>

lemma tree_ok_units:
  assumes tree: "tree_ok og"
    and same: "og_root_id og' = og_root_id og" "og_accounts og' = og_accounts og"
    and old: "\<And>k ou. map_of (og_ous og) k = Some ou \<Longrightarrow> \<exists>ou'. map_of (og_ous og') k = Some ou' \<and> ou_parent_id ou' = ou_parent_id ou"
    and new: "\<And>k ou. map_of (og_ous og') k = Some ou \<Longrightarrow>
      starts_with k ''ou-'' \<and> reaches (og_ous og) (og_root_id og) (ou_parent_id ou)"
  shows "tree_ok og'"
proof -
  have up: "reaches (og_ous og') (og_root_id og) i" if "reaches (og_ous og) (og_root_id og) i" for i
    using that old by (rule reaches_mono)
  show ?thesis
    using tree new up unfolding tree_ok_def same by blast
qed

lemma steady_units:
  assumes "og_id og' = og_id og" "og_root_id og' = og_root_id og" "og_accounts og' = og_accounts og"
    and "og_create_account_requests og' = og_create_account_requests og" "og_attachments og' = og_attachments og"
    and dom: "\<And>k. map_of (og_ous og) k \<noteq> None \<Longrightarrow> map_of (og_ous og') k \<noteq> None"
    and tree: "tree_ok og \<Longrightarrow> tree_ok og'"
  shows "steady J C og og'"
proof -
  have "target_exists og t \<Longrightarrow> target_exists og' t" for t
    using dom [of t] unfolding target_exists_def assms(1-3) by blast
  then have "targets_ok og \<Longrightarrow> targets_ok og'"
    unfolding targets_ok_def assms(5) by blast
  then show ?thesis using tree assms(1-4) by (simp add: steady_def members_def claims_def in_flight_def)
qed

lemma parent_reaches:
  assumes "tree_ok og" and "parent = og_root_id og \<or> map_of (og_ous og) parent \<noteq> None"
  shows "reaches (og_ous og) (og_root_id og) parent"
  using assms by (auto simp: tree_ok_def intro: reaches.intros)

lemma steady_create_ou:
  assumes "map_of (og_ous og) (drawn_unit env og) = None"
  shows "steady J C og (snd (org_create_ou env parent name og))"
proof -
  let ?ou = "\<lparr>ou_id = drawn_unit env og, ou_arn = resource_arn og (''ou/'' @ og_id og @ ''/'' @ drawn_unit env og),
    ou_name = name, ou_parent_id = parent\<rparr>"
  let ?og = "og\<lparr>og_ous := bt_insert (drawn_unit env og) ?ou (og_ous og)\<rparr>"
  have "steady J C og ?og" if ok: "parent = og_root_id og \<or> map_of (og_ous og) parent \<noteq> None"
  proof (rule steady_units)
    assume tree: "tree_ok og"
    show "tree_ok ?og"
    proof (rule tree_ok_units [OF tree])
      fix k ou
      assume "map_of (og_ous og) k = Some ou"
      with assms have "k \<noteq> drawn_unit env og" by auto
      with \<open>map_of (og_ous og) k = Some ou\<close>
      show "\<exists>ou'. map_of (og_ous ?og) k = Some ou' \<and> ou_parent_id ou' = ou_parent_id ou"
        by (simp add: map_of_bt_insert)
    next
      fix k ou
      assume k: "map_of (og_ous ?og) k = Some ou"
      have "starts_with (drawn_unit env og) ''ou-''" by (simp add: drawn_unit_def starts_with_def)
      then show "starts_with k ''ou-'' \<and> reaches (og_ous og) (og_root_id og) (ou_parent_id ou)"
        using k tree parent_reaches [OF tree ok] by (auto simp: map_of_bt_insert tree_ok_def split: if_splits)
    qed simp_all
  qed (simp_all add: map_of_bt_insert)
  then show ?thesis
    unfolding org_create_ou_def Let_def drawn_unit_def [symmetric] by (auto simp: st.R_refl)
qed

lemma steady_rename_ou [steady_ops]: "steady J C og (snd (org_rename_ou i new_name og))"
proof -
  have "steady J C og (og\<lparr>og_ous := bt_modify i (\<lambda>_. ou\<lparr>ou_name := new_name\<rparr>) (og_ous og)\<rparr>)"
    if ou: "map_of (og_ous og) i = Some ou" for ou
  proof (rule steady_units)
    assume tree: "tree_ok og"
    show "tree_ok (og\<lparr>og_ous := bt_modify i (\<lambda>_. ou\<lparr>ou_name := new_name\<rparr>) (og_ous og)\<rparr>)"
      by (rule tree_ok_units [OF tree]) (use tree ou in \<open>auto simp: tree_ok_def map_of_bt_modify split: if_splits\<close>)
  qed (auto simp: map_of_bt_modify ou)
  then show ?thesis by (auto simp: org_rename_ou_def st.R_refl split: option.split)
qed

lemma steady_delete_ou [steady_ops]: "steady J C og (snd (org_delete_ou i og))"
proof -
  let ?og = "og\<lparr>og_attachments := bt_remove i (og_attachments og), og_ous := bt_remove i (og_ous og)\<rparr>"
  have "steady J C og ?og"
    if units: "\<not> list_ex (\<lambda>ou. ou_parent_id ou = i) (map snd (og_ous og))"
      and accts: "\<not> list_ex (\<lambda>a. ac_parent_id a = i) (map snd (og_accounts og))"
  proof -
    have p: "ou_parent_id ou \<noteq> i" if "map_of (og_ous og) k = Some ou" for k ou
      using units map_of_SomeD [OF that] by (force simp: list_ex_iff)
    have a: "ac_parent_id (snd e) \<noteq> i" if "e \<in> set (og_accounts og)" for e
      using accts that by (auto simp: list_ex_iff)
    have up: "reaches (bt_remove i (og_ous og)) (og_root_id og) j" if "reaches (og_ous og) (og_root_id og) j" "j \<noteq> i" for j
      using that p by (rule reaches_remove)
    have "tree_ok ?og" if "tree_ok og"
      using that p a up by (auto simp: tree_ok_def map_of_bt_remove)
    moreover have "targets_ok ?og" if "targets_ok og"
      using that by (auto simp: targets_ok_def target_exists_def set_bt_remove map_of_bt_remove)
    ultimately show ?thesis by (simp add: steady_def members_def claims_def in_flight_def)
  qed
  then show ?thesis by (simp add: org_delete_ou_def st.R_refl)
qed

lemma steady_move_account [steady_ops]: "steady J C og (snd (org_move_account acct source dest og))"
proof -
  let ?og = "og\<lparr>og_accounts := bt_modify acct (\<lambda>a. a\<lparr>ac_parent_id := dest\<rparr>) (og_accounts og)\<rparr>"
  have "steady J C og ?og" if dest: "dest = og_root_id og \<or> map_of (og_ous og) dest \<noteq> None"
  proof -
    have "members ?og = members og" by (simp add: members_def fst_set_bt_modify)
    moreover from this have "claims ?og = claims og" by (simp add: claims_def in_flight_def)
    moreover have "tree_ok og \<Longrightarrow> tree_ok ?og"
      using parent_reaches [OF _ dest] unfolding tree_ok_def by (auto dest!: set_bt_modify)
    moreover have "targets_ok og \<Longrightarrow> targets_ok ?og"
      by (auto simp: targets_ok_def target_exists_def map_of_bt_modify)
    ultimately show ?thesis by (simp add: steady_def)
  qed
  then show ?thesis by (auto simp: org_move_account_def st.R_refl split: option.split)
qed

subsection \<open>Account creation\<close>

lemma claims_requests:
  assumes "og_accounts og' = og_accounts og"
    and "\<And>e. e \<in> set (og_create_account_requests og') \<Longrightarrow> cs_state (snd e) = ''IN_PROGRESS'' \<Longrightarrow>
      e \<in> set (og_create_account_requests og) \<or> {a. reserves a (snd e)} \<subseteq> C"
  shows "claims og' \<subseteq> claims og \<union> C"
  using assms by (fastforce simp: claims_def members_def in_flight_iff)

lemma claims_subset:
  assumes acc: "\<And>e. e \<in> set (og_accounts og') \<Longrightarrow> fst e \<in> claims og"
    and req: "\<And>e. e \<in> set (og_create_account_requests og') \<Longrightarrow> cs_state (snd e) = ''IN_PROGRESS'' \<Longrightarrow>
      e \<in> set (og_create_account_requests og)"
  shows "claims og' \<subseteq> claims og"
proof
  fix a
  assume "a \<in> claims og'"
  then consider e where "e \<in> set (og_accounts og')" "a = fst e" | "in_flight a og'"
    unfolding claims_def members_def by blast
  then show "a \<in> claims og"
  proof cases
    case 2
    with req have "in_flight a og" unfolding in_flight_iff by blast
    then show ?thesis by (simp add: claims_def)
  qed (simp add: acc)
qed

lemma steady_begin_create:
  "steady J (insert acct (set_option gov)) og (snd (begin_create_account env email name acct gov og))"
proof -
  let ?og = "snd (begin_create_account env email name acct gov og)"
  have fields: "og_id ?og = og_id og" "og_root_id ?og = og_root_id og" "og_ous ?og = og_ous og" "og_accounts ?og = og_accounts og"
    "og_attachments ?og = og_attachments og"
    by (simp_all add: begin_create_account_def Let_def)
  have "claims ?og \<subseteq> claims og \<union> insert acct (set_option gov)"
  proof (rule claims_requests [OF fields(4)])
    fix e
    assume "e \<in> set (og_create_account_requests ?og)"
    then have "e \<in> set (og_create_account_requests og) \<or> e = (cs_id (fst (begin_create_account env email name acct gov og)),
        fst (begin_create_account env email name acct gov og))"
      using set_bt_insert by (fastforce simp: begin_create_account_def Let_def)
    then show "e \<in> set (og_create_account_requests og) \<or> {a. reserves a (snd e)} \<subseteq> insert acct (set_option gov)"
      by (auto simp: begin_create_account_def Let_def reserves_def)
  qed
  then show ?thesis
    using fields by (simp add: steady_def members_def tree_ok_def targets_ok_def target_exists_def)
qed

lemma steady_fail_create [steady_ops]: "steady J C og (snd (fail_create_account env rid reason og))"
proof -
  let ?og = "snd (fail_create_account env rid reason og)"
  have fields: "og_id ?og = og_id og" "og_root_id ?og = og_root_id og" "og_ous ?og = og_ous og" "og_accounts ?og = og_accounts og"
    "og_attachments ?og = og_attachments og"
    by (simp_all add: fail_create_account_def Let_def split: option.split)
  have "claims ?og \<subseteq> claims og \<union> {}"
    by (rule claims_requests [OF fields(4)])
      (auto simp: fail_create_account_def Let_def split: option.splits if_splits dest!: set_bt_modify)
  then show ?thesis
    using fields by (auto simp: steady_def members_def tree_ok_def targets_ok_def target_exists_def)
qed

lemma steady_complete_create: "steady UNIV {} og (snd (complete_create_account env rid og))"
proof (cases "map_of (og_create_account_requests og) rid")
  case (Some status)
  show ?thesis
  proof (cases "cs_state status = ''IN_PROGRESS''")
    case True
    show ?thesis
    proof (cases "cs_account_id status")
      case (Some acct)
      let ?og = "snd (complete_create_account env rid og)"
      have status: "(rid, status) \<in> set (og_create_account_requests og)"
        using \<open>map_of (og_create_account_requests og) rid = Some status\<close> by (rule map_of_SomeD)
      have fields: "og_id ?og = og_id og" "og_root_id ?og = og_root_id og" "og_ous ?og = og_ous og"
        "og_attachments ?og = og_attachments og"
        using Some True \<open>map_of _ rid = Some status\<close> by (simp_all add: complete_create_account_def Let_def)
      have acc: "e \<in> set (og_accounts og) \<or> in_flight (fst e) og \<and> ac_parent_id (snd e) = og_root_id og"
        if "e \<in> set (og_accounts ?og)" for e
      proof -
        have "in_flight acct og" "\<And>g. cs_gov_cloud_account_id status = Some g \<Longrightarrow> in_flight g og"
          using status True Some by (force simp: in_flight_iff reserves_def)+
        then show ?thesis
          using that Some True \<open>map_of _ rid = Some status\<close>
          by (auto simp: complete_create_account_def Let_def split: option.splits dest!: bt_insertD)
      qed
      have req: "e \<in> set (og_create_account_requests og)"
        if "e \<in> set (og_create_account_requests ?og)" "cs_state (snd e) = ''IN_PROGRESS''" for e
        using that Some True \<open>map_of _ rid = Some status\<close>
        by (auto simp: complete_create_account_def Let_def dest!: set_bt_modify)
      have "claims ?og \<subseteq> claims og"
        using acc req by (intro claims_subset) (auto simp: claims_def members_def)
      moreover have "tree_ok og \<Longrightarrow> tree_ok ?og"
        using acc reaches.reaches_top unfolding tree_ok_def fields by fastforce
      moreover have "target_exists og t \<Longrightarrow> target_exists ?og t" for t
        using Some True \<open>map_of _ rid = Some status\<close>
        by (auto simp: target_exists_def complete_create_account_def Let_def map_of_bt_insert split: option.split)
      ultimately show ?thesis using fields by (auto simp: steady_def targets_ok_def)
    qed (use True \<open>map_of _ rid = Some status\<close> in \<open>simp add: complete_create_account_def st.R_refl\<close>)
  qed (use Some in \<open>simp add: complete_create_account_def st.R_refl\<close>)
qed (simp add: complete_create_account_def st.R_refl)

subsection \<open>Handshakes\<close>

lemma steady_handshakes: "steady J C og (og\<lparr>og_handshakes := hs\<rparr>)"
  by (rule steady_unchanged) simp_all

lemma steady_resolve:
  assumes "\<And>h. map_of (og_handshakes og) hid = Some h \<Longrightarrow> new_state = ''ACCEPTED'' \<Longrightarrow> hs_action h = ''INVITE'' \<Longrightarrow> set_option enrolling \<subseteq> J"
  shows "steady J J og (snd (resolve_handshake env hid new_state enrolling email og))"
proof (cases "map_of (og_handshakes og) hid")
  case (Some h)
  let ?h = "h\<lparr>hs_state := new_state\<rparr>"
  let ?og1 = "og\<lparr>og_handshakes := bt_modify hid (\<lambda>_. ?h) (og_handshakes og)\<rparr>"
  let ?join = "if new_state = ''ACCEPTED'' \<and> hs_action ?h = ''INVITE''
    then opt_filter (\<lambda>t. map_of (og_accounts ?og1) t = None) enrolling else None"
  have joined: "steady J J ?og1 (case ?join of None \<Rightarrow> ?og1 | Some t \<Rightarrow> ?og1\<lparr>og_accounts := bt_insert t
      (invited_member env t (account_arn ?og1 t) (unwrap_or (opt_or email (hs_target_email ?h)) (synthetic_email t)) (og_root_id ?og1))
      (og_accounts ?og1)\<rparr>)" (is "steady J J _ ?og2")
  proof (cases ?join)
    case (Some t)
    then have "enrolling = Some t" "new_state = ''ACCEPTED''" "hs_action h = ''INVITE''"
      by (auto simp: opt_filter_def split: if_splits option.splits)
    with assms [OF \<open>map_of _ hid = Some h\<close>] have "{t} \<subseteq> J" by simp
    have "steady {t} {t} ?og1 ?og2"
      unfolding Some option.case by (rule steady_add_account) (simp, simp, simp, simp, simp, simp, simp)
    then show ?thesis using \<open>{t} \<subseteq> J\<close> \<open>{t} \<subseteq> J\<close> by (rule steady_weaken)
  qed (simp only: option.case st.R_refl)
  have "steady J J og ?og2"
    using steady_handshakes joined by (rule st.R_trans)
  moreover from this have "steady J J og (settle_transfer env hid new_state ?og2)"
    using steady_settle by (rule st.R_trans)
  ultimately show ?thesis
    unfolding resolve_handshake_def Some option.case Let_def
    by (simp only: if_distrib [of snd] snd_conv st.R_refl if_cancel split: if_split) simp_all
qed (simp add: resolve_handshake_def st.R_refl)

lemma steady_expire_one: "steady J J og (expire_handshake env e og)"
proof -
  have "steady J J og (snd (resolve_handshake env (fst e) ''EXPIRED'' None None og))"
    by (rule steady_resolve) simp
  moreover have "steady J J og' (og'\<lparr>og_responsibility_transfers := m\<rparr>)" for og' m
    by (rule steady_unchanged) simp_all
  ultimately show ?thesis
    by (cases e) (auto simp: expire_handshake_def Let_def intro: st.R_trans split: option.split)
qed

lemma steady_expire: "steady J J og (snd (org_expire_stale env og))"
proof -
  have "steady J J og (fold (expire_handshake env) es og)" for es
    by (induction es arbitrary: og) (auto simp: st.R_refl intro: st.R_trans [OF steady_expire_one])
  then show ?thesis by (simp add: org_expire_stale_def Let_def)
qed

section \<open>The registry\<close>

definition all_within ::
  "(organization_state \<Rightarrow> organization_state \<Rightarrow> bool) \<Rightarrow> organizations_registry \<Rightarrow> organizations_registry \<Rightarrow> bool" where
  "all_within R reg reg' \<longleftrightarrow>
     (bt_wf reg \<longrightarrow> list_all2 (\<lambda>e e'. fst e' = fst e \<and> R (snd e) (snd e')) reg reg')"

lemma all_within_keys:
  assumes "list_all2 (\<lambda>e e'. fst e' = fst e \<and> R (snd e) (snd e')) reg reg'"
  shows "map fst reg' = map fst reg"
  using assms by induction auto

lemma all_within_entry:
  assumes "bt_wf reg" "all_within R reg reg'" "(k, og') \<in> set reg'"
  obtains og where "(k, og) \<in> set reg" "R og og'"
proof -
  from assms(1,2) have rel: "list_all2 (\<lambda>e e'. fst e' = fst e \<and> R (snd e) (snd e')) reg reg'"
    by (simp add: all_within_def)
  from assms(3) obtain i where i: "i < length reg'" "reg' ! i = (k, og')" by (auto simp: in_set_conv_nth)
  with rel have "i < length reg" "fst (reg ! i) = k" "R (snd (reg ! i)) og'"
    by (auto simp: list_all2_conv_all_nth)
  moreover from this have "(k, snd (reg ! i)) \<in> set reg" by (metis nth_mem prod.collapse)
  ultimately show ?thesis by (intro that)
qed

lemma wf_entry_unique: "bt_wf m \<Longrightarrow> (k, v) \<in> set m \<Longrightarrow> (k, w) \<in> set m \<Longrightarrow> v = w"
  using bt_wf_distinct [of m] by (metis map_of_is_SomeI option.inject)

lemma set_org_entries: "e \<in> set (set_org k og reg) \<Longrightarrow> e = (k, og) \<or> e \<in> set reg \<and> fst e \<noteq> k"
  by (auto simp: set_org_def dest!: set_bt_modify)

lemma find_org_entry: "find_org p reg = Some (k, og) \<Longrightarrow> (k, og) \<in> set reg \<and> p og"
  by (metis find_org_def find_Some_iff nth_mem snd_conv)

lemma management_entry_found:
  "management_entry acct reg = Inr (k, og) \<Longrightarrow>
   (k, og) \<in> set reg \<and> acct \<in> members og \<and> acct = og_management_account_id og"
  by (auto simp: management_entry_def and_then_def ok_or_def is_management_def has_member_iff
      dest!: find_org_entry split: option.splits sum.splits if_splits)

locale org_preorder = handler_preorder R for R :: "organization_state \<Rightarrow> organization_state \<Rightarrow> bool"
begin

lemma all_within_refl: "all_within R reg reg"
  by (simp add: all_within_def list_all2_conv_all_nth R_refl)

lemma all_within_trans:
  assumes "all_within R reg reg'" "all_within R reg' reg''"
  shows "all_within R reg reg''"
proof -
  have "list_all2 (\<lambda>e e'. fst e' = fst e \<and> R (snd e) (snd e')) reg reg''" if wf: "bt_wf reg"
  proof -
    from assms(1) wf have 1: "list_all2 (\<lambda>e e'. fst e' = fst e \<and> R (snd e) (snd e')) reg reg'"
      by (simp add: all_within_def)
    have "bt_wf reg'" using wf unfolding bt_wf_def all_within_keys [OF 1] .
    with assms(2) have 2: "list_all2 (\<lambda>e e'. fst e' = fst e \<and> R (snd e) (snd e')) reg' reg''"
      by (simp add: all_within_def)
    have step: "fst c = fst a \<and> R (snd a) (snd c)"
      if "fst b = fst a \<and> R (snd a) (snd b)" "fst c = fst b \<and> R (snd b) (snd c)"
      for a b c :: "string \<times> organization_state"
      using that R_trans by auto
    show ?thesis using step 1 2 by (rule list_all2_trans)
  qed
  then show ?thesis by (simp add: all_within_def)
qed

lemma all_within_set_org:
  assumes "(k, og) \<in> set reg" "R og og'"
  shows "all_within R reg (set_org k og' reg)"
proof -
  have "R (snd (reg ! i)) og'" if "bt_wf reg" "i < length reg" "fst (reg ! i) = k" for i
  proof -
    have "(k, snd (reg ! i)) \<in> set reg" using that by (metis nth_mem prod.collapse)
    with assms(1) have "snd (reg ! i) = og" using wf_entry_unique [OF that(1)] by blast
    with assms(2) show ?thesis by simp
  qed
  then show ?thesis
    by (simp add: all_within_def set_org_def bt_modify_def list_all2_conv_all_nth R_refl case_prod_unfold)
qed

lemma all_within_map: "(\<And>og. R og (f og)) \<Longrightarrow> all_within R reg (map (\<lambda>(k, og). (k, f og)) reg)"
  by (simp add: all_within_def list_all2_conv_all_nth split: prod.split)

lemma all_within_management:
  assumes "\<And>k og. (k, og) \<in> set reg \<Longrightarrow> R og (snd (f og))"
  shows "all_within R reg (snd (management_org_mut acct f reg))"
proof (cases "management_entry acct reg")
  case (Inr e)
  obtain k og where e: "e = (k, og)" by (cases e)
  with management_entry_found Inr have "(k, og) \<in> set reg" by blast
  then have "all_within R reg (set_org k (snd (f og)) reg)"
    using assms by (blast intro: all_within_set_org)
  then show ?thesis by (simp add: management_org_mut_def Inr e case_prod_unfold Let_def)
qed (simp add: management_org_mut_def all_within_refl)

lemma stays_management: "stays R f \<Longrightarrow> stays (all_within R) (management_org_mut acct f)"
  unfolding stays_def by (blast intro: all_within_management)

lemma stays_org_lift: "(\<And>og. R og (snd (f og))) \<Longrightarrow> stays R (org_lift f)"
proof -
  assume R: "\<And>og. R og (snd (f og))"
  have "snd (org_lift f og) = snd (f og)" for og
    by (simp add: org_lift_def split: prod.split sum.split)
  then show ?thesis by (simp add: stays_def R)
qed

end

sublocale org_preorder \<subseteq> reg: handler_preorder "all_within R"
  by unfold_locales (auto intro: all_within_refl all_within_trans)

interpretation so: org_preorder "steady J C" for J C
  by unfold_locales

end

