(* ===== verification/Org_Invariants.thy ===== *)
theory Org_Invariants
  imports Org_Facts
begin

text \<open>
  The invariants of the organizations server, and that its requests keep them. \<open>one_org\<close> says that the registry
  is keyed by the organizations' ids and that no two organizations claim the same account, as a member or for an
  account creation in progress. \<open>sound\<close> says of every organization that its units form a tree below the root,
  that policies are attached only to what exists, and that accounts are named by account numbers. A step is
  \<open>careful g J\<close> when it keeps \<open>one_org\<close>, enrolls at most the accounts in \<open>J\<close> and, under the guard \<open>g\<close>,
  keeps \<open>sound\<close>. Most handlers are \<open>quiet\<close>: they change organizations one by one and enroll nobody.
\<close>

section \<open>Handlers that enroll nobody\<close>

lemmas quiet_rules = so.reg.stays_rules so.stays_management so.stays_org_lift st.stays_rules steady_ops

lemmas quiet_defs = describe_organization_def list_roots_def list_parents_def list_children_def
  update_organizational_unit_def delete_organizational_unit_def describe_organizational_unit_def
  list_organizational_units_for_parent_def list_accounts_def list_accounts_for_parent_def describe_account_def
  move_account_def create_policy_def update_policy_def delete_policy_def describe_policy_def list_policies_def
  attach_policy_def detach_policy_def list_policies_for_target_def describe_create_account_status_def
  list_create_account_status_def close_account_def remove_account_from_organization_def describe_handshake_def
  list_handshakes_for_account_def list_handshakes_for_organization_def enable_aws_service_access_def
  disable_aws_service_access_def list_aws_service_access_for_organization_def register_delegated_administrator_def
  deregister_delegated_administrator_def list_delegated_administrators_def list_delegated_services_for_account_def
  enable_all_features_def disable_policy_type_def tag_resource_def untag_resource_def
  list_tags_for_resource_def delete_resource_policy_def describe_resource_policy_def
  list_accounts_with_invalid_effective_policy_def list_effective_policy_validation_errors_def
  describe_responsibility_transfer_def list_responsibility_transfers_def member_org_def delegated_org_def Let_def

definition quiet :: "(organizations_registry, 'a) handler \<Rightarrow> bool" where
  "quiet h \<longleftrightarrow> stays (all_within (steady {} {})) h"

lemma quiet_readers:
  "quiet (describe_organization req)" "quiet (list_roots req)" "quiet (list_parents env req)" "quiet (list_children env req)"
  "quiet (describe_organizational_unit env req)" "quiet (list_organizational_units_for_parent env req)"
  "quiet (list_accounts env req)" "quiet (list_accounts_for_parent env req)" "quiet (describe_account env req)"
  "quiet (describe_policy env req)" "quiet (list_policies env req)" "quiet (list_policies_for_target env req)"
  "quiet (describe_create_account_status env req)" "quiet (list_create_account_status env req)"
  "quiet (describe_handshake env req)" "quiet (list_handshakes_for_account env req)"
  "quiet (list_handshakes_for_organization env req)" "quiet (list_aws_service_access_for_organization env req)"
  "quiet (list_delegated_administrators env req)" "quiet (list_delegated_services_for_account env req)"
  "quiet (list_tags_for_resource env req)" "quiet (describe_resource_policy req)"
  "quiet (list_accounts_with_invalid_effective_policy env req)" "quiet (list_effective_policy_validation_errors env req)"
  "quiet (describe_responsibility_transfer env req)" "quiet (list_responsibility_transfers env outbound req)"
  unfolding quiet_def quiet_defs by (intro quiet_rules)+

lemma quiet_writers:
  "quiet (update_organizational_unit env req)" "quiet (delete_organizational_unit env req)" "quiet (move_account env req)"
  "quiet (create_policy env req)" "quiet (update_policy env req)" "quiet (delete_policy env req)"
  "quiet (attach_policy env req)" "quiet (detach_policy env req)" "quiet (close_account env req)"
  "quiet (remove_account_from_organization env req)" "quiet (enable_aws_service_access env req)"
  "quiet (disable_aws_service_access env req)" "quiet (register_delegated_administrator env req)"
  "quiet (deregister_delegated_administrator env req)" "quiet (enable_all_features req)"
  "quiet (disable_policy_type env req)" "quiet (tag_resource env req)" "quiet (untag_resource env req)"
  "quiet (delete_resource_policy req)"
  unfolding quiet_def quiet_defs by (intro quiet_rules)+

section \<open>Registries\<close>

definition calm :: "string set \<Rightarrow> string set \<Rightarrow> organization_state \<Rightarrow> organization_state \<Rightarrow> bool" where
  "calm J C og og' \<longleftrightarrow> og_id og' = og_id og \<and> members og' \<subseteq> members og \<union> J \<and> claims og' \<subseteq> claims og \<union> C"

definition one_org :: "organizations_registry \<Rightarrow> bool" where
  "one_org reg \<longleftrightarrow>
     bt_wf reg \<and> (\<forall>(k, og) \<in> set reg. og_id og = k) \<and>
     (\<forall>(k, og) \<in> set reg. \<forall>(k', og') \<in> set reg. claims og \<inter> claims og' \<noteq> {} \<longrightarrow> k = k')"

definition reg_members :: "organizations_registry \<Rightarrow> string set" where
  "reg_members reg = (\<Union>e \<in> set reg. members (snd e))"

definition sound :: "organizations_registry \<Rightarrow> bool" where
  "sound reg \<longleftrightarrow> (\<forall>(k, og) \<in> set reg. tree_ok og \<and> targets_ok og \<and> claims og \<subseteq> Collect is_account_number)"

definition careful :: "bool \<Rightarrow> string set \<Rightarrow> organizations_registry \<Rightarrow> organizations_registry \<Rightarrow> bool" where
  "careful g J reg reg' \<longleftrightarrow>
     (one_org reg \<longrightarrow> one_org reg' \<and> reg_members reg' \<subseteq> reg_members reg \<union> J \<and> (g \<and> sound reg \<longrightarrow> sound reg'))"

lemma steady_calm: "steady J C og og' \<Longrightarrow> calm J C og og'"
  by (simp add: steady_def calm_def)

interpretation ca: org_preorder "calm J C" for J C
  by unfold_locales (auto simp: calm_def)

interpretation cf: handler_preorder "careful g J" for g J
  by unfold_locales (auto simp: careful_def)

lemma one_orgI:
  assumes "bt_wf reg" and "\<And>k og. (k, og) \<in> set reg \<Longrightarrow> og_id og = k"
    and "\<And>k og k' og' a. (k, og) \<in> set reg \<Longrightarrow> (k', og') \<in> set reg \<Longrightarrow> a \<in> claims og \<Longrightarrow> a \<in> claims og' \<Longrightarrow> k = k'"
  shows "one_org reg"
  using assms unfolding one_org_def by blast

lemma one_orgD:
  assumes "one_org reg"
  shows "bt_wf reg" and "(k, og) \<in> set reg \<Longrightarrow> og_id og = k"
    and "(k, og) \<in> set reg \<Longrightarrow> (k', og') \<in> set reg \<Longrightarrow> a \<in> claims og \<Longrightarrow> a \<in> claims og' \<Longrightarrow> k = k'"
  using assms unfolding one_org_def by blast+

lemma soundD:
  assumes "sound reg" "(k, og) \<in> set reg"
  shows "tree_ok og" "targets_ok og" "a \<in> claims og \<Longrightarrow> is_account_number a"
  using assms unfolding sound_def by blast+

lemma careful_within:
  assumes calm: "all_within (calm {} {}) reg reg'"
    and steady: "g \<Longrightarrow> all_within (steady {} {}) reg reg'"
  shows "careful g J reg reg'"
proof -
  have "one_org reg' \<and> reg_members reg' \<subseteq> reg_members reg \<union> J \<and> (g \<and> sound reg \<longrightarrow> sound reg')" if one: "one_org reg"
  proof (intro conjI impI)
    have rel: "list_all2 (\<lambda>e e'. fst e' = fst e \<and> calm {} {} (snd e) (snd e')) reg reg'"
      using calm one_orgD(1) [OF one] by (simp add: all_within_def)
    have from_old: "\<exists>og. (k, og) \<in> set reg \<and> calm {} {} og og'" if "(k, og') \<in> set reg'" for k og'
      using all_within_entry [OF one_orgD(1) [OF one] calm that] by blast
    show "one_org reg'"
    proof (rule one_orgI)
      show "bt_wf reg'" using one_orgD(1) [OF one] unfolding bt_wf_def all_within_keys [OF rel] .
      show "og_id og = k" if "(k, og) \<in> set reg'" for k og
        using from_old [OF that] one_orgD(2) [OF one] by (auto simp: calm_def)
      show "k = k'" if "(k, og) \<in> set reg'" "(k', og') \<in> set reg'" "a \<in> claims og" "a \<in> claims og'" for k og k' og' a
        using from_old [OF that(1)] from_old [OF that(2)] that(3,4) one_orgD(3) [OF one] unfolding calm_def by blast
    qed
    show "reg_members reg' \<subseteq> reg_members reg \<union> J"
      using from_old unfolding reg_members_def calm_def by fastforce
    show "sound reg'" if g: "g \<and> sound reg"
    proof -
      have "tree_ok og' \<and> targets_ok og' \<and> claims og' \<subseteq> Collect is_account_number" if "(k, og') \<in> set reg'" for k og'
      proof -
        from g have "all_within (steady {} {}) reg reg'" by (intro steady) simp
        then obtain og where "(k, og) \<in> set reg" "steady {} {} og og'"
          using all_within_entry [OF one_orgD(1) [OF one] _ \<open>(k, og') \<in> set reg'\<close>] by blast
        with g soundD [of reg k og] show ?thesis unfolding steady_def by blast
      qed
      then show ?thesis unfolding sound_def by blast
    qed
  qed
  then show ?thesis by (simp add: careful_def)
qed

lemma all_within_mono:
  assumes "all_within R reg reg'" and "\<And>a b. R a b \<Longrightarrow> R' a b"
  shows "all_within R' reg reg'"
  using assms unfolding all_within_def by (auto elim: list_all2_mono)

lemma careful_steady: "all_within (steady {} {}) reg reg' \<Longrightarrow> careful g J reg reg'"
  using careful_within all_within_mono steady_calm by blast

lemma careful_quiet: "quiet h \<Longrightarrow> careful g J reg (snd (h reg))"
  unfolding quiet_def stays_def by (blast intro: careful_steady)

text \<open>One entry changes, and claims only accounts no other entry claims.\<close>

lemma one_org_entry:
  assumes one: "one_org reg" and og: "(k, og) \<in> set reg" and calm: "calm J C og og'"
    and free: "\<And>k' og2 a. (k', og2) \<in> set reg \<Longrightarrow> k' \<noteq> k \<Longrightarrow> a \<in> C \<Longrightarrow> a \<notin> claims og2"
  shows "one_org (set_org k og' reg)"
proof (rule one_orgI)
  show "bt_wf (set_org k og' reg)" using one_orgD(1) [OF one] by (simp add: set_org_def bt_simps)
  show "og_id o1 = k1" if "(k1, o1) \<in> set (set_org k og' reg)" for k1 o1
    using set_org_entries [OF that] one_orgD(2) [OF one] og calm by (auto simp: calm_def)
  show "k1 = k2" if "(k1, o1) \<in> set (set_org k og' reg)" "(k2, o2) \<in> set (set_org k og' reg)" "a \<in> claims o1" "a \<in> claims o2"
    for k1 o1 k2 o2 a
  proof -
    have clash: False if "(k', o') \<in> set reg" "k' \<noteq> k" "a \<in> claims og'" "a \<in> claims o'" for k' o'
    proof -
      from calm that(3) consider "a \<in> claims og" | "a \<in> C" unfolding calm_def by blast
      then show False
        using one_orgD(3) [OF one og that(1) _ that(4)] free [OF that(1,2)] that(2,4) by cases auto
    qed
    from set_org_entries [OF that(1)] set_org_entries [OF that(2)] show ?thesis
    proof (elim disjE conjE)
      assume "(k1, o1) \<in> set reg" "(k2, o2) \<in> set reg"
      then show ?thesis using one_orgD(3) [OF one _ _ that(3,4)] by simp
    qed (use that(3,4) clash in auto)
  qed
qed

lemma careful_entry:
  assumes og: "(k, og) \<in> set reg" and calm: "calm J C og og'"
    and steady: "g \<Longrightarrow> steady J C og og' \<and> C \<subseteq> Collect is_account_number"
    and free: "\<And>k' og2 a. one_org reg \<Longrightarrow> (k', og2) \<in> set reg \<Longrightarrow> k' \<noteq> k \<Longrightarrow> a \<in> C \<Longrightarrow> a \<notin> claims og2"
  shows "careful g J reg (set_org k og' reg)"
proof -
  have "reg_members (set_org k og' reg) \<subseteq> reg_members reg \<union> J"
  proof
    fix a
    assume "a \<in> reg_members (set_org k og' reg)"
    then obtain e where "e \<in> set (set_org k og' reg)" "a \<in> members (snd e)" by (auto simp: reg_members_def)
    with set_org_entries [of e k og' reg] og calm show "a \<in> reg_members reg \<union> J"
      unfolding reg_members_def calm_def by force
  qed
  moreover have "sound (set_org k og' reg)" if g: "g \<and> sound reg"
  proof -
    have "tree_ok o1 \<and> targets_ok o1 \<and> claims o1 \<subseteq> Collect is_account_number" if "(k1, o1) \<in> set (set_org k og' reg)" for k1 o1
      using set_org_entries [OF that] g steady soundD [of reg k1 o1] soundD [of reg k og] og unfolding steady_def by blast
    then show ?thesis unfolding sound_def by blast
  qed
  ultimately show ?thesis using one_org_entry [OF _ og calm free] by (simp add: careful_def)
qed

lemma careful_steady_entry: "(k, og) \<in> set reg \<Longrightarrow> steady {} {} og og' \<Longrightarrow> careful g J reg (set_org k og' reg)"
  by (intro careful_steady so.all_within_set_org)

section \<open>The remaining writers\<close>

lemma careful_with_str: "(\<And>x. careful g J reg (snd (f x reg))) \<Longrightarrow> careful g J reg (snd (with_str body key f reg))"
  by (cases "org_required_str body key") (simp_all add: with_str_def cf.R_refl)

lemma snd_org_lift: "snd (org_lift f og) = snd (f og)"
  by (simp add: org_lift_def split: prod.split sum.split)

lemma snd_bind_read: "snd (h_bind m (\<lambda>x. h_read (f x)) s) = snd (m s)"
  by (simp add: h_bind_def h_read_def split: prod.split sum.split)

lemma quiet_checked_writers: "quiet (enable_policy_type env req)" "quiet (put_resource_policy env req)"
  unfolding quiet_def enable_policy_type_def put_resource_policy_def
  by (intro quiet_rules so.reg.stays_if)+

lemma careful_create_unit:
  assumes "g \<Longrightarrow> \<forall>(k, og) \<in> set reg. map_of (og_ous og) (drawn_unit env og) = None"
  shows "careful g J reg (snd (create_organizational_unit env req reg))"
proof -
  let ?f = "\<lambda>parent name. h_bind (org_lift (org_create_ou env parent name)) (\<lambda>ou.
    h_bind (h_update (tag_created (org_body env req) (ou_id ou))) (\<lambda>_. h_done (JObj [(''OrganizationalUnit'', ou_payload ou)])))"
  have after: "R og (snd (?f parent name og))"
    if "R og (snd (org_create_ou env parent name og))" "\<And>og' res. R og' (tag_created (org_body env req) res og')"
      "\<And>a b c. R a b \<Longrightarrow> R b c \<Longrightarrow> R a c" for R parent name og
    using that(1) that(3) [OF that(1) that(2)]
    by (cases "org_create_ou env parent name og")
      (auto simp: h_bind_def org_lift_def h_update_def h_done_def split: sum.split)
  have calm: "calm {} {} og (snd (?f parent name og))" for parent name og
  proof (rule after)
    show "calm {} {} og (snd (org_create_ou env parent name og))"
      by (auto simp: calm_def org_create_ou_def Let_def members_def claims_def in_flight_def)
  qed (use steady_calm steady_tag_created ca.R_trans in blast)+
  have steady: "steady {} {} og (snd (?f parent name og))" if "g" "(k, og) \<in> set reg" for k parent name og
    by (rule after) (use assms that steady_create_ou steady_tag_created st.R_trans in blast)+
  show ?thesis
    unfolding create_organizational_unit_def Let_def
    by (intro careful_with_str careful_within ca.all_within_management so.all_within_management calm steady)
qed

lemma careful_leave: "careful g J reg (snd (leave_organization req reg))"
proof (cases "find_org (has_member (req_account_id req)) reg")
  case (Some e)
  obtain k og where e: "e = (k, og)" by (cases e)
  let ?f = "h_bind (org_lift (org_remove_account (req_account_id req))) (\<lambda>_. h_done (JObj []))"
  have "stays (steady {} {}) (?f :: (organization_state, aws_response) handler)" by (intro quiet_rules)
  then have "steady {} {} og (snd (?f og))" by (simp add: stays_def)
  then have "careful g J reg (set_org k (snd (?f og)) reg)"
    using find_org_entry Some e by (blast intro: careful_steady_entry)
  then show ?thesis by (simp add: leave_organization_def Some e cf.R_refl case_prod_unfold Let_def)
qed (simp add: leave_organization_def cf.R_refl)

lemma careful_invite: "careful g J reg (snd (invite_account_to_organization env req reg))"
proof (cases "and_then (invite_target (org_body env req)) (\<lambda>t. and_then (management_entry (req_account_id req) reg) (\<lambda>e. Inr (t, e)))")
  case (Inr x)
  obtain kind i k og where x: "x = ((kind, i), k, og)" by (metis prod.exhaust)
  with Inr have "management_entry (req_account_id req) reg = Inr (k, og)"
    by (auto simp: and_then_def split: sum.splits)
  then have "(k, og) \<in> set reg" using management_entry_found by blast
  then have "careful g J reg (set_org k (snd (org_invite_account env (req_account_id req) kind i
      (if kind = ''EMAIL'' then Some i else None) (org_str (org_body env req) ''Notes'') og)) reg)"
    by (rule careful_steady_entry) (rule steady_quiet_ops)
  then show ?thesis
    unfolding invite_account_to_organization_def Let_def Inr x
    by (auto simp: case_prod_unfold snd_bind_read snd_org_lift cf.R_refl split: option.split)
qed (simp add: invite_account_to_organization_def cf.R_refl)

lemma careful_invite_transfer: "careful g J reg (snd (invite_organization_to_transfer_responsibility env req reg))"
proof (cases "and_then (require_transfer_type (org_body env req)) (\<lambda>ttype.
              and_then (org_required_str (org_body env req) ''SourceName'') (\<lambda>name.
              and_then (transfer_target (org_body env req)) (\<lambda>target.
              and_then (management_entry (req_account_id req) reg) (\<lambda>e. Inr (ttype, name, target, e)))))")
  case (Inr x)
  obtain ttype name kind i k og where x: "x = (ttype, name, (kind, i), k, og)" by (metis prod.exhaust)
  with Inr have "management_entry (req_account_id req) reg = Inr (k, og)"
    by (auto simp: and_then_def split: sum.splits)
  then have "(k, og) \<in> set reg" using management_entry_found by blast
  then have "careful g J reg (set_org k (snd (open_transfer env ttype name start kind i ns og)) reg)" for start ns
    by (rule careful_steady_entry) (rule steady_open_transfer)
  then show ?thesis
    unfolding invite_organization_to_transfer_responsibility_def Let_def Inr x
    by (simp add: case_prod_unfold cf.R_refl)
qed (simp add: invite_organization_to_transfer_responsibility_def cf.R_refl)

lemma party_org_entry: "party_org_of_transfer reg i caller b = Inr (k, og, t) \<Longrightarrow> (k, og) \<in> set reg"
  by (auto simp: party_org_of_transfer_def and_then_def ok_or_def org_of_responsibility_transfer_def
      dest: find_org_entry split: option.splits sum.splits if_splits)

lemma careful_update_transfer: "careful g J reg (snd (update_responsibility_transfer env req reg))"
  unfolding update_responsibility_transfer_def Let_def
  by (intro careful_with_str)
    (auto simp: cf.R_refl intro!: careful_steady_entry steady_put_transfer dest: party_org_entry split: sum.split)

lemma careful_terminate_transfer: "careful g J reg (snd (terminate_responsibility_transfer env req reg))"
proof -
  have "steady {} {} og (og'\<lparr>og_handshakes := hs\<rparr>)" if "steady {} {} og og'" for og og' hs
    using that steady_handshakes by (rule st.R_trans)
  then show ?thesis
    unfolding terminate_responsibility_transfer_def Let_def
    by (intro careful_with_str)
      (auto simp: cf.R_refl intro!: careful_steady_entry steady_put_transfer dest: party_org_entry split: sum.split option.split)
qed

section \<open>Joining\<close>

lemma org_of_account_member: "org_of_account a reg = Some og \<Longrightarrow> \<exists>k. (k, og) \<in> set reg \<and> a \<in> members og"
  by (auto simp: org_of_account_def has_member_iff dest: find_org_entry)

lemma org_of_account_None: "org_of_account a reg = None \<Longrightarrow> (k, og) \<in> set reg \<Longrightarrow> a \<notin> members og"
  by (force simp: org_of_account_def find_org_def find_None_iff has_member_iff)

lemma unclaimed_elsewhere:
  assumes one: "one_org reg" and og: "(k, og) \<in> set reg" and none: "claimed_by_other_org reg a (og_id og) = None"
    and other: "(k', og') \<in> set reg" "k' \<noteq> k"
  shows "a \<notin> claims og'"
proof (cases "org_of_account a reg")
  case None
  with none have "\<not> (og_id og' \<noteq> og_id og \<and> in_flight a og')"
    using other(1) by (force simp: claimed_by_other_org_def find_None_iff)
  moreover have "og_id og' \<noteq> og_id og" using one_orgD(2) [OF one] og other by metis
  ultimately show ?thesis using org_of_account_None [OF None other(1)] by (simp add: claims_def)
next
  case (Some o2)
  with none have id2: "og_id o2 = og_id og" by (simp add: claimed_by_other_org_def split: if_splits)
  from org_of_account_member [OF Some] obtain k2 where k2: "(k2, o2) \<in> set reg" "a \<in> members o2" by blast
  have "k2 = k" using one_orgD(2) [OF one k2(1)] one_orgD(2) [OF one og] id2 by simp
  with k2 other one_orgD(3) [OF one k2(1) other(1)] show ?thesis using members_claims by blast
qed

lemma not_enrolled:
  assumes "\<not> account_is_enrolled reg a" "(k, og) \<in> set reg"
  shows "a \<notin> claims og"
  using assms org_of_account_None
  by (force simp: account_is_enrolled_def account_is_reserved_def claims_def list_ex_iff)

lemma transition_checks_join:
  assumes "transition_checks reg og h ''ACCEPTED'' acct = Inr email" "hs_action h = ''INVITE''"
  shows "claimed_by_other_org reg acct (og_id og) = None"
  using assms unfolding transition_checks_def Let_def by (simp split: if_splits)

lemma careful_transition:
  assumes "g \<Longrightarrow> is_account_number (req_account_id req)"
  shows "careful g {req_account_id req} reg (snd (transition_handshake env new_state req reg))"
  unfolding transition_handshake_def
proof (rule careful_with_str)
  fix hid
  let ?a = "req_account_id req"
  have "careful g {?a} reg (set_org k (snd (resolve_handshake env hid new_state (Some ?a) email og)) reg)"
    if e: "org_of_handshake hid reg = Some (k, og)" and h: "map_of (og_handshakes og) hid = Some h"
      and ok: "transition_checks reg og h new_state ?a = Inr email" for k og h email
  proof -
    let ?J = "if new_state = ''ACCEPTED'' \<and> hs_action h = ''INVITE'' then {?a} else {}"
    have og: "(k, og) \<in> set reg" using e find_org_entry unfolding org_of_handshake_def by blast
    have st: "steady ?J ?J og (snd (resolve_handshake env hid new_state (Some ?a) email og))"
      by (rule steady_resolve) (use h in simp)
    then have st': "steady {?a} ?J og (snd (resolve_handshake env hid new_state (Some ?a) email og))"
      by (rule steady_weaken) auto
    show ?thesis
    proof (rule careful_entry [OF og steady_calm [OF st']])
      show "steady {?a} ?J og (snd (resolve_handshake env hid new_state (Some ?a) email og)) \<and> ?J \<subseteq> Collect is_account_number" if g
        using st' assms [OF that] by auto
      show "a \<notin> claims og2" if "one_org reg" "(k', og2) \<in> set reg" "k' \<noteq> k" "a \<in> ?J" for k' og2 a
      proof -
        from that(4) have "new_state = ''ACCEPTED''" "hs_action h = ''INVITE''" "a = ?a" by (simp_all split: if_splits)
        with ok have "claimed_by_other_org reg a (og_id og) = None" by (auto intro: transition_checks_join)
        then show ?thesis using unclaimed_elsewhere [OF that(1) og] that(2,3) by blast
      qed
    qed
  qed
  then show "careful g {?a} reg (snd (case org_of_handshake hid reg of
      None \<Rightarrow> h_err (org_error_to_aws (HandshakeNotFound hid)) reg
    | Some (k, og) \<Rightarrow>
        (case map_of (og_handshakes og) hid of
           None \<Rightarrow> h_err (org_error_to_aws (HandshakeNotFound hid)) reg
         | Some h \<Rightarrow>
             (case transition_checks reg og h new_state ?a of
                Inl e \<Rightarrow> h_err e reg
              | Inr email \<Rightarrow>
                  (let (r, og') = h_bind (org_lift (resolve_handshake env hid new_state (Some ?a) email)) (\<lambda>h'.
                         h_read (\<lambda>og'. Inr (handshake_json env og' h'))) og
                   in (r, set_org k og' reg))))))"
    by (auto simp: cf.R_refl case_prod_unfold Let_def snd_bind_read snd_org_lift split: option.split sum.split)
qed

lemma careful_remove: "careful g J reg (bt_remove k reg)"
proof -
  have sub: "set (bt_remove k reg) \<subseteq> set reg" by (auto simp: set_bt_remove)
  have "one_org (bt_remove k reg)" if one: "one_org reg"
    by (rule one_orgI) (use one_orgD [OF one] sub bt_wf_remove in \<open>blast+\<close>)
  moreover have "reg_members (bt_remove k reg) \<subseteq> reg_members reg" using sub unfolding reg_members_def by blast
  moreover have "sound reg \<Longrightarrow> sound (bt_remove k reg)" using sub unfolding sound_def by blast
  ultimately show ?thesis unfolding careful_def by blast
qed

lemma careful_delete_organization: "careful g J reg (snd (delete_organization req reg))"
  by (auto simp: delete_organization_def cf.R_refl careful_remove split: option.split)

lemma careful_insert:
  assumes mem: "members og = {a}" and claim: "claims og = {a}" and ok: "tree_ok og" "targets_ok og"
    and number: "g \<Longrightarrow> is_account_number a" and free: "\<not> account_is_enrolled reg a"
  shows "careful g {a} reg (registry_insert og reg)"
proof -
  have entries: "e \<in> set (registry_insert og reg) \<Longrightarrow> e = (og_id og, og) \<or> e \<in> set reg" for e
    unfolding registry_insert_def by (rule bt_insertD)
  have "one_org (registry_insert og reg)" if one: "one_org reg"
  proof (rule one_orgI)
    show "bt_wf (registry_insert og reg)" using one_orgD(1) [OF one] by (simp add: registry_insert_def bt_simps)
    show "og_id o1 = k1" if "(k1, o1) \<in> set (registry_insert og reg)" for k1 o1
      using entries [OF that] one_orgD(2) [OF one] by blast
    show "k1 = k2" if "(k1, o1) \<in> set (registry_insert og reg)" "(k2, o2) \<in> set (registry_insert og reg)" "x \<in> claims o1" "x \<in> claims o2"
      for k1 o1 k2 o2 x
      using entries [OF that(1)] entries [OF that(2)]
    proof (elim disjE)
      assume "(k1, o1) \<in> set reg" "(k2, o2) \<in> set reg"
      then show ?thesis using one_orgD(3) [OF one _ _ that(3,4)] by simp
    qed (use that(3,4) claim not_enrolled [OF free] in auto)
  qed
  moreover have "reg_members (registry_insert og reg) \<subseteq> reg_members reg \<union> {a}"
  proof
    fix x
    assume "x \<in> reg_members (registry_insert og reg)"
    then obtain e where "e \<in> set (registry_insert og reg)" "x \<in> members (snd e)" unfolding reg_members_def by blast
    from entries [OF this(1)] show "x \<in> reg_members reg \<union> {a}"
    proof
      assume "e = (og_id og, og)"
      with \<open>x \<in> members (snd e)\<close> mem show ?thesis by simp
    next
      assume "e \<in> set reg"
      then have "x \<in> reg_members reg" unfolding reg_members_def using \<open>x \<in> members (snd e)\<close> by (rule UN_I)
      then show ?thesis by simp
    qed
  qed
  moreover have "sound (registry_insert og reg)" if g: "g \<and> sound reg"
  proof -
    have "tree_ok o1 \<and> targets_ok o1 \<and> claims o1 \<subseteq> Collect is_account_number" if "(k1, o1) \<in> set (registry_insert og reg)" for k1 o1
      using entries [OF that]
    proof
      assume "(k1, o1) = (og_id og, og)"
      then show ?thesis using ok claim number g by simp
    next
      assume "(k1, o1) \<in> set reg"
      then show ?thesis using soundD [of reg k1 o1] g by blast
    qed
    then show ?thesis unfolding sound_def by blast
  qed
  ultimately show ?thesis by (simp add: careful_def)
qed

lemma bootstrap_facts:
  "members (bootstrap_in env rgn a) = {a}" "claims (bootstrap_in env rgn a) = {a}"
  "tree_ok (bootstrap_in env rgn a)" "targets_ok (bootstrap_in env rgn a)"
  by (simp_all add: bootstrap_in_def Let_def members_def claims_def in_flight_def tree_ok_def targets_ok_def
      target_exists_def starts_with_def reaches.reaches_top)

lemma careful_bootstrap:
  assumes "\<not> account_is_enrolled reg a" and "g \<Longrightarrow> is_account_number a"
    and "og_accounts og = og_accounts (bootstrap_in env rgn a)" "og_root_id og = og_root_id (bootstrap_in env rgn a)"
    "og_ous og = og_ous (bootstrap_in env rgn a)" "og_attachments og = og_attachments (bootstrap_in env rgn a)"
    "og_create_account_requests og = og_create_account_requests (bootstrap_in env rgn a)"
  shows "careful g {a} reg (registry_insert og reg)"
  using bootstrap_facts [of env rgn a] assms
  by (intro careful_insert) (simp_all add: members_def claims_def in_flight_def tree_ok_def targets_ok_def target_exists_def)

lemma careful_create_organization:
  assumes "g \<Longrightarrow> is_account_number (req_account_id req)"
  shows "careful g {req_account_id req} reg (snd (create_organization env req reg))"
  using assms unfolding create_organization_def Let_def
  by (auto simp: cf.R_refl intro!: careful_bootstrap)

section \<open>Account creation\<close>

lemma account_id_from_number: "is_account_number (account_id_from env k)"
proof -
  have "is_ascii_digit (char_of (48 + n mod 10))" for n :: nat
  proof -
    have "n mod 10 < 10" by simp
    then have "of_char (char_of (48 + n mod 10) :: char) = (48 + n mod 10 :: nat)" by simp
    then show ?thesis using \<open>n mod 10 < 10\<close> by (simp add: is_ascii_digit_def)
  qed
  then show ?thesis by (simp add: is_account_number_def account_id_from_def list_all_iff)
qed

lemma mint_free:
  assumes "mint_account_id env is_taken k = Some (acct, n)"
  shows "\<not> is_taken acct \<and> is_account_number acct"
proof -
  have "\<not> is_taken (fst (acct, n)) \<and> is_account_number (fst (acct, n))"
    by (rule mint_account_id.raw_induct [where P = "\<lambda>_ t _ r. \<not> t (fst r) \<and> is_account_number (fst r)", OF _ assms])
      (auto simp: Let_def account_id_from_number split: if_splits, blast+)
  then show ?thesis by simp
qed

lemma minted_unclaimed:
  assumes "next_account_id_besides env reg bs n = Some (acct, m)"
  shows "is_account_number acct" and "(k, og) \<in> set reg \<Longrightarrow> acct \<notin> claims og"
proof -
  have "\<not> account_id_taken reg bs acct" "is_account_number acct"
    using mint_free assms unfolding next_account_id_besides_def by blast+
  then show "is_account_number acct" "(k, og) \<in> set reg \<Longrightarrow> acct \<notin> claims og"
    by (force simp: account_id_taken_def claims_def list_ex_iff has_member_iff in_flight_def)+
qed

lemma steady_start_creation:
  "steady {} (insert acct (set_option gov)) og (snd (start_creation env body email name acct gov og))"
proof -
  obtain status og1 where b: "begin_create_account env email name acct gov og = (status, og1)" by (cases "begin_create_account env email name acct gov og")
  then have "steady {} (insert acct (set_option gov)) og og1"
    using steady_begin_create [of "{}" acct gov og env email name] by simp
  moreover have "steady {} (insert acct (set_option gov)) og1
      (case cs_account_id status of Some a \<Rightarrow> tag_created body a og1 | None \<Rightarrow> og1)"
    by (simp add: steady_tag_created st.R_refl split: option.split)
  ultimately show ?thesis
    by (auto simp: start_creation_def b Let_def intro: st.R_trans)
qed

lemma careful_creation:
  assumes e: "(k, og) \<in> set reg"
    and minted: "\<And>a. a \<in> insert acct (set_option gov) \<Longrightarrow> is_account_number a \<and> (\<forall>(k', og') \<in> set reg. a \<notin> claims og')"
  shows "careful g {} reg (set_org k (snd (start_creation env body email name acct gov og)) reg)"
  using e steady_calm [OF steady_start_creation]
proof (rule careful_entry)
  show "steady {} (insert acct (set_option gov)) og (snd (start_creation env body email name acct gov og)) \<and>
      insert acct (set_option gov) \<subseteq> Collect is_account_number"
    using minted by (intro conjI steady_start_creation subsetI) simp
  show "a \<notin> claims og2" if "(k', og2) \<in> set reg" "a \<in> insert acct (set_option gov)" for k' og2 a
    using minted [OF that(2), THEN conjunct2, THEN bspec, OF that(1)] by simp
qed

lemma careful_mono: "careful g J reg reg' \<Longrightarrow> J \<subseteq> J' \<Longrightarrow> careful g J' reg reg'"
  by (auto simp: careful_def)

lemma careful_create_account:
  assumes "create_account env req reg = Some (r, reg')"
  shows "careful g J reg reg'"
proof (cases "and_then (org_required_str (org_body env req) ''Email'') (\<lambda>email.
    and_then (org_required_str (org_body env req) ''AccountName'') (\<lambda>name.
    and_then (management_entry (req_account_id req) reg) (\<lambda>e. Inr (email, name, e))))")
  case (Inl err)
  with assms show ?thesis by (simp add: create_account_def Let_def cf.R_refl)
next
  case (Inr x)
  obtain email name k og where x: "x = (email, name, k, og)" by (metis prod.exhaust)
  with Inr have "management_entry (req_account_id req) reg = Inr (k, og)"
    by (auto simp: and_then_def split: sum.splits)
  then have og: "(k, og) \<in> set reg" using management_entry_found by blast
  from assms obtain acct n where id: "next_account_id_besides env reg [] 0 = Some (acct, n)"
      "reg' = set_org k (snd (start_creation env (org_body env req) email name acct None og)) reg"
    unfolding create_account_def Let_def Inr x by (auto simp: bind_eq_Some_conv case_prod_unfold)
  have "careful g {} reg reg'"
    unfolding id(2) by (rule careful_creation [OF og]) (use minted_unclaimed [OF id(1)] in auto)
  then show ?thesis by (rule careful_mono) simp
qed

lemma careful_create_gov_cloud_account:
  assumes "create_gov_cloud_account env req reg = Some (r, reg')"
  shows "careful g J reg reg'"
proof (cases "and_then (org_required_str (org_body env req) ''Email'') (\<lambda>email.
    and_then (org_required_str (org_body env req) ''AccountName'') (\<lambda>name.
    and_then (management_entry (req_account_id req) reg) (\<lambda>e.
      if org_partition (snd e) \<noteq> ''aws''
      then Inl (aws_error 400 ''UnsupportedAPIEndpointException''
             (''This action isn'' @ [CHR 0x27] @ ''t available in the current AWS Region.''))
      else Inr (email, name, e))))")
  case (Inl err)
  with assms show ?thesis unfolding create_gov_cloud_account_def Let_def Inl by (simp add: cf.R_refl)
next
  case (Inr x)
  obtain email name k og where x: "x = (email, name, k, og)" by (metis prod.exhaust)
  with Inr have "management_entry (req_account_id req) reg = Inr (k, og)"
    by (auto simp: and_then_def split: sum.splits if_splits)
  then have og: "(k, og) \<in> set reg" using management_entry_found by blast
  from assms obtain acct n gov n' where id: "next_account_id_besides env reg [] 0 = Some (acct, n)"
      "next_account_id_besides env reg [acct] n = Some (gov, n')"
      "reg' = set_org k (snd (start_creation env (org_body env req) email name acct (Some gov) og)) reg"
    unfolding create_gov_cloud_account_def Let_def Inr x by (auto simp: bind_eq_Some_conv case_prod_unfold)
  have "careful g {} reg reg'"
    unfolding id(3) by (rule careful_creation [OF og]) (use minted_unclaimed [OF id(1)] minted_unclaimed [OF id(2)] in auto)
  then show ?thesis by (rule careful_mono) simp
qed

section \<open>Requests\<close>

definition fresh_units :: "org_env \<Rightarrow> organizations_registry \<Rightarrow> bool" where
  "fresh_units env reg \<longleftrightarrow> list_all (\<lambda>(_, og). map_of (og_ous og) (drawn_unit env og) = None) reg"

lemma careful_handlers:
  assumes fresh: "g \<Longrightarrow> fresh_units env reg" and number: "g \<Longrightarrow> is_account_number (req_account_id req)"
  shows "list_all (\<lambda>e. careful g {req_account_id req} reg (snd (snd e reg))) (org_handlers env req)"
proof -
  have unit: "careful g {req_account_id req} reg (snd (create_organizational_unit env req reg))"
    by (rule careful_create_unit) (use fresh in \<open>simp add: fresh_units_def list_all_iff\<close>)
  show ?thesis
    unfolding org_handlers_def accept_handshake_def decline_handshake_def cancel_handshake_def
    by (simp only: list.pred_inject snd_conv unit careful_quiet [OF quiet_readers(1)]
        quiet_readers [THEN careful_quiet] quiet_writers [THEN careful_quiet] quiet_checked_writers [THEN careful_quiet]
        careful_create_organization [OF number] careful_delete_organization careful_leave careful_invite
        careful_transition [OF number] careful_invite_transfer careful_update_transfer careful_terminate_transfer simp_thms)
qed

lemma careful_dispatch:
  assumes "org_dispatch env req reg = Some (r, spawned, reg')"
    and "g \<Longrightarrow> fresh_units env reg" "g \<Longrightarrow> is_account_number (req_account_id req)"
  shows "careful g {req_account_id req} reg reg'"
proof -
  have of_creation: "snd (snd (of_creation x)) = snd x" for x by (cases x rule: of_creation.cases) simp_all
  have handler: "careful g {req_account_id req} reg (snd (h reg))" if "map_of (org_handlers env req) act = Some h" for act h
    using careful_handlers [OF assms(2,3)] map_of_SomeD [OF that] by (force simp: list_all_iff)
  consider "req_action req = ''CreateAccount''" | "req_action req = ''CreateGovCloudAccount''"
    | "req_action req = ''ListTargetsForPolicy'' \<or> req_action req = ''DescribeEffectivePolicy''"
    | "req_action req \<notin> {''CreateAccount'', ''CreateGovCloudAccount'', ''ListTargetsForPolicy'', ''DescribeEffectivePolicy''}"
    by blast
  then show ?thesis
  proof cases
    case 1
    with assms(1) obtain x where "create_account env req reg = Some x" "(r, spawned, reg') = of_creation x"
      by (auto simp: org_dispatch_def)
    then show ?thesis using careful_create_account of_creation by (metis prod.collapse snd_conv)
  next
    case 2
    with assms(1) obtain x where "create_gov_cloud_account env req reg = Some x" "(r, spawned, reg') = of_creation x"
      by (auto simp: org_dispatch_def)
    then show ?thesis using careful_create_gov_cloud_account of_creation by (metis prod.collapse snd_conv)
  next
    case 3
    with assms(1) have "reg' = reg" by (auto simp: org_dispatch_def)
    then show ?thesis by (simp add: cf.R_refl)
  next
    case 4
    with assms(1) show ?thesis
      using handler [of "req_action req"] by (auto simp: org_dispatch_def Let_def cf.R_refl split: option.splits prod.splits)
  qed
qed

end
