(* ===== verification/Org_Reachable.thy ===== *)
theory Org_Reachable
  imports Org_Invariants
begin

text \<open>
  The organizations server as a whole: every step it can take, be it a request, the completion of an account
  creation, a restart, an administrative route or a resource of a stack, is \<open>careful\<close>, so that the servers
  that can be reached satisfy the invariants of \<open>Org_Invariants\<close>, in memory and on disk.
\<close>

section \<open>Requests\<close>

lemma careful_expire: "careful g J reg (snd (expire_first env reg))"
  unfolding expire_first_def expire_stale_handshakes_def
  by (auto simp: cf.R_refl intro!: careful_steady so.all_within_map steady_expire)

lemma careful_handle:
  assumes "org_handle env req srv = Some (r, srv')"
    and "g \<Longrightarrow> fresh_units env (snd (expire_first env (os_registry srv)))" "g \<Longrightarrow> is_account_number (req_account_id req)"
  shows "careful g {req_account_id req} (os_registry srv) (os_registry srv')"
    and "os_disk srv' = os_disk srv \<or> os_disk srv' = os_registry srv'"
proof -
  let ?reg1 = "snd (expire_first env (os_registry srv))"
  from assms(1) obtain r' spawned reg2 where d: "org_dispatch env req ?reg1 = Some (r', spawned, reg2)" "os_registry srv' = reg2"
      and disk: "os_disk srv' = os_disk srv \<or> os_disk srv' = os_registry srv'"
    unfolding org_handle_def by (cases "expire_first env (os_registry srv)") (auto split: if_splits)
  show "careful g {req_account_id req} (os_registry srv) (os_registry srv')"
    unfolding d(2) using careful_expire careful_dispatch [OF d(1) assms(2,3)] by (rule cf.R_trans)
  show "os_disk srv' = os_disk srv \<or> os_disk srv' = os_registry srv'" by (rule disk)
qed

section \<open>Steps besides requests\<close>

lemma careful_tick: "careful g UNIV reg (snd (completion_tick env rid reg))"
proof (cases "org_of_create_account_request rid reg")
  case (Some e)
  obtain k og where e: "e = (k, og)" by (cases e)
  with Some have og: "(k, og) \<in> set reg" using find_org_entry unfolding org_of_create_account_request_def by blast
  have step: "careful g UNIV reg (set_org k og' reg)" if "steady UNIV {} og og'" for og'
    using og steady_calm [OF that] by (rule careful_entry) (use that in simp_all)
  show ?thesis
    unfolding completion_tick_def Some e
    by (simp add: step [OF steady_complete_create] step [OF steady_fail_create])
qed (simp add: completion_tick_def cf.R_refl)

lemma map_of_map_values: "map_of (map (\<lambda>(k, v). (k, f v)) m) k = map_option f (map_of m k)"
  by (induction m) auto

lemma fst_map_values: "fst ` set (map (\<lambda>(k, v). (k, f v)) m) = fst ` set m"
  by (induction m) auto

lemma steady_remark:
  assumes "\<And>a. ac_parent_id (f a) = ac_parent_id a"
  shows "steady J C og (og\<lparr>og_accounts := map (\<lambda>(k, a). (k, f a)) (og_accounts og)\<rparr>)"
proof -
  let ?og = "og\<lparr>og_accounts := map (\<lambda>(k, a). (k, f a)) (og_accounts og)\<rparr>"
  have m: "members ?og = members og" by (simp add: members_def fst_map_values del: set_map)
  moreover have "claims ?og = claims og" using m by (simp add: claims_def in_flight_def)
  moreover have "tree_ok og \<Longrightarrow> tree_ok ?og" using assms by (fastforce simp: tree_ok_def)
  moreover have "targets_ok og \<Longrightarrow> targets_ok ?og"
    by (simp add: targets_ok_def target_exists_def map_of_map_values)
  ultimately show ?thesis by (simp add: steady_def)
qed

lemma steady_mark_legacy: "steady J C og (mark_legacy_gov_cloud_mirrors og)"
  by (simp add: mark_legacy_gov_cloud_mirrors_def st.R_refl steady_remark)

lemma careful_load: "careful g J reg (into_registry None reg)"
  by (simp add: into_registry_def careful_steady so.all_within_map steady_mark_legacy)

lemma careful_admin:
  assumes "enroll_admin env acct oid reg = Some reg'" and "g \<Longrightarrow> is_account_number acct"
  shows "careful g {acct} reg reg'"
proof -
  have "one_org reg \<Longrightarrow> careful g {acct} reg reg'"
  proof -
    assume one: "one_org reg"
    from assms(1) obtain og where og: "map_of reg oid = Some og" and none: "claimed_by_other_org reg acct oid = None"
        and reg': "reg' = bt_modify oid (enroll_account_if_missing env acct) reg"
      by (auto simp: enroll_admin_def split: if_splits)
    have entry: "(oid, og) \<in> set reg" using og by (rule map_of_SomeD)
    have "og_id og = oid" using one_orgD(2) [OF one entry] .
    have "v = og" if "(oid, v) \<in> set reg" for v using wf_entry_unique [OF one_orgD(1) [OF one] that entry] .
    then have "reg' = set_org oid (enroll_account_if_missing env acct og) reg"
      unfolding reg' set_org_def bt_modify_def by (intro map_cong) auto
    moreover have "careful g {acct} reg (set_org oid (enroll_account_if_missing env acct og) reg)"
      using entry steady_calm [OF steady_enroll]
      by (rule careful_entry)
        (use steady_enroll assms(2) unclaimed_elsewhere [OF one entry] none \<open>og_id og = oid\<close> in auto)
    ultimately show ?thesis by simp
  qed
  then show ?thesis by (auto simp: careful_def)
qed

subsection \<open>Stacks\<close>

lemma calm_unchanged:
  "og_id og' = og_id og \<Longrightarrow> og_accounts og' = og_accounts og \<Longrightarrow>
   og_create_account_requests og' = og_create_account_requests og \<Longrightarrow> calm J C og og'"
  by (auto simp: calm_def members_def claims_def in_flight_def)

lemma careful_calm_entry: "(k, og) \<in> set reg \<Longrightarrow> calm {} {} og og' \<Longrightarrow> careful False J reg (set_org k og' reg)"
  by (intro careful_within ca.all_within_set_org) simp_all

lemma careful_stack_org:
  assumes "\<And>og. calm {} {} og (snd (f og))"
  shows "careful False J reg (snd (stack_org cf f reg))"
proof (cases "find_org (has_member (cf_account_id cf)) reg")
  case (Some e)
  obtain k og where e: "e = (k, og)" by (cases e)
  have "careful False J reg (set_org k (snd (f og)) reg)"
    using find_org_entry Some e assms by (blast intro: careful_calm_entry)
  then show ?thesis by (simp add: stack_org_def Some e case_prod_unfold Let_def)
qed (simp add: stack_org_def cf.R_refl)

lemma careful_stack_org_if_any:
  assumes "\<And>og. calm {} {} og (f og)"
  shows "careful False J reg (stack_org_if_any cf f reg)"
  using assms by (auto simp: stack_org_if_any_def cf.R_refl intro!: careful_calm_entry dest: find_org_entry split: option.split)

lemma steady_move_to_parent: "steady J C og (snd (move_to_parent cf props acct og))"
proof -
  have "steady J C og og'" if "org_move_account a b c og = (r, og')" for a b c r og'
    using steady_move_account [of J C og a b c] that by simp
  then show ?thesis
    by (auto simp: move_to_parent_def Let_def st.R_refl split: list.split prod.split sum.split)
qed

lemma steady_provision_account: "steady UNIV {acct} og (snd (provision_account env cf props email name acct og))"
proof -
  obtain pending og1 where b: "begin_create_account env email name acct None og = (pending, og1)"
    by (cases "begin_create_account env email name acct None og")
  obtain fin og2 where c: "complete_create_account env (cs_id pending) og1 = (fin, og2)"
    by (cases "complete_create_account env (cs_id pending) og1")
  have "steady UNIV {acct} og og1" using steady_begin_create [of UNIV acct None og env email name] b by simp
  moreover have "steady UNIV {acct} og1 og2"
    using steady_weaken [OF steady_complete_create [of og1 env "cs_id pending"]] c by simp
  ultimately have og2: "steady UNIV {acct} og og2" by (rule st.R_trans)
  have moved: "steady UNIV {acct} og og3" if "move_to_parent cf props a og2 = (r, og3)" for a r og3
    using st.R_trans [OF og2 steady_move_to_parent [of UNIV "{acct}" og2 cf props a]] that by simp
  show ?thesis
    by (auto simp: provision_account_def b c Let_def og2 moved intro: st.R_trans [OF moved steady_set_resource_tags]
        split: option.split prod.split sum.split)
qed

lemma calm_drop: "calm J C og (drop_attachments pid og)"
  by (rule calm_unchanged) (simp_all add: drop_attachments_def)

lemma calm_attach_all: "calm {} {} og (snd (attach_all pid ts og))"
proof (induction ts arbitrary: og)
  case (Cons t ts)
  obtain r og' where a: "org_attach_policy pid t og = (r, og')" by (cases "org_attach_policy pid t og")
  then have og': "calm {} {} og og'" using steady_calm [OF steady_attach [of "{}" "{}" og pid t]] by simp
  have "calm {} {} og' (og'\<lparr>og_policies := ps\<rparr>)" for ps by (rule calm_unchanged) simp_all
  then have "calm {} {} og (drop_attachments pid (og'\<lparr>og_policies := ps\<rparr>))" for ps
    using ca.R_trans [OF og'] ca.R_trans [OF _ calm_drop] by blast
  then show ?case using a ca.R_trans [OF og' Cons.IH] by (cases r) simp_all
qed (simp add: ca.R_refl)

lemma calm_create_ou: "calm {} {} og (snd (org_create_ou env parent name og))"
  by (rule calm_unchanged) (simp_all add: org_create_ou_def Let_def)

lemma careful_cfn_create_unit: "careful False J reg (snd (cfn_create_unit env cf props reg))"
proof -
  have "calm {} {} og og'" if "org_create_ou env parent name og = (r, og')" for parent name og r og'
    using calm_create_ou [of og env parent name] that by simp
  then show ?thesis
    unfolding cfn_create_unit_def Let_def
    by (auto simp: cf.R_refl intro!: careful_stack_org split: option.split prod.split sum.split)
qed

lemma careful_cfn_create_policy: "careful False J reg (snd (cfn_create_policy env cf props reg))"
proof -
  have p: "calm {} {} og og'" if "org_create_policy env n d c t og = (r, og')" for n d c t og r og'
    using steady_calm [OF steady_quiet_ops(5) [of "{}" "{}" og env n d c t]] that by simp
  have a: "calm {} {} og og'" if "attach_all pid ts og = (r, og')" for pid ts og r og'
    using calm_attach_all [of og pid ts] that by simp
  show ?thesis
    unfolding cfn_create_policy_def Let_def
    by (auto simp: cf.R_refl intro!: careful_stack_org intro: p ca.R_trans [OF p a] split: option.split prod.split sum.split)
qed

lemma careful_cfn_update_account: "careful False J reg (snd (cfn_update_account cf acct props reg))"
proof -
  have m: "calm {} {} og og'" if "move_to_parent cf props acct og = (r, og')" for og r og'
    using steady_calm [OF steady_move_to_parent [of "{}" "{}" og cf props acct]] that by simp
  show ?thesis
    unfolding cfn_update_account_def Let_def
    by (rule careful_stack_org)
      (auto simp: ca.R_refl intro: m ca.R_trans [OF m steady_calm [OF steady_set_resource_tags]] split: option.split prod.split sum.split)
qed

lemma careful_cfn_unit_updates:
  "careful False J reg (cfn_delete_unit cf i reg)" "careful False J reg (snd (cfn_update_unit cf i props reg))"
  "careful False J reg (cfn_delete_account cf i reg)" "careful False J reg (cfn_delete_resource_policy cf reg)"
  unfolding cfn_delete_unit_def cfn_update_unit_def cfn_delete_account_def cfn_delete_resource_policy_def Let_def
  by (intro careful_stack_org_if_any careful_stack_org; auto intro: calm_unchanged steady_calm [OF steady_close_account] split: option.split)+

lemma careful_cfn_policy_updates:
  "careful False J reg (cfn_delete_policy cf i reg)" "careful False J reg (snd (cfn_update_policy env cf i props reg))"
  unfolding cfn_delete_policy_def cfn_update_policy_def Let_def
  by (intro careful_stack_org_if_any careful_stack_org;
      auto simp: drop_attachments_def intro: calm_unchanged split: option.split)+

lemma careful_cfn_create_resource_policy: "careful False J reg (snd (cfn_create_resource_policy env cf props reg))"
  unfolding cfn_create_resource_policy_def
  by (auto simp: cf.R_refl intro!: careful_stack_org calm_unchanged split: option.split)

lemma careful_cfn_create_organization: "careful False {cf_account_id cf} reg (snd (cfn_create_organization env cf props reg))"
  unfolding cfn_create_organization_def Let_def by (auto simp: cf.R_refl intro!: careful_bootstrap)

lemma careful_cfn_create_account:
  assumes "cfn_create_account env cf props reg = Some (r, reg')"
  shows "careful False UNIV reg reg'"
proof (cases "reg' = reg")
  case False
  with assms obtain email name acct n where
    m: "next_account_id_besides env reg [] 0 = Some (acct, n)"
    and s: "stack_org cf (provision_account env cf props email name acct) reg = (r, reg')"
    by (auto simp: cfn_create_account_def bind_eq_Some_conv split: option.splits if_splits)
  from s False obtain k og where og: "find_org (has_member (cf_account_id cf)) reg = Some (k, og)"
    and reg': "reg' = set_org k (snd (provision_account env cf props email name acct og)) reg"
    by (auto simp: stack_org_def case_prod_unfold Let_def split: option.splits)
  show ?thesis
    unfolding reg' using conjunct1 [OF find_org_entry [OF og]] steady_calm [OF steady_provision_account]
    by (rule careful_entry) (use minted_unclaimed(2) [OF m] in auto)
qed (simp add: cf.R_refl)

text \<open>One step of a stack: the creation, the update or the deletion of one resource of an organization.\<close>

inductive stack_step :: "organizations_registry \<Rightarrow> organizations_registry \<Rightarrow> bool" for reg where
  "stack_step reg (snd (cfn_create_organization env cf props reg))"
| "stack_step reg (cfn_delete_organization i reg)"
| "stack_step reg (snd (cfn_create_unit env cf props reg))"
| "stack_step reg (cfn_delete_unit cf i reg)"
| "cfn_create_account env cf props reg = Some (r, reg') \<Longrightarrow> stack_step reg reg'"
| "stack_step reg (cfn_delete_account cf i reg)"
| "stack_step reg (snd (cfn_create_policy env cf props reg))"
| "stack_step reg (cfn_delete_policy cf i reg)"
| "stack_step reg (snd (cfn_create_resource_policy env cf props reg))"
| "stack_step reg (cfn_delete_resource_policy cf reg)"
| "stack_step reg (snd (cfn_update_unit cf i props reg))"
| "stack_step reg (snd (cfn_update_account cf i props reg))"
| "stack_step reg (snd (cfn_update_policy env cf i props reg))"

lemma careful_stack: "stack_step reg reg' \<Longrightarrow> careful False UNIV reg reg'"
  by (induction rule: stack_step.induct)
    (simp_all add: careful_cfn_create_unit careful_cfn_create_policy careful_cfn_update_account careful_cfn_unit_updates
      careful_cfn_policy_updates careful_cfn_create_resource_policy careful_cfn_create_account careful_mono [OF careful_cfn_create_organization] cfn_delete_organization_def careful_remove)

section \<open>Reachable servers\<close>

text \<open>
  A server starts without organizations, and goes on by requests, by the completion of an account creation that is
  pending, by a restart from what was saved last, by the administrative route that enrolls an account, by the
  introspection of transfers, and by the resources of stacks, after which the registry may or may not have been
  saved. With \<open>g\<close> there are no stacks, accounts are named by account numbers, and no identifier that is drawn
  for a unit is that of a unit already there.
\<close>

inductive org_reachable :: "bool \<Rightarrow> org_server \<Rightarrow> bool" for g where
  start: "org_reachable g \<lparr>os_registry = [], os_disk = [], os_pending = []\<rparr>"
| request: "org_reachable g srv \<Longrightarrow> org_handle env req srv = Some (r, srv') \<Longrightarrow>
    (g \<longrightarrow> fresh_units env (snd (expire_first env (os_registry srv))) \<and> is_account_number (req_account_id req)) \<Longrightarrow>
    org_reachable g srv'"
| tick: "org_reachable g srv \<Longrightarrow> rid \<in> set (os_pending srv) \<Longrightarrow> org_reachable g (org_tick env rid srv)"
| restart: "org_reachable g srv \<Longrightarrow> org_reachable g (org_restart srv)"
| admin: "org_reachable g srv \<Longrightarrow> (g \<longrightarrow> is_account_number acct) \<Longrightarrow> org_reachable g (org_admin env acct oid srv)"
| introspect: "org_reachable g srv \<Longrightarrow> org_reachable g (introspect_transfers env srv)"
| stack: "org_reachable g srv \<Longrightarrow> \<not> g \<Longrightarrow> stack_step (os_registry srv) reg \<Longrightarrow> disk = os_disk srv \<or> disk = reg \<Longrightarrow>
    org_reachable g (srv\<lparr>os_registry := reg, os_disk := disk\<rparr>)"

definition org_inv :: "bool \<Rightarrow> org_server \<Rightarrow> bool" where
  "org_inv g srv \<longleftrightarrow> (\<forall>reg \<in> {os_registry srv, os_disk srv}. one_org reg \<and> (g \<longrightarrow> sound reg))"

lemma org_inv_step:
  assumes "org_inv g srv" and "careful g J (os_registry srv) (os_registry srv')"
    and "os_disk srv' = os_disk srv \<or> os_disk srv' = os_registry srv'"
  shows "org_inv g srv'"
  using assms unfolding org_inv_def careful_def by auto

lemma org_tick_steps:
  "os_registry (org_tick env rid srv) = snd (completion_tick env rid (os_registry srv))"
  "os_disk (org_tick env rid srv) = os_disk srv \<or> os_disk (org_tick env rid srv) = os_registry (org_tick env rid srv)"
  by (auto simp: org_tick_def case_prod_unfold Let_def)

lemma org_admin_steps:
  assumes "g \<Longrightarrow> is_account_number acct"
  shows "careful g {acct} (os_registry srv) (os_registry (org_admin env acct oid srv))"
    and "os_disk (org_admin env acct oid srv) = os_disk srv \<or> os_disk (org_admin env acct oid srv) = os_registry (org_admin env acct oid srv)"
  using careful_admin assms by (auto simp: org_admin_def Let_def cf.R_refl split: option.split)

lemma reachable_inv: "org_reachable g srv \<Longrightarrow> org_inv g srv"
proof (induction rule: org_reachable.induct)
  case start
  show ?case by (simp add: org_inv_def one_org_def sound_def)
next
  case (request srv env req r srv')
  then show ?case using org_inv_step [OF request.IH] careful_handle [OF request.hyps(2)] by blast
next
  case (tick srv rid env)
  show ?case using org_inv_step [OF tick.IH] careful_tick org_tick_steps by metis
next
  case (restart srv)
  then show ?case using careful_load [of g UNIV "os_disk srv"] by (auto simp: org_inv_def org_restart_def Let_def careful_def)
next
  case (admin srv acct env oid)
  then show ?case using org_inv_step [OF admin.IH] org_admin_steps by blast
next
  case (introspect srv env)
  show ?case by (rule org_inv_step [OF introspect.IH, where J = UNIV]) (simp_all add: introspect_transfers_def careful_expire)
next
  case (stack srv reg disk)
  then show ?case using org_inv_step [OF stack.IH, of UNIV] careful_stack by simp
qed

end
