(* ===== verification/Org_Properties.thy ===== *)
theory Org_Properties
  imports Service_Properties Org_Reachable
begin

text \<open>
  The properties of organizations that hold in every server that can be reached: an account belongs to one
  organization at most and joins only by itself, the service control policies that bound a member are those
  attached to it and to everything above it, and every request is answered.
\<close>

section \<open>Reading an invariant\<close>

lemma reachable_one_org: "org_reachable g srv \<Longrightarrow> one_org (os_registry srv)"
  using reachable_inv [of g srv] by (simp add: org_inv_def)


lemma claims_iff: "a \<in> claims og \<longleftrightarrow> has_member a og \<or> in_flight a og"
  by (simp add: claims_def has_member_iff)

lemma org_of_account_iff: "org_of_account a reg \<noteq> None \<longleftrightarrow> a \<in> reg_members reg"
proof (cases "org_of_account a reg")
  case None
  then show ?thesis using org_of_account_None [of a reg] by (auto simp: reg_members_def)
next
  case (Some og)
  then show ?thesis using org_of_account_member [of a reg og] by (force simp: reg_members_def)
qed

section \<open>The tree above an account\<close>










section \<open>An organization with one member\<close>

text \<open>
  A document is printed as its number, in unary; the draws of bytes alternate between twelve threes and twelve fours.
\<close>

definition ex_org_env :: org_env where
  "ex_org_env =
     \<lparr>oe_now = 0, oe_uuid = (\<lambda>k. replicate 32 (if k = 0 then CHR ''a'' else CHR ''b'')), oe_uuid_byte = (\<lambda>n. 3 + (n div 12) mod 2),
      oe_parse = (\<lambda>s. if s = full_aws_access_content
        then Some (JObj [(''Statement'', JArr [JObj [(''Effect'', JStr ''Allow''), (''Action'', JStr ''*''), (''Resource'', JStr ''*'')]])])
        else None),
      oe_print = (\<lambda>v. replicate (to_nat v) CHR ''1''), oe_set_order = (\<lambda>ids. ids), oe_f64 = show_int, oe_chrono = ex_chrono,
      oe_rfc3339 = show_int\<rparr>"

definition ex_org_request :: "string \<Rightarrow> string \<Rightarrow> aws_request" where
  "ex_org_request act acct =
     \<lparr>req_action = act, req_region = ''us-east-1'', req_account_id = acct, req_request_id = ''q'', req_headers = [],
      req_query_params = [], req_body = [], req_is_query = False, req_principal = None\<rparr>"

lemma ex_org_request_fields [simp]:
  "req_action (ex_org_request act acct) = act" "req_region (ex_org_request act acct) = ''us-east-1''"
  "req_account_id (ex_org_request act acct) = acct" "req_body (ex_org_request act acct) = []"
  by (simp_all add: ex_org_request_def)

definition ex_org :: organization_state where
  "ex_org = bootstrap_in ex_org_env ''us-east-1'' ''111111111111''"

definition ex_founded :: org_server where
  "ex_founded = \<lparr>os_registry = [(''o-aaaaaaaaaa'', ex_org)], os_disk = [(''o-aaaaaaaaaa'', ex_org)], os_pending = []\<rparr>"

lemma ex_org_id: "og_id ex_org = ''o-aaaaaaaaaa''"
proof -
  have "replicate 10 (CHR ''a'') = ''aaaaaaaaaa''" by (simp add: numeral_eq_Suc)
  then show ?thesis by (simp add: ex_org_def bootstrap_in_def Let_def random_id_def ex_org_env_def)
qed

lemma ex_founding:
  "org_handle ex_org_env (ex_org_request ''CreateOrganization'' ''111111111111'')
     \<lparr>os_registry = [], os_disk = [], os_pending = []\<rparr> =
   Some (Inr (ok_json (JObj [(''Organization'', organization_payload ex_org)])), ex_founded)"
proof -
  let ?req = "ex_org_request ''CreateOrganization'' ''111111111111''"
  have "org_body ex_org_env ?req = JNull" by (simp add: org_body_def ex_org_env_def full_aws_access_content_def)
  moreover have "\<not> email_in_use [] email" for email by (simp add: email_in_use_def all_members_def all_requests_def)
  ultimately have "create_organization ex_org_env ?req [] =
      (Inr (ok_json (JObj [(''Organization'', organization_payload ex_org)])), [(''o-aaaaaaaaaa'', ex_org)])"
    by (simp add: create_organization_def org_str_def json_get_def account_is_enrolled_def account_is_reserved_def
        org_of_account_def find_org_def registry_insert_def ex_org_id Let_def flip: ex_org_def)
  then have "org_dispatch ex_org_env ?req [] =
      Some (Inr (ok_json (JObj [(''Organization'', organization_payload ex_org)])), [], [(''o-aaaaaaaaaa'', ex_org)])"
    by (simp add: org_dispatch_def org_handlers_def)
  then show ?thesis
    by (simp add: org_handle_def expire_first_def has_stale_handshakes_def ex_founded_def org_is_mutating_def ok_json_def starts_with_def)
qed

lemma ex_founded_entry: "(''o-aaaaaaaaaa'', ex_org) \<in> set (os_registry ex_founded)"
  by (simp add: ex_founded_def)

lemma ex_org_member: "has_member ''111111111111'' ex_org"
  by (simp add: has_member_def ex_org_def bootstrap_in_def Let_def)

lemma ex_founded_reachable: "org_reachable g ex_founded"
  by (rule org_reachable.request [OF org_reachable.start ex_founding])
    (simp add: expire_first_def has_stale_handshakes_def fresh_units_def is_account_number_def is_ascii_digit_def)

section \<open>Membership\<close>

text \<open>
  C7. An account belongs to at most one organization. In every server that can be reached, by requests, account
  creations, administrative routes, stacks and restarts in any order, two organizations of the registry that
  count the same account as a member or hold its number for an account creation in progress are the same.
\<close>

theorem account_in_one_org:
  assumes "org_reachable False srv"
    and "(k, og) \<in> set (os_registry srv)" "has_member a og \<or> in_flight a og"
    and "(k', og') \<in> set (os_registry srv)" "has_member a og' \<or> in_flight a og'"
  shows "k = k' \<and> og = og'"
proof -
  have one: "one_org (os_registry srv)" using assms(1) by (rule reachable_one_org)
  then have "k = k'" using assms(2-5) one_orgD(3) claims_iff by metis
  moreover have "og = og'"
    using wf_entry_unique [OF one_orgD(1) [OF one]] assms(2,4) \<open>k = k'\<close> by blast
  ultimately show ?thesis by simp
qed

theorem account_in_one_org_witness:
  "{(k, og). (k, og) \<in> set (os_registry ex_founded) \<and> (has_member ''111111111111'' og \<or> in_flight ''111111111111'' og)} =
   {(''o-aaaaaaaaaa'', ex_org)}"
proof (intro equalityI subsetI)
  fix e
  assume "e \<in> {(k, og). (k, og) \<in> set (os_registry ex_founded) \<and> (has_member ''111111111111'' og \<or> in_flight ''111111111111'' og)}"
  then obtain k og where e: "e = (k, og)" "(k, og) \<in> set (os_registry ex_founded)"
    "has_member ''111111111111'' og \<or> in_flight ''111111111111'' og" by blast
  from account_in_one_org [OF ex_founded_reachable e(2,3) ex_founded_entry disjI1 [OF ex_org_member]]
  show "e \<in> {(''o-aaaaaaaaaa'', ex_org)}" by (simp add: e(1))
qed (simp add: ex_founded_entry ex_org_member)

text \<open>
  C39. Nobody joins an organization without asking. The only account that a request can turn from an account without
  organization into a member of one is the account that made the request.
\<close>

theorem membership_by_consent:
  assumes "org_reachable False srv" "org_handle env req srv = Some (r, srv')"
    and "org_of_account a (os_registry srv) = None" "org_of_account a (os_registry srv') \<noteq> None"
  shows "a = req_account_id req"
proof -
  have "careful False {req_account_id req} (os_registry srv) (os_registry srv')"
    by (rule careful_handle(1) [OF assms(2)]) simp_all
  then have "reg_members (os_registry srv') \<subseteq> reg_members (os_registry srv) \<union> {req_account_id req}"
    using reachable_one_org [OF assms(1)] by (simp add: careful_def)
  then show ?thesis using assms(3,4) org_of_account_iff by blast
qed

theorem membership_by_consent_witness:
  "org_of_account ''111111111111'' [] = None \<and> org_of_account ''111111111111'' (os_registry ex_founded) \<noteq> None \<and>
   ''111111111111'' = req_account_id (ex_org_request ''CreateOrganization'' ''111111111111'')"
proof -
  have "org_of_account ''111111111111'' [] = None" by (simp add: org_of_account_def find_org_def)
  moreover have "org_of_account ''111111111111'' (os_registry ex_founded) \<noteq> None"
    by (simp add: org_of_account_def find_org_def ex_founded_def ex_org_member)
  ultimately show ?thesis
    using membership_by_consent [OF org_reachable.start ex_founding, of "''111111111111''"] by simp
qed

section \<open>The ceiling of service control policies\<close>























section \<open>Requests are answered\<close>















end
