(* ===== verification/Spec2Isabelle.thy ===== *)
theory Spec2Isabelle
  imports Org_Properties
begin

text \<open>
  A verification development of three parts of fakecloud, a local emulator of AWS, and of the places where
  they meet: the IAM policy engine, which decides whether a request may proceed, the queue service (SQS),
  which executes it, and Organizations, whose service control policies bound what an account's own
  policies can allow. All paths below are under \<^verbatim>\<open>src/crates\<close>.

  \<^bold>\<open>The program.\<close> A request reaches a service together with the caller's identity. The service names the
  action and the resource the request is about (\<^verbatim>\<open>iam_action_for\<close>); the policy engine collects the
  policies of the caller, of the resource and of the organization and evaluates them; if they allow the
  request, the handler of the action runs on the state of the caller's account and region and, when it
  changed something, a snapshot is written; that the write can fail is part of the model. Besides requests, queues change through deliveries by other
  services, background workers of move tasks, simulation endpoints and restarts.

  \<^bold>\<open>Foundations.\<close> \<open>Prelude\<close> (strings as bytes, ordered maps as sorted association lists, with the locale
  \<open>ordered_map\<close>), \<open>Utf8\<close>, \<open>Rust_Num\<close> (printing and parsing of integers and floats), \<open>Json\<close>
  (\<^verbatim>\<open>serde_json::Value\<close>) and \<open>Net\<close> (\<^verbatim>\<open>std::net\<close> addresses) model what the code uses of Rust's library and
  of JSON values.

  \<^bold>\<open>Policy engine\<close> (\<^verbatim>\<open>fakecloud-iam\<close>, \<^verbatim>\<open>fakecloud-core/src/auth.rs\<close>).
  \<^item> \<open>Glob\<close>: the wildcard matcher of \<^verbatim>\<open>evaluator.rs\<close>, \<^verbatim>\<open>condition.rs\<close> and \<^verbatim>\<open>policy_variables.rs\<close>, against a
    reference semantics of patterns.
  \<^item> \<open>Auth_Context\<close>: principals, actions, the condition context (\<^verbatim>\<open>auth.rs\<close>).
  \<^item> \<open>Policy_Variables\<close>, \<open>Condition\<close>, \<open>Evaluator\<close>: the files of the same names in \<^verbatim>\<open>fakecloud-iam/src\<close>.
  \<^item> \<open>Policy_Store\<close>: which policies a caller has (\<^verbatim>\<open>state.rs\<close>, the collectors of \<^verbatim>\<open>evaluator.rs\<close>) and the
    adapter \<^verbatim>\<open>policy_evaluator.rs\<close>.
  \<^item> \<open>Policy_Properties\<close>: an explicit deny in any layer wins; the closed form of the decision with and
    without a resource policy; boundaries, session and service control policies only restrict; the meaning
    of conditions, CIDR blocks, variables and wildcards; which policies are collected; and that a missing
    boundary and an unknown condition operator never allow.

  \<^bold>\<open>Tenancy and requests.\<close> \<open>Arn\<close> (\<^verbatim>\<open>fakecloud-aws/src/arn.rs\<close>), \<open>Multi_Account\<close>
  (\<^verbatim>\<open>fakecloud-core/src/multi_account.rs\<close>; the locale \<open>partitioned_store\<close> is the isolation services rely on)
  and \<open>Aws_Service\<close> (\<^verbatim>\<open>service.rs\<close>, \<^verbatim>\<open>query.rs\<close>, \<^verbatim>\<open>xml.rs\<close>).

  \<^bold>\<open>Queue service\<close> (\<^verbatim>\<open>fakecloud-sqs\<close>). A handler is a function from the store to a result and a store; one
  definition per operation, and where an operation works on one region or one queue, that part is a
  definition of its own.
  \<^item> \<open>Sqs_State\<close> (\<^verbatim>\<open>state.rs\<close>), \<open>Sqs_Helpers\<close> (\<^verbatim>\<open>helpers.rs\<close>, \<^verbatim>\<open>service/auth.rs\<close>) and \<open>Sqs_Xml\<close> (the rendering
    half of \<^verbatim>\<open>helpers.rs\<close>).
  \<^item> \<open>Sqs_Send\<close>, \<open>Sqs_Receive\<close>, with the lemmas of \<open>Sqs_Receive_Facts\<close>, \<open>Sqs_Visibility\<close> and \<open>Sqs_Redrive\<close>:
    \<^verbatim>\<open>service/messages.rs\<close>.
  \<^item> \<open>Sqs_Queues\<close> (\<^verbatim>\<open>service/queues.rs\<close>, \<^verbatim>\<open>tags.rs\<close>, \<^verbatim>\<open>dlq.rs\<close>), \<open>Sqs_Permissions\<close> (\<^verbatim>\<open>permissions.rs\<close>,
    \<^verbatim>\<open>resource_policy.rs\<close>), \<open>Sqs_Moves\<close> (\<^verbatim>\<open>moves.rs\<close> and the worker in \<^verbatim>\<open>service/mod.rs\<close>), \<open>Sqs_Delivery\<close>
    (\<^verbatim>\<open>delivery.rs\<close>, \<^verbatim>\<open>simulation.rs\<close>).
  \<^item> \<open>Sqs_Traces\<close>: the relations \<open>numbered\<close> (a FIFO queue through sends, batches and deliveries) and \<open>quiet\<close>
    (what may happen to a region while a message is in flight), and what holds along them.
  \<^item> \<open>Sqs_Directory\<close>: what requests on messages leave alone, and the locale \<open>region_invariant\<close>, which shows
    once that every such request keeps a property of the configuration; it is interpreted on the
    consistency of the name directory and on the exclusion of the two encryption modes.
  \<^item> \<open>Sqs_Service\<close> (\<^verbatim>\<open>service/mod.rs\<close>): the table of actions, snapshots, what a request is authorized for,
    and the server as the step relation \<open>sqs_step\<close>, whose steps are requests, single polls, checkpoints,
    worker iterations, deliveries, simulation calls, flushes and restarts; \<open>service_invariant\<close> extends
    \<open>region_invariant\<close> to all reachable servers.
  \<^item> \<open>Queue_Properties\<close>: a receive answers with exactly the deliverable messages, or those of the attempt it
    replays; it loses nothing but what is past its retention; what it hands out stays hidden, is locked by
    group and in order; what has reached the receive limit goes to the dead-letter queue; sends are
    deduplicated and numbered, alone and in batches; a receipt deletes its message; a long poll ends.
  \<^item> \<open>Service_Properties\<close>: in every reachable server the directory is consistent and the encryption modes
    exclude each other; what an acknowledged request did survives a restart when its snapshot was written,
    and otherwise the last snapshot does; requests stay within their account and
    region; listings are complete; move tasks conserve messages and a throttled one ends where the
    immediate one does; deliveries arrive; the queue that is authorized is the queue that is touched;
    a permission grants exactly what it names.

  \<^bold>\<open>Organizations\<close> (\<^verbatim>\<open>fakecloud-organizations\<close>). The registry maps organization identifiers to organizations; an
  operation is a function on an organization or on the registry.
  \<^item> \<open>Org_State\<close> (\<^verbatim>\<open>state.rs\<close>): organizations, units, accounts, policies and attachments, delegation, tags,
    and the walks up the tree.
  \<^item> \<open>Org_Service\<close> (\<^verbatim>\<open>service/*.rs\<close>) and \<open>Org_Handshakes\<close> (\<^verbatim>\<open>service/handshakes.rs\<close>, \<^verbatim>\<open>service/responsibility.rs\<close>):
    one handler per action, with its checks in the order of the code.
  \<^item> \<open>Org_Resolver\<close> (\<^verbatim>\<open>resolver.rs\<close>, \<^verbatim>\<open>introspection.rs\<close>): which service control policies bound a principal.
  \<^item> \<open>Org_Provisioning\<close>: \<^verbatim>\<open>fakecloud-cloudformation/src/resource_provisioner/organizations.rs\<close>.
  \<^item> \<open>Org_Server\<close> (\<^verbatim>\<open>service/mod.rs\<close>): dispatch, snapshots, the completion of account creations, restarts.
  \<^item> \<open>Org_Facts\<close>, \<open>Org_Invariants\<close>, \<open>Org_Reachable\<close>: what every operation keeps (\<open>one_org\<close>: no account in two
    organizations; \<open>sound\<close>: a tree with a way to the root from everywhere, and attachments to what exists),
    and the reachable servers. \<open>org_reachable False\<close> has every step; \<open>org_reachable True\<close> leaves out stacks,
    which do not keep \<open>sound\<close>, and takes callers to be account numbers and drawn unit identifiers to be new.
  \<^item> \<open>Org_Properties\<close>: an account is in one organization at most and joins only by itself; the service
    control policies bound a member by everything above it; every request is answered.

  \<^bold>\<open>Loops and bounds.\<close> Where a loop of the code is bounded by its data the model is a total function. The
  polling loop of \<^verbatim>\<open>receive_message\<close>, the worker of a move task, the search for a free account number
  (\<open>mint_account_id\<close>) and the walks to the root (\<open>unit_walk\<close>, \<open>walk_up\<close>) are \<open>partial_function (option)\<close>, so that
  \<open>None\<close> means no return: \<open>long_poll_ends\<close>, \<open>throttled_move_completes\<close> and \<open>organizations_answer\<close> state that they
  return, and \<open>self_move_never_ends\<close> a case where the worker does not. Numbered query parameters are read up to the
  first gap, which is bounded by the number of parameters. Counters that saturate or wrap in the code do
  so in the model; \<^verbatim>\<open>as u32\<close> is written out as a remainder.

  \<^bold>\<open>Arguments of the model.\<close> The clock, random identifiers, MD5, SHA-256, base64, the text form of JSON, the
  KMS service, whether a snapshot can be written, \<^verbatim>\<open>chrono\<close> and the catalogue of AWS-managed policies are
  fields of the records \<open>sqs_env\<close>, \<open>org_env\<close>, \<open>iam_env\<close> and \<open>chrono\<close>. What a theorem needs of them is a named hypothesis (\<open>json_faithful\<close>,
  \<open>json_objects_wf\<close>, \<open>kms_faithful\<close>, \<open>draws_free_numbers\<close>), and its witness instantiates them.

  \<^bold>\<open>Not modelled.\<close> HTTP routing, signature verification and the rest of \<^verbatim>\<open>fakecloud-core/src/dispatch.rs\<close>;
  the services that edit users, roles and policies; snapshot files and their JSON; sockets, logging and
  process start; the code outside \<^verbatim>\<open>fakecloud-sqs\<close> that writes queues directly (stacks, the Lambda and Pipes
  pollers, the reset route), so that \<open>sqs_step\<close> and \<open>quiet\<close> do not have its steps; and the roughly one hundred
  other service emulators, each of which is a program of its own that the modelled parts do not call.
\<close>

section \<open>Resource names\<close>

text \<open>
  C37. Resource names survive a round trip: parsing what was printed gives the name back, printing what
  was parsed gives the text back, and the account and region are read off the text.
\<close>

theorem arn_round_trip:
  assumes "arn_wf a"
  shows "arn_from_str (arn_to_string a) = Inr a \<and>
    account_of (arn_to_string a) = (if a_account_id a = [] then None else Some (a_account_id a)) \<and>
    region_of (arn_to_string a) = (if a_region a = [] then None else Some (a_region a)) \<and>
    (arn_from_str s = Inr b \<longrightarrow> arn_to_string b = s)"
  using arn_parse_print account_region_of_print arn_print_parse assms by simp

theorem arn_round_trip_witness:
  "arn_from_str (arn_to_string (arn_new ''sqs'' ''us-east-1'' ''123456789012'' ''q'')) =
     Inr (arn_new ''sqs'' ''us-east-1'' ''123456789012'' ''q'') \<and>
   region_of (arn_to_string (arn_new ''sqs'' ''us-east-1'' ''123456789012'' ''q'')) = Some ''us-east-1''"
proof -
  have "arn_wf (arn_new ''sqs'' ''us-east-1'' ''123456789012'' ''q'')"
    "a_region (arn_new ''sqs'' ''us-east-1'' ''123456789012'' ''q'') = ''us-east-1''" by code_simp+
  then show ?thesis using arn_round_trip [of "arn_new ''sqs'' ''us-east-1'' ''123456789012'' ''q''"] by simp
qed

section \<open>Rendering\<close>

text \<open>
  User text in an XML response is data: its escaped form contains no markup character, and a
  reader that resolves the references gets the text back.
\<close>

theorem xml_escape_round_trip:
  assumes "utf8_wf s"
  shows "set (chars (xml_escape s)) \<inter> {60, 62, 34, 39} = {} \<and> encode_str (unescape_cps (chars (xml_escape s))) = s"
  using xml_escape_no_markup [OF assms] xml_unescape_escape [OF assms] by blast

theorem xml_escape_round_trip_witness:
  "encode_str (unescape_cps (chars (xml_escape ''<Message>a&b</Message>''))) = ''<Message>a&b</Message>''"
proof -
  have "is_ascii_str ''<Message>a&b</Message>''" by code_simp
  then have "utf8_wf ''<Message>a&b</Message>''" by (rule is_ascii_utf8_wf)
  from xml_escape_round_trip [OF this] show ?thesis by blast
qed

section \<open>Migration\<close>

text \<open>
  C38. Migrating a snapshot that was not partitioned by region loses, invents and alters no queue: each
  one is found, unchanged, in the region its ARN names, or in the default region if it names none.
\<close>

theorem legacy_split_complete:
  assumes "distinct (map fst (ss_queues st))"
  shows "region_queue (from_legacy acct dflt endpoint st) rgn url =
    (case map_of (ss_queues st) url of
       Some q \<Rightarrow> if rgn = unwrap_or (region_of (q_arn q)) dflt then Some q else None
     | None \<Rightarrow> None)"
  using assms by (rule region_queue_from_legacy)

theorem legacy_split_complete_witness:
  "region_queue (from_legacy ''123456789012'' ''eu-west-1'' [] (ex_region (ex_queue False []))) ''us-east-1'' ''u'' =
   Some (ex_queue False [])"
proof -
  have "region_of (q_arn (ex_queue False [])) = Some ''us-east-1''" by code_simp
  then show ?thesis
    using legacy_split_complete [of "ex_region (ex_queue False [])" "''123456789012''" "''eu-west-1''" "[]" "''us-east-1''" "''u''"]
    by simp
qed

end
